(* ===== verification/Prelude.thy ===== *)
theory Prelude
  imports Main "HOL-Library.Word" "HOL-Library.AList" "HOL-Library.Monad_Syntax"
begin

text \<open>
  Shared vocabulary of the development: the machine types of the Go code (bytes, \<open>uint32\<close>,
  \<open>uint64\<close>), byte strings, bit fields inside one byte, the big-endian integers of
  \<^verbatim>\<open>encoding/binary\<close>, Go maps as association lists with distinct keys, and the result
  convention. A Go function that may panic is modelled in the option type, \<open>None\<close> being the
  panic; an \<^verbatim>\<open>error\<close> result is a value of \<open>goerr option\<close> (\<open>None\<close> is \<^verbatim>\<open>nil\<close>) or
  of the sum \<open>goerr + 'a\<close>.
\<close>

section \<open>Types\<close>

type_synonym byte = "8 word"
type_synonym bytes = "byte list"
type_synonym u32 = "32 word"
type_synonym u64 = "64 word"

text \<open>
  Errors are compared by identity in Go, so each package-level \<^verbatim>\<open>errors.New\<close> variable is a
  constructor, and an error made on the spot carries its text.
\<close>

datatype goerr =
    EOF
  | ErrUnexpectedEOF
  | ErrMetaKVMissing
  | ErrMessageTooLong
  | ErrUnsupportedCompressor
  | WrongMagic byte
  | ErrShutdown
  | ErrTimeOut
  | ErrServerClosed
  | ErrSpanContextCorrupted
  | ErrInvalidSpanContext
  | ErrText string

named_theorems hdr \<open>header accessors after header setters\<close>

section \<open>Bit fields inside one byte\<close>

unbundle bit_operations_syntax

definition field_get :: "nat \<Rightarrow> nat \<Rightarrow> byte \<Rightarrow> byte" where
  "field_get p w x = drop_bit p x AND mask w"

definition field_set :: "nat \<Rightarrow> nat \<Rightarrow> byte \<Rightarrow> byte \<Rightarrow> byte" where
  "field_set p w v x = (x AND NOT (push_bit p (mask w))) OR push_bit p (v AND mask w)"

lemma field_get_set_same:
  "p + w \<le> 8 \<Longrightarrow> field_get p w (field_set p w v x) = v AND mask w"
  by (rule bit_word_eqI) (auto simp: field_get_def field_set_def bit_simps)

lemma byte_bit_beyond [simp]: "8 \<le> n \<Longrightarrow> \<not> bit (x :: byte) n"
  by (auto dest: bit_imp_le_length)

lemma byte_bit_ltD: "bit (x :: byte) n \<Longrightarrow> n < 8"
  by (auto dest: bit_imp_le_length)

lemma field_get_set_other:
  assumes "p + w \<le> q \<or> q + u \<le> p"
  shows "field_get p w (field_set q u v x) = field_get p w x"
proof (rule bit_word_eqI)
  fix n assume "n < LENGTH(8)"
  show "bit (field_get p w (field_set q u v x)) n = bit (field_get p w x) n"
    using assms by (cases "p + n < 8") (auto simp: field_get_def field_set_def bit_simps)
qed

lemma field_set_get: "p + w \<le> 8 \<Longrightarrow> field_set p w (field_get p w x) x = x"
  by (rule bit_word_eqI) (auto simp: field_get_def field_set_def bit_simps)

lemma field_set_set: "field_set p w v (field_set p w u x) = field_set p w v x"
  by (rule bit_word_eqI) (auto simp: field_get_def field_set_def bit_simps)

section \<open>Big-endian integers\<close>

definition be_put32 :: "u32 \<Rightarrow> bytes" where
  "be_put32 v = [ucast (drop_bit 24 v), ucast (drop_bit 16 v), ucast (drop_bit 8 v), ucast v]"

definition be_get32 :: "bytes \<Rightarrow> u32" where
  "be_get32 b = ucast (b ! 3) OR push_bit 8 (ucast (b ! 2)) OR
     push_bit 16 (ucast (b ! 1)) OR push_bit 24 (ucast (b ! 0))"

definition be_put64 :: "u64 \<Rightarrow> bytes" where
  "be_put64 v = [ucast (drop_bit 56 v), ucast (drop_bit 48 v), ucast (drop_bit 40 v),
     ucast (drop_bit 32 v), ucast (drop_bit 24 v), ucast (drop_bit 16 v),
     ucast (drop_bit 8 v), ucast v]"

definition be_get64 :: "bytes \<Rightarrow> u64" where
  "be_get64 b = ucast (b ! 7) OR push_bit 8 (ucast (b ! 6)) OR push_bit 16 (ucast (b ! 5)) OR
     push_bit 24 (ucast (b ! 4)) OR push_bit 32 (ucast (b ! 3)) OR push_bit 40 (ucast (b ! 2)) OR
     push_bit 48 (ucast (b ! 1)) OR push_bit 56 (ucast (b ! 0))"

lemma length_be_put32 [simp]: "length (be_put32 v) = 4"
  by (simp add: be_put32_def)

lemma length_be_put64 [simp]: "length (be_put64 v) = 8"
  by (simp add: be_put64_def)


lemma bit_be_get32:
  assumes "q < 4" "r < 8"
  shows "bit (be_get32 b) (8 * q + r) = bit (b ! (3 - q)) r"
proof -
  have "q = 0 \<or> q = 1 \<or> q = 2 \<or> q = 3" using assms(1) by arith
  then show ?thesis using assms(2)
    by (elim disjE) (simp_all add: be_get32_def bit_simps)
qed

lemma be_get32_put32 [simp]: "be_get32 (be_put32 v) = v"
proof (rule bit_word_eqI)
  fix n assume n: "n < LENGTH(32)"
  obtain q r where qr: "n = 8 * q + r" "q < 4" "r < 8"
    using n that [of "n div 8" "n mod 8"] by simp
  then have "q = 0 \<or> q = 1 \<or> q = 2 \<or> q = 3" by arith
  then show "bit (be_get32 (be_put32 v)) n = bit v n" using qr(2,3) unfolding qr(1) bit_be_get32 [OF qr(2,3)]
    by (elim disjE) (simp_all add: be_put32_def bit_simps)
qed

lemma bit_be_get64:
  assumes "q < 8" "r < 8"
  shows "bit (be_get64 b) (8 * q + r) = bit (b ! (7 - q)) r"
proof -
  have "q = 0 \<or> q = 1 \<or> q = 2 \<or> q = 3 \<or> q = 4 \<or> q = 5 \<or> q = 6 \<or> q = 7" using assms(1) by arith
  then show ?thesis using assms(2)
    by (elim disjE) (simp_all add: be_get64_def bit_simps)
qed

lemma be_get64_put64 [simp]: "be_get64 (be_put64 v) = v"
proof (rule bit_word_eqI)
  fix n assume n: "n < LENGTH(64)"
  obtain q r where qr: "n = 8 * q + r" "q < 8" "r < 8"
    using n that [of "n div 8" "n mod 8"] by simp
  then have "q = 0 \<or> q = 1 \<or> q = 2 \<or> q = 3 \<or> q = 4 \<or> q = 5 \<or> q = 6 \<or> q = 7" by arith
  then show "bit (be_get64 (be_put64 v)) n = bit v n" using qr(2,3) unfolding qr(1) bit_be_get64 [OF qr(2,3)]
    by (elim disjE) (simp_all add: be_put64_def bit_simps)
qed

section \<open>Go maps from strings to strings\<close>

text \<open>
  A Go map is an association list with distinct keys; the list order is the order in which
  \<^verbatim>\<open>range\<close> visits the entries, which Go leaves open, so a statement about all lists is a
  statement about all visiting orders. A nil map is \<open>None\<close> where the code tells nil from empty.
\<close>

type_synonym smap = "(string \<times> string) list"

definition smap_wf :: "smap \<Rightarrow> bool" where
  "smap_wf m \<longleftrightarrow> distinct (map fst m)"

abbreviation smap_put :: "string \<Rightarrow> string \<Rightarrow> smap \<Rightarrow> smap" where
  "smap_put k v m \<equiv> AList.update k v m"

text \<open>Reading a missing key gives the zero value \<^verbatim>\<open>""\<close>.\<close>

definition smap_get :: "smap \<Rightarrow> string \<Rightarrow> string" where
  "smap_get m k = (case map_of m k of None \<Rightarrow> '''' | Some v \<Rightarrow> v)"

lemma smap_wf_Nil [simp]: "smap_wf []"
  by (simp add: smap_wf_def)

lemma smap_wf_put [simp]: "smap_wf m \<Longrightarrow> smap_wf (smap_put k v m)"
  by (simp add: smap_wf_def distinct_update)

lemma smap_get_put [simp]: "smap_get (smap_put k v m) j = (if j = k then v else smap_get m j)"
  by (simp add: smap_get_def update_conv')

lemma length_smap_put: "length (smap_put k v m) \<le> Suc (length m)"
  by (induction m) auto

lemma smap_put_fresh: "k \<notin> fst ` set m \<Longrightarrow> smap_put k v m = m @ [(k, v)]"
  by (induction m) auto

lemma map_of_fold_put:
  "distinct (map fst src) \<Longrightarrow>
   map_of (fold (\<lambda>(k, v) m. smap_put k v m) src d) = map_of d ++ map_of src"
proof (induction src arbitrary: d)
  case Nil
  then show ?case by simp
next
  case (Cons kv src)
  obtain k v where kv: "kv = (k, v)" by (cases kv)
  have "k \<notin> dom (map_of src)" using Cons.prems by (simp add: kv dom_map_of_conv_image_fst)
  then have "(map_of d)(k \<mapsto> v) ++ map_of src = map_of d ++ (map_of src)(k \<mapsto> v)"
    by (auto simp: fun_eq_iff map_add_def domIff split: option.splits)
  with Cons kv show ?case by (simp add: update_conv' fun_upd_def)
qed

lemma smap_wf_fold_put:
  "smap_wf d \<Longrightarrow> smap_wf (fold (\<lambda>(k, v) m. smap_put (f k) v m) src d)"
  by (induction src arbitrary: d) auto

lemma map_of_SomeI: "smap_wf m \<Longrightarrow> (k, v) \<in> set m \<Longrightarrow> map_of m k = Some v"
  by (simp add: smap_wf_def)

lemma map_of_eqI_set:
  assumes "smap_wf a" "smap_wf b" "set a = set b"
  shows "map_of a = map_of b"
  using assms map_of_inject_set [of a b] by (simp add: smap_wf_def)

end
