(* ===== verification/Header.thy ===== *)
theory Header
  imports Prelude
begin

text \<open>
  The 12-byte message header of \<^verbatim>\<open>protocol/message.go\<close>: magic number, version, a byte of flags
  (message type, heartbeat, oneway, compression, status), a byte holding the serialization type
  in its high nibble, and the 8-byte big-endian sequence number. Setters and getters are
  transcribed with the masks of the source; the locale \<open>header_field\<close> states what a well-behaved
  field promises and is interpreted on every field that keeps it. \<open>SetMessageType\<close> does not: it
  can only set the bit.
\<close>

type_synonym header = bytes

definition hdr_wf :: "header \<Rightarrow> bool" where
  "hdr_wf h \<longleftrightarrow> length h = 12"

section \<open>Constants of the protocol\<close>

definition magicNumber :: byte where "magicNumber = 0x08"

definition MagicNumber :: byte where "MagicNumber = magicNumber"

definition Request :: byte where "Request = 0"
definition Response :: byte where "Response = 1"

definition Normal :: byte where "Normal = 0"
definition Error :: byte where "Error = 1"

definition NoCompress :: byte where "NoCompress = 0"
definition Gzip :: byte where "Gzip = 1"

definition SerializeNone :: byte where "SerializeNone = 0"
definition JSON :: byte where "JSON = 1"
definition ProtoBuffer :: byte where "ProtoBuffer = 2"
definition MsgPack :: byte where "MsgPack = 3"
definition Thrift :: byte where "Thrift = 4"

definition ServiceError :: string where "ServiceError = ''easymicro_error__''"

lemmas protocol_consts [simp] =
  magicNumber_def MagicNumber_def Request_def Response_def Normal_def Error_def
  NoCompress_def Gzip_def SerializeNone_def JSON_def ProtoBuffer_def MsgPack_def Thrift_def

text \<open>\<^verbatim>\<open>Header([12]byte{})\<close> with the magic number stored in byte 0.\<close>

definition new_header :: header where
  "new_header = magicNumber # replicate 11 0"

section \<open>Getters and setters\<close>

definition CheckMagicNumber :: "header \<Rightarrow> bool" where
  "CheckMagicNumber h \<longleftrightarrow> h ! 0 = magicNumber"

definition Version :: "header \<Rightarrow> byte" where
  "Version h = h ! 1"

definition SetVersion :: "byte \<Rightarrow> header \<Rightarrow> header" where
  "SetVersion v h = h[1 := v]"

definition MessageType :: "header \<Rightarrow> byte" where
  "MessageType h = drop_bit 7 (h ! 2 AND 0x80)"

definition SetMessageType :: "byte \<Rightarrow> header \<Rightarrow> header" where
  "SetMessageType mt h = h[2 := h ! 2 OR push_bit 7 mt]"

definition IsHeartbeat :: "header \<Rightarrow> bool" where
  "IsHeartbeat h \<longleftrightarrow> h ! 2 AND 0x40 = 0x40"

definition SetHeartbeat :: "bool \<Rightarrow> header \<Rightarrow> header" where
  "SetHeartbeat hb h =
     (if hb then h[2 := h ! 2 OR 0x40] else h[2 := h ! 2 AND NOT 0x40])"

definition IsOneway :: "header \<Rightarrow> bool" where
  "IsOneway h \<longleftrightarrow> h ! 2 AND 0x20 = 0x20"

definition SetOneway :: "bool \<Rightarrow> header \<Rightarrow> header" where
  "SetOneway oneway h =
     (if oneway then h[2 := h ! 2 OR 0x20] else h[2 := h ! 2 AND NOT 0x20])"

definition CompressType :: "header \<Rightarrow> byte" where
  "CompressType h = drop_bit 2 (h ! 2 AND 0x1C)"

definition SetCompressType :: "byte \<Rightarrow> header \<Rightarrow> header" where
  "SetCompressType ct h = h[2 := (h ! 2 AND NOT 0x1C) OR (push_bit 2 ct AND 0x1C)]"

definition MessageStatusType :: "header \<Rightarrow> byte" where
  "MessageStatusType h = h ! 2 AND 0x03"

definition SetMessageStatusType :: "byte \<Rightarrow> header \<Rightarrow> header" where
  "SetMessageStatusType mt h = h[2 := (h ! 2 AND NOT 0x03) OR (mt AND 0x03)]"

definition SerializeType :: "header \<Rightarrow> byte" where
  "SerializeType h = drop_bit 4 (h ! 3 AND 0xF0)"

definition SetSerializeType :: "byte \<Rightarrow> header \<Rightarrow> header" where
  "SetSerializeType st h = h[3 := (h ! 3 AND NOT 0xF0) OR push_bit 4 st]"

definition Seq :: "header \<Rightarrow> u64" where
  "Seq h = be_get64 (drop 4 h)"

definition SetSeq :: "u64 \<Rightarrow> header \<Rightarrow> header" where
  "SetSeq seq h = take 4 h @ be_put64 seq @ drop 12 h"

text \<open>\<^verbatim>\<open>resetHeader\<close>: \<^verbatim>\<open>copy(h[1:], zeroHeader)\<close> clears every byte but the first.\<close>

definition resetHeader :: "header \<Rightarrow> header" where
  "resetHeader h = take 1 h @ replicate (length h - 1) 0"

section \<open>The fields as bit ranges\<close>

lemma and_single_bit: "k < 8 \<Longrightarrow> (x :: byte) AND push_bit k 1 = push_bit k 1 \<longleftrightarrow> bit x k"
proof
  assume k: "k < 8" and "x AND push_bit k 1 = push_bit k 1"
  then have "bit (x AND push_bit k 1) k = bit (push_bit k 1 :: byte) k" by simp
  with k show "bit x k" by (simp add: bit_simps)
next
  assume "k < 8" "bit x k"
  then show "x AND push_bit k 1 = push_bit k 1"
    by (intro bit_word_eqI) (auto simp: bit_simps)
qed

lemma IsHeartbeat_bit: "IsHeartbeat h \<longleftrightarrow> bit (h ! 2) 6"
  using and_single_bit [of 6 "h ! 2"] by (simp add: IsHeartbeat_def)

lemma IsOneway_bit: "IsOneway h \<longleftrightarrow> bit (h ! 2) 5"
  using and_single_bit [of 5 "h ! 2"] by (simp add: IsOneway_def)

lemma mask_shapes:
  "(0x80 :: byte) = push_bit 7 (mask 1)" "(0x40 :: byte) = push_bit 6 (mask 1)"
  "(0x20 :: byte) = push_bit 5 (mask 1)" "(0x1C :: byte) = push_bit 2 (mask 3)"
  "(0x03 :: byte) = push_bit 0 (mask 2)" "(0xF0 :: byte) = push_bit 4 (mask 4)"
  by (simp_all add: mask_eq_exp_minus_1)

lemma MessageType_field: "MessageType h = field_get 7 1 (h ! 2)"
  unfolding MessageType_def field_get_def mask_shapes
  by (rule bit_word_eqI) (auto simp: bit_simps)

lemma CompressType_field: "CompressType h = field_get 2 3 (h ! 2)"
  unfolding CompressType_def field_get_def mask_shapes
  by (rule bit_word_eqI) (auto simp: bit_simps)

lemma SetCompressType_field: "SetCompressType ct h = h[2 := field_set 2 3 ct (h ! 2)]"
  unfolding SetCompressType_def field_set_def mask_shapes
  by (rule arg_cong [where f = "list_update h 2"], rule bit_word_eqI) (auto simp: bit_simps)

lemma MessageStatusType_field: "MessageStatusType h = field_get 0 2 (h ! 2)"
  unfolding MessageStatusType_def field_get_def mask_shapes by simp

lemma SetMessageStatusType_field:
  "SetMessageStatusType mt h = h[2 := field_set 0 2 mt (h ! 2)]"
  unfolding SetMessageStatusType_def field_set_def mask_shapes by simp

lemma SerializeType_field: "SerializeType h = field_get 4 4 (h ! 3)"
  unfolding SerializeType_def field_get_def mask_shapes
  by (rule bit_word_eqI) (auto simp: bit_simps)

lemma SetSerializeType_field: "SetSerializeType st h = h[3 := field_set 4 4 st (h ! 3)]"
  unfolding SetSerializeType_def field_set_def mask_shapes
  by (rule arg_cong [where f = "list_update h 3"], rule bit_word_eqI) (auto simp: bit_simps)

lemma SetHeartbeat_field:
  "SetHeartbeat hb h = h[2 := field_set 6 1 (of_bool hb) (h ! 2)]"
  unfolding SetHeartbeat_def field_set_def mask_shapes
  by (cases hb) (auto intro!: arg_cong [where f = "list_update h 2"] bit_word_eqI simp: bit_simps)

lemma SetOneway_field:
  "SetOneway ow h = h[2 := field_set 5 1 (of_bool ow) (h ! 2)]"
  unfolding SetOneway_def field_set_def mask_shapes
  by (cases ow) (auto intro!: arg_cong [where f = "list_update h 2"] bit_word_eqI simp: bit_simps)

lemma bit_field_get: "bit (field_get p w x) n \<longleftrightarrow> n < w \<and> bit x (p + n)"
  by (auto simp: field_get_def bit_simps dest: byte_bit_ltD)

lemma bit_field_set:
  "bit (field_set p w v x) n \<longleftrightarrow>
     n < 8 \<and> (if p \<le> n \<and> n < p + w then bit v (n - p) else bit x n)"
  by (auto simp: field_set_def bit_simps dest: byte_bit_ltD)

lemma IsHeartbeat_field: "IsHeartbeat h \<longleftrightarrow> bit (field_get 6 1 (h ! 2)) 0"
  by (simp add: IsHeartbeat_bit bit_field_get)

lemma IsOneway_field: "IsOneway h \<longleftrightarrow> bit (field_get 5 1 (h ! 2)) 0"
  by (simp add: IsOneway_bit bit_field_get)


lemma SetMessageType_field:
  "SetMessageType mt h = h[2 := field_set 7 1 (mt OR drop_bit 7 (h ! 2)) (h ! 2)]"
  unfolding SetMessageType_def
  by (rule arg_cong [where f = "list_update h 2"], rule bit_word_eqI)
    (auto simp: bit_field_set bit_or_iff bit_push_bit_iff bit_drop_bit_eq less_Suc_eq_le
      dest: le_antisym)

lemmas getter_fields =
  CheckMagicNumber_def Version_def MessageType_field IsHeartbeat_field IsOneway_field
  CompressType_field MessageStatusType_field SerializeType_field Seq_def

lemmas setter_fields =
  SetVersion_def SetMessageType_field SetHeartbeat_field SetOneway_field
  SetCompressType_field SetMessageStatusType_field SetSerializeType_field

lemma hdr_wf_nth_drop4: "hdr_wf h \<Longrightarrow> length (drop 4 h) = 8"
  by (simp add: hdr_wf_def)

lemma nth_SetSeq: "hdr_wf h \<Longrightarrow> i < 4 \<Longrightarrow> SetSeq n h ! i = h ! i"
  by (simp add: SetSeq_def hdr_wf_def nth_append)

lemma drop_SetSeq: "hdr_wf h \<Longrightarrow> drop 4 (SetSeq n h) = be_put64 n"
  by (simp add: SetSeq_def hdr_wf_def)

section \<open>Every setter keeps the header's size\<close>

lemma hdr_wf_setters [simp]:
  "hdr_wf (SetVersion v h) = hdr_wf h" "hdr_wf (SetMessageType mt h) = hdr_wf h"
  "hdr_wf (SetHeartbeat hb h) = hdr_wf h" "hdr_wf (SetOneway ow h) = hdr_wf h"
  "hdr_wf (SetCompressType ct h) = hdr_wf h" "hdr_wf (SetMessageStatusType st h) = hdr_wf h"
  "hdr_wf (SetSerializeType zt h) = hdr_wf h"
  by (simp_all add: hdr_wf_def setter_fields)

lemma hdr_wf_SetSeq [simp]: "hdr_wf h \<Longrightarrow> hdr_wf (SetSeq n h)"
  by (simp add: hdr_wf_def SetSeq_def)

lemma hdr_wf_new_header [simp]: "hdr_wf new_header"
  by (simp add: hdr_wf_def new_header_def)

lemma CheckMagicNumber_new_header [simp]: "CheckMagicNumber new_header"
  by (simp add: CheckMagicNumber_def new_header_def)

lemma hdr_wf_resetHeader [simp]: "hdr_wf h \<Longrightarrow> hdr_wf (resetHeader h)"
  by (simp add: hdr_wf_def resetHeader_def)

section \<open>A setter leaves every other field alone\<close>

lemma SetVersion_others [hdr]:
  assumes "hdr_wf h"
  shows
    "CheckMagicNumber (SetVersion v h) = CheckMagicNumber h"
    "MessageType (SetVersion v h) = MessageType h"
    "IsHeartbeat (SetVersion v h) = IsHeartbeat h"
    "IsOneway (SetVersion v h) = IsOneway h"
    "CompressType (SetVersion v h) = CompressType h"
    "MessageStatusType (SetVersion v h) = MessageStatusType h"
    "SerializeType (SetVersion v h) = SerializeType h"
    "Seq (SetVersion v h) = Seq h"
  using assms by (simp_all add: hdr_wf_def getter_fields setter_fields field_get_set_other)

lemma SetMessageType_others [hdr]:
  assumes "hdr_wf h"
  shows
    "CheckMagicNumber (SetMessageType mt h) = CheckMagicNumber h"
    "Version (SetMessageType mt h) = Version h"
    "IsHeartbeat (SetMessageType mt h) = IsHeartbeat h"
    "IsOneway (SetMessageType mt h) = IsOneway h"
    "CompressType (SetMessageType mt h) = CompressType h"
    "MessageStatusType (SetMessageType mt h) = MessageStatusType h"
    "SerializeType (SetMessageType mt h) = SerializeType h"
    "Seq (SetMessageType mt h) = Seq h"
  using assms by (simp_all add: hdr_wf_def getter_fields setter_fields field_get_set_other)

lemma SetHeartbeat_others [hdr]:
  assumes "hdr_wf h"
  shows
    "CheckMagicNumber (SetHeartbeat hb h) = CheckMagicNumber h"
    "Version (SetHeartbeat hb h) = Version h"
    "MessageType (SetHeartbeat hb h) = MessageType h"
    "IsOneway (SetHeartbeat hb h) = IsOneway h"
    "CompressType (SetHeartbeat hb h) = CompressType h"
    "MessageStatusType (SetHeartbeat hb h) = MessageStatusType h"
    "SerializeType (SetHeartbeat hb h) = SerializeType h"
    "Seq (SetHeartbeat hb h) = Seq h"
  using assms by (simp_all add: hdr_wf_def getter_fields setter_fields field_get_set_other)

lemma SetOneway_others [hdr]:
  assumes "hdr_wf h"
  shows
    "CheckMagicNumber (SetOneway ow h) = CheckMagicNumber h"
    "Version (SetOneway ow h) = Version h"
    "MessageType (SetOneway ow h) = MessageType h"
    "IsHeartbeat (SetOneway ow h) = IsHeartbeat h"
    "CompressType (SetOneway ow h) = CompressType h"
    "MessageStatusType (SetOneway ow h) = MessageStatusType h"
    "SerializeType (SetOneway ow h) = SerializeType h"
    "Seq (SetOneway ow h) = Seq h"
  using assms by (simp_all add: hdr_wf_def getter_fields setter_fields field_get_set_other)

lemma SetCompressType_others [hdr]:
  assumes "hdr_wf h"
  shows
    "CheckMagicNumber (SetCompressType ct h) = CheckMagicNumber h"
    "Version (SetCompressType ct h) = Version h"
    "MessageType (SetCompressType ct h) = MessageType h"
    "IsHeartbeat (SetCompressType ct h) = IsHeartbeat h"
    "IsOneway (SetCompressType ct h) = IsOneway h"
    "MessageStatusType (SetCompressType ct h) = MessageStatusType h"
    "SerializeType (SetCompressType ct h) = SerializeType h"
    "Seq (SetCompressType ct h) = Seq h"
  using assms by (simp_all add: hdr_wf_def getter_fields setter_fields field_get_set_other)

lemma SetMessageStatusType_others [hdr]:
  assumes "hdr_wf h"
  shows
    "CheckMagicNumber (SetMessageStatusType st h) = CheckMagicNumber h"
    "Version (SetMessageStatusType st h) = Version h"
    "MessageType (SetMessageStatusType st h) = MessageType h"
    "IsHeartbeat (SetMessageStatusType st h) = IsHeartbeat h"
    "IsOneway (SetMessageStatusType st h) = IsOneway h"
    "CompressType (SetMessageStatusType st h) = CompressType h"
    "SerializeType (SetMessageStatusType st h) = SerializeType h"
    "Seq (SetMessageStatusType st h) = Seq h"
  using assms by (simp_all add: hdr_wf_def getter_fields setter_fields field_get_set_other)

lemma SetSerializeType_others [hdr]:
  assumes "hdr_wf h"
  shows
    "CheckMagicNumber (SetSerializeType zt h) = CheckMagicNumber h"
    "Version (SetSerializeType zt h) = Version h"
    "MessageType (SetSerializeType zt h) = MessageType h"
    "IsHeartbeat (SetSerializeType zt h) = IsHeartbeat h"
    "IsOneway (SetSerializeType zt h) = IsOneway h"
    "CompressType (SetSerializeType zt h) = CompressType h"
    "MessageStatusType (SetSerializeType zt h) = MessageStatusType h"
    "Seq (SetSerializeType zt h) = Seq h"
  using assms by (simp_all add: hdr_wf_def getter_fields setter_fields field_get_set_other)

lemma SetSeq_others [hdr]:
  assumes "hdr_wf h"
  shows
    "CheckMagicNumber (SetSeq n h) = CheckMagicNumber h"
    "Version (SetSeq n h) = Version h"
    "MessageType (SetSeq n h) = MessageType h"
    "IsHeartbeat (SetSeq n h) = IsHeartbeat h"
    "IsOneway (SetSeq n h) = IsOneway h"
    "CompressType (SetSeq n h) = CompressType h"
    "MessageStatusType (SetSeq n h) = MessageStatusType h"
    "SerializeType (SetSeq n h) = SerializeType h"
  using assms by (simp_all add: nth_SetSeq MessageType_def CompressType_def MessageStatusType_def
      SerializeType_def Version_def IsHeartbeat_def IsOneway_def CheckMagicNumber_def)

section \<open>The contract of a header field\<close>

text \<open>
  A field promises: a read after a write gives the written value, cut to the field's width
  (\<open>norm\<close>); writing back what was read changes nothing; the last write wins.
\<close>

locale header_field =
  fixes get :: "header \<Rightarrow> 'v" and put :: "'v \<Rightarrow> header \<Rightarrow> header" and norm :: "'v \<Rightarrow> 'v"
  assumes put_wf: "hdr_wf h \<Longrightarrow> hdr_wf (put v h)"
    and get_put: "hdr_wf h \<Longrightarrow> get (put v h) = norm v"
    and put_get: "hdr_wf h \<Longrightarrow> put (get h) h = h"
    and put_put: "hdr_wf h \<Longrightarrow> put v (put u h) = put v h"
begin

lemma norm_get: "hdr_wf h \<Longrightarrow> norm (get h) = get h"
  using get_put [of h "get h"] by (simp add: put_get)

lemma norm_norm: "norm (norm v) = norm v"
proof -
  have "norm (get (put v new_header)) = get (put v new_header)"
    by (rule norm_get) (simp add: put_wf)
  then show ?thesis by (simp add: get_put)
qed

text \<open>Only the part of the value that fits the field reaches the header.\<close>

lemma put_norm: "hdr_wf h \<Longrightarrow> put (norm v) h = put v h"
  by (metis get_put put_get put_put put_wf)

lemma put_inject: "hdr_wf h \<Longrightarrow> put v h = put u h \<longleftrightarrow> norm v = norm u"
  by (metis get_put put_norm)

end

lemma drop4_split: "hdr_wf h \<Longrightarrow> take 4 h @ drop 4 h = h"
  by simp

lemma be_put64_get64: "length b = 8 \<Longrightarrow> be_put64 (be_get64 b) = b"
proof (rule nth_equalityI)
  fix i assume b: "length b = 8" and "i < length (be_put64 (be_get64 b))"
  then have i: "i < 8" by simp
  show "be_put64 (be_get64 b) ! i = b ! i"
  proof (rule bit_word_eqI)
    fix r assume "r < LENGTH(8)"
    then have r: "r < 8" by simp
    have "i = 0 \<or> i = 1 \<or> i = 2 \<or> i = 3 \<or> i = 4 \<or> i = 5 \<or> i = 6 \<or> i = 7" using i by arith
    then have "bit (be_put64 (be_get64 b) ! i) r = bit (be_get64 b) (8 * (7 - i) + r)"
      using r by (elim disjE) (simp_all add: be_put64_def bit_simps)
    then show "bit (be_put64 (be_get64 b) ! i) r = bit (b ! i) r"
      using bit_be_get64 [of "7 - i" r b] i r by simp
  qed
qed simp

interpretation version_field: header_field Version SetVersion "\<lambda>v. v"
  by unfold_locales (simp_all add: hdr_wf_def Version_def SetVersion_def)

interpretation compress_field: header_field CompressType SetCompressType "\<lambda>v. v AND mask 3"
  by unfold_locales (simp_all add: hdr_wf_def CompressType_field SetCompressType_field
      field_get_set_same field_set_get field_set_set)

interpretation status_field:
  header_field MessageStatusType SetMessageStatusType "\<lambda>v. v AND mask 2"
  by unfold_locales (simp_all add: hdr_wf_def MessageStatusType_field SetMessageStatusType_field
      field_get_set_same field_set_get field_set_set)

interpretation serialize_field: header_field SerializeType SetSerializeType "\<lambda>v. v AND mask 4"
  by unfold_locales (simp_all add: hdr_wf_def SerializeType_field SetSerializeType_field
      field_get_set_same field_set_get field_set_set)

lemma of_bool_bit_field: "of_bool (bit (field_get p 1 x) 0) = field_get p 1 x"
  by (rule bit_word_eqI) (auto simp: bit_simps bit_field_get)

lemma SetHeartbeat_IsHeartbeat: "SetHeartbeat (IsHeartbeat h) h = h"
  unfolding IsHeartbeat_field SetHeartbeat_field of_bool_bit_field by (subst field_set_get) simp_all

interpretation heartbeat_field: header_field IsHeartbeat SetHeartbeat "\<lambda>v. v"
proof
  fix h v u assume h: "hdr_wf h"
  show "hdr_wf (SetHeartbeat v h)" using h by simp
  show "IsHeartbeat (SetHeartbeat v h) = v" using h
    by (simp add: hdr_wf_def IsHeartbeat_field SetHeartbeat_field field_get_set_same bit_simps)
  show "SetHeartbeat (IsHeartbeat h) h = h" by (rule SetHeartbeat_IsHeartbeat)
  show "SetHeartbeat v (SetHeartbeat u h) = SetHeartbeat v h" using h
    by (simp add: hdr_wf_def SetHeartbeat_field field_set_set)
qed

lemma SetOneway_IsOneway: "SetOneway (IsOneway h) h = h"
  unfolding IsOneway_field SetOneway_field of_bool_bit_field by (subst field_set_get) simp_all

interpretation oneway_field: header_field IsOneway SetOneway "\<lambda>v. v"
proof
  fix h v u assume h: "hdr_wf h"
  show "hdr_wf (SetOneway v h)" using h by simp
  show "IsOneway (SetOneway v h) = v" using h
    by (simp add: hdr_wf_def IsOneway_field SetOneway_field field_get_set_same bit_simps)
  show "SetOneway (IsOneway h) h = h" by (rule SetOneway_IsOneway)
  show "SetOneway v (SetOneway u h) = SetOneway v h" using h
    by (simp add: hdr_wf_def SetOneway_field field_set_set)
qed

interpretation seq_field: header_field Seq SetSeq "\<lambda>v. v"
proof
  fix h v u assume h: "hdr_wf h"
  show "hdr_wf (SetSeq v h)" using h by simp
  show "Seq (SetSeq v h) = v" using h by (simp add: Seq_def drop_SetSeq)
  show "SetSeq (Seq h) h = h"
    using h by (simp add: SetSeq_def Seq_def be_put64_get64 hdr_wf_def)
  show "SetSeq v (SetSeq u h) = SetSeq v h" using h by (simp add: SetSeq_def hdr_wf_def)
qed

lemmas hdr_same [hdr] =
  version_field.get_put compress_field.get_put status_field.get_put serialize_field.get_put
  heartbeat_field.get_put oneway_field.get_put seq_field.get_put

lemma MessageType_SetMessageType [hdr]:
  "hdr_wf h \<Longrightarrow> MessageType (SetMessageType mt h) = MessageType h OR (mt AND 1)"
  unfolding MessageType_def SetMessageType_def mask_shapes hdr_wf_def
  by (simp, rule bit_word_eqI) (auto simp: bit_simps)

section \<open>Properties\<close>

text \<open>The header fields do not overlap: after all setters have run, each getter returns its own
  value cut to the field's width (three bits of compression, two of status, four of serialization),
  and the magic number and the message type are untouched.\<close>

theorem header_fields_read_back:
  assumes "hdr_wf h"
    and h': "h' = SetSeq n (SetSerializeType zt (SetMessageStatusType st (SetCompressType ct
      (SetOneway ow (SetHeartbeat hb (SetVersion v h))))))"
  shows "hdr_wf h' \<and> Seq h' = n \<and> SerializeType h' = zt AND 15 \<and> MessageStatusType h' = st AND 3 \<and>
    CompressType h' = ct AND 7 \<and> IsOneway h' = ow \<and> IsHeartbeat h' = hb \<and> Version h' = v \<and>
    MessageType h' = MessageType h \<and> CheckMagicNumber h' = CheckMagicNumber h"
  using assms(1) unfolding h' by (simp add: hdr mask_eq_exp_minus_1)

theorem header_fields_read_back_witness:
  "Seq (SetSeq 5 (SetSerializeType 3 (SetMessageStatusType 1 (SetCompressType 9
      (SetOneway True (SetHeartbeat False (SetVersion 2 new_header))))))) = 5 \<and>
   CompressType (SetSeq 5 (SetSerializeType 3 (SetMessageStatusType 1 (SetCompressType 9
      (SetOneway True (SetHeartbeat False (SetVersion 2 new_header))))))) = 1"
  using header_fields_read_back [OF hdr_wf_new_header refl, of 5 3 1 9 True False 2] by simp

text \<open>\<open>SetMessageType\<close> can only turn a request into a response: on a header that already is a
  response, \<open>SetMessageType\<close> with \<open>Request\<close> changes nothing.\<close>

theorem SetMessageType_cannot_clear:
  assumes "hdr_wf h" "MessageType h = Response"
  shows "MessageType (SetMessageType Request h) = Response \<and> SetMessageType Request h = h"
  using assms by (simp add: MessageType_SetMessageType SetMessageType_def)

theorem SetMessageType_cannot_clear_witness:
  "MessageType (SetMessageType Request (SetMessageType Response new_header)) = Response"
proof -
  have "MessageType (SetMessageType Response new_header) = Response" by code_simp
  then show ?thesis
    using SetMessageType_cannot_clear [of "SetMessageType Response new_header"] by simp
qed

end
