(* ===== verification/Codec.thy ===== *)
theory Codec
  imports Header
begin

text \<open>
  The payload codecs of \<^verbatim>\<open>codec/codec.go\<close> and the table \<^verbatim>\<open>Codecs\<close> of \<^verbatim>\<open>share/share.go\<close>. The
  serialization libraries (\<^verbatim>\<open>encoding/json\<close>, \<^verbatim>\<open>gogo/protobuf\<close>, \<^verbatim>\<open>golang/protobuf\<close>, \<^verbatim>\<open>msgpack\<close>,
  \<^verbatim>\<open>thrift\<close>) and the reflection on application objects are the parameter \<open>codec_libs\<close>. A codec
  may panic: \<open>None\<close>.
\<close>

section \<open>Values\<close>

text \<open>
  An \<^verbatim>\<open>interface{}\<close> value: nil, a \<^verbatim>\<open>[]byte\<close>, a \<^verbatim>\<open>*[]byte\<close> with the slice it points to, or an
  application object (a struct or a pointer to one, with its contents). \<open>ByteCodec_Decode\<close> stores the bytes that the
  slice has at that time; what sharing the array means for them later is in \<open>RawReply\<close>.
\<close>

datatype 'x goval = GoNil | GoBytes bytes | GoBytesPtr bytes | GoObj 'x

text \<open>
  The libraries. A protobuf operation gives \<open>None\<close> when the object does not implement the
  interface of the type assertion, so does a thrift operation; \<open>set_bytes\<close> gives \<open>None\<close>
  where \<^verbatim>\<open>reflect.Value.SetBytes\<close> panics.
\<close>

record 'x codec_libs =
  json_Marshal :: "'x goval \<Rightarrow> bytes \<times> goerr option"
  json_Unmarshal :: "bytes \<Rightarrow> 'x goval \<Rightarrow> goerr option \<times> 'x goval"
  gogo_Marshal :: "'x \<Rightarrow> (bytes \<times> goerr option) option"
  gogo_Unmarshal :: "bytes \<Rightarrow> 'x \<Rightarrow> (goerr option \<times> 'x) option"
  pb_Marshal :: "'x \<Rightarrow> (bytes \<times> goerr option) option"
  pb_Unmarshal :: "bytes \<Rightarrow> 'x \<Rightarrow> (goerr option \<times> 'x) option"
  msgpack_Encode :: "'x goval \<Rightarrow> bytes \<times> goerr option"
  msgpack_Decode :: "bytes \<Rightarrow> 'x goval \<Rightarrow> goerr option \<times> 'x goval"
  thrift_Write :: "'x \<Rightarrow> (bytes \<times> goerr option) option"
  thrift_Read :: "bytes \<Rightarrow> 'x \<Rightarrow> (goerr option \<times> 'x) option"
  set_bytes :: "bytes \<Rightarrow> 'x \<Rightarrow> 'x option"
  type_name :: "'x goval \<Rightarrow> string"

section \<open>The codecs\<close>

type_synonym 'x encoder = "'x goval \<Rightarrow> (bytes \<times> goerr option) option"
type_synonym 'x decoder = "bytes \<Rightarrow> 'x goval \<Rightarrow> (goerr option \<times> 'x goval) option"

definition ByteCodec_Encode :: "'x codec_libs \<Rightarrow> 'x encoder" where
  "ByteCodec_Encode libs i = (case i of
      GoBytes data \<Rightarrow> Some (data, None)
    | GoBytesPtr data \<Rightarrow> Some (data, None)
    | _ \<Rightarrow> Some ([], Some (ErrText (type_name libs i @ '' is not a []byte''))))"

definition ByteCodec_Decode :: "'x codec_libs \<Rightarrow> 'x decoder" where
  "ByteCodec_Decode libs data i = (case i of
      GoBytesPtr _ \<Rightarrow> Some (None, GoBytesPtr data)
    | GoObj x \<Rightarrow> map_option (\<lambda>x'. (None, GoObj x')) (set_bytes libs data x)
    | _ \<Rightarrow> None)"

definition JSONCodec_Encode :: "'x codec_libs \<Rightarrow> 'x encoder" where
  "JSONCodec_Encode libs i = Some (json_Marshal libs i)"

definition JSONCodec_Decode :: "'x codec_libs \<Rightarrow> 'x decoder" where
  "JSONCodec_Decode libs data i = Some (json_Unmarshal libs data i)"

definition PBCodec_Encode :: "'x codec_libs \<Rightarrow> 'x encoder" where
  "PBCodec_Encode libs i =
    (let no = Some ([], Some (ErrText (type_name libs i @ '' is not a proto.Marshaler''))) in
     case i of
       GoObj x \<Rightarrow> (case gogo_Marshal libs x of
           Some r \<Rightarrow> Some r
         | None \<Rightarrow> (case pb_Marshal libs x of Some r \<Rightarrow> Some r | None \<Rightarrow> no))
     | _ \<Rightarrow> no)"

definition PBCodec_Decode :: "'x codec_libs \<Rightarrow> 'x decoder" where
  "PBCodec_Decode libs data i =
    (let no = Some (Some (ErrText (type_name libs i @ '' is not a proto.Unmarshaler'')), i) in
     case i of
       GoObj x \<Rightarrow> (case gogo_Unmarshal libs data x of
           Some (e, x') \<Rightarrow> Some (e, GoObj x')
         | None \<Rightarrow> (case pb_Unmarshal libs data x of
             Some (e, x') \<Rightarrow> Some (e, GoObj x')
           | None \<Rightarrow> no))
     | _ \<Rightarrow> no)"

definition MsgpackCodec_Encode :: "'x codec_libs \<Rightarrow> 'x encoder" where
  "MsgpackCodec_Encode libs i = Some (msgpack_Encode libs i)"

definition MsgpackCodec_Decode :: "'x codec_libs \<Rightarrow> 'x decoder" where
  "MsgpackCodec_Decode libs data i = Some (msgpack_Decode libs data i)"

definition ThriftCodec_Encode :: "'x codec_libs \<Rightarrow> 'x encoder" where
  "ThriftCodec_Encode libs i = (case i of GoObj x \<Rightarrow> thrift_Write libs x | _ \<Rightarrow> None)"

definition ThriftCodec_Decode :: "'x codec_libs \<Rightarrow> 'x decoder" where
  "ThriftCodec_Decode libs data i = (case i of
      GoObj x \<Rightarrow> map_option (\<lambda>(e, x'). (e, GoObj x')) (thrift_Read libs data x)
    | _ \<Rightarrow> None)"

text \<open>The interface \<^verbatim>\<open>Codec\<close>; a registered codec brings its own functions.\<close>

datatype 'x codec = ByteCodec | JSONCodec | PBCodec | MsgpackCodec | ThriftCodec
  | CustomCodec "'x encoder" "'x decoder"

definition codec_Encode :: "'x codec_libs \<Rightarrow> 'x codec \<Rightarrow> 'x encoder" where
  "codec_Encode libs c = (case c of
      ByteCodec \<Rightarrow> ByteCodec_Encode libs
    | JSONCodec \<Rightarrow> JSONCodec_Encode libs
    | PBCodec \<Rightarrow> PBCodec_Encode libs
    | MsgpackCodec \<Rightarrow> MsgpackCodec_Encode libs
    | ThriftCodec \<Rightarrow> ThriftCodec_Encode libs
    | CustomCodec enc dec \<Rightarrow> enc)"

definition codec_Decode :: "'x codec_libs \<Rightarrow> 'x codec \<Rightarrow> 'x decoder" where
  "codec_Decode libs c = (case c of
      ByteCodec \<Rightarrow> ByteCodec_Decode libs
    | JSONCodec \<Rightarrow> JSONCodec_Decode libs
    | PBCodec \<Rightarrow> PBCodec_Decode libs
    | MsgpackCodec \<Rightarrow> MsgpackCodec_Decode libs
    | ThriftCodec \<Rightarrow> ThriftCodec_Decode libs
    | CustomCodec enc dec \<Rightarrow> dec)"

section \<open>The table\<close>

type_synonym 'x codecs = "byte \<Rightarrow> 'x codec option"

definition Codecs :: "'x codecs" where
  "Codecs = [SerializeNone \<mapsto> ByteCodec, JSON \<mapsto> JSONCodec, ProtoBuffer \<mapsto> PBCodec,
     MsgPack \<mapsto> MsgpackCodec, Thrift \<mapsto> ThriftCodec]"

definition RegisterCodec :: "byte \<Rightarrow> 'x codec \<Rightarrow> 'x codecs \<Rightarrow> 'x codecs" where
  "RegisterCodec t c codecs = codecs(t \<mapsto> c)"

lemma Codecs_lookup [simp]:
  "Codecs SerializeNone = Some ByteCodec" "Codecs JSON = Some JSONCodec"
  "Codecs ProtoBuffer = Some PBCodec" "Codecs MsgPack = Some MsgpackCodec"
  "Codecs Thrift = Some ThriftCodec"
  by (simp_all add: Codecs_def)

lemma Codecs_dom: "Codecs t \<noteq> None \<longleftrightarrow> t \<le> 4"
proof -
  have "t \<le> 4 \<longleftrightarrow> t = 0 \<or> t = 1 \<or> t = 2 \<or> t = 3 \<or> t = 4" for t :: byte
  proof
    assume "t \<le> 4"
    then have "unat t \<le> 4" by (simp add: word_le_nat_alt)
    then have "unat t = 0 \<or> unat t = 1 \<or> unat t = 2 \<or> unat t = 3 \<or> unat t = 4" by arith
    then show "t = 0 \<or> t = 1 \<or> t = 2 \<or> t = 3 \<or> t = 4" by (auto simp: word_unat_eq_iff)
  qed auto
  then show ?thesis by (auto simp: Codecs_def)
qed

section \<open>The interface \<open>Codec\<close>\<close>

text \<open>
  What a caller relies on: a value that encodes without an error is read back by the decoder into
  a suitable target. \<open>carries v t r\<close> says that the target \<open>t\<close> is suitable for \<open>v\<close> and is \<open>r\<close> afterwards.
\<close>

locale codec_contract =
  fixes enc :: "'x encoder" and dec :: "'x decoder"
    and carries :: "'x goval \<Rightarrow> 'x goval \<Rightarrow> 'x goval \<Rightarrow> bool"
  assumes dec_enc: "enc v = Some (d, None) \<Longrightarrow> carries v t r \<Longrightarrow> dec d t = Some (None, r)"
begin

lemma carries_unique:
  "enc v = Some (d, None) \<Longrightarrow> carries v t r \<Longrightarrow> carries v t r' \<Longrightarrow> r = r'"
  using dec_enc [of v d t r] dec_enc [of v d t r'] by simp

end

definition byte_carries :: "'x goval \<Rightarrow> 'x goval \<Rightarrow> 'x goval \<Rightarrow> bool" where
  "byte_carries v t r \<longleftrightarrow> (case t of GoBytesPtr _ \<Rightarrow> True | _ \<Rightarrow> False) \<and>
     (case v of GoBytes b \<Rightarrow> r = GoBytesPtr b | GoBytesPtr b \<Rightarrow> r = GoBytesPtr b | _ \<Rightarrow> False)"

interpretation byte_codec: codec_contract "ByteCodec_Encode libs" "ByteCodec_Decode libs" byte_carries
  by unfold_locales
    (auto simp: byte_carries_def ByteCodec_Encode_def ByteCodec_Decode_def split: goval.splits)

text \<open>
  What the libraries document: unmarshalling what was marshalled into a target of the right type
  restores the value. \<open>objs x y z\<close> says that reading \<open>x\<close> into the object \<open>y\<close> makes it \<open>z\<close>.
\<close>

definition libs_documented :: "'x codec_libs \<Rightarrow> ('x \<Rightarrow> 'x \<Rightarrow> 'x \<Rightarrow> bool) \<Rightarrow> bool" where
  "libs_documented libs objs \<longleftrightarrow>
     (\<forall>x y z d. objs x y z \<longrightarrow>
        (json_Marshal libs (GoObj x) = (d, None) \<longrightarrow> json_Unmarshal libs d (GoObj y) = (None, GoObj z)) \<and>
        (msgpack_Encode libs (GoObj x) = (d, None) \<longrightarrow> msgpack_Decode libs d (GoObj y) = (None, GoObj z)) \<and>
        (gogo_Marshal libs x = Some (d, None) \<longrightarrow> gogo_Unmarshal libs d y = Some (None, z)) \<and>
        (gogo_Marshal libs x = None \<longrightarrow> gogo_Unmarshal libs d y = None) \<and>
        (pb_Marshal libs x = Some (d, None) \<longrightarrow> pb_Unmarshal libs d y = Some (None, z)) \<and>
        (thrift_Write libs x = Some (d, None) \<longrightarrow> thrift_Read libs d y = Some (None, z)))"

definition obj_carries :: "('x \<Rightarrow> 'x \<Rightarrow> 'x \<Rightarrow> bool) \<Rightarrow> 'x goval \<Rightarrow> 'x goval \<Rightarrow> 'x goval \<Rightarrow> bool" where
  "obj_carries objs v t r \<longleftrightarrow> (case (v, t, r) of
      (GoObj x, GoObj y, GoObj z) \<Rightarrow> objs x y z
    | _ \<Rightarrow> False)"

lemma obj_carriesE:
  assumes "obj_carries objs v t r"
  obtains x y z where "v = GoObj x" "t = GoObj y" "r = GoObj z" "objs x y z"
  using assms by (auto simp: obj_carries_def split: goval.splits)

definition library_codec :: "'x codec \<Rightarrow> bool" where
  "library_codec c \<longleftrightarrow> c = JSONCodec \<or> c = PBCodec \<or> c = MsgpackCodec \<or> c = ThriftCodec"

lemma library_codec_contract:
  assumes "libs_documented libs objs" "library_codec c"
  shows "codec_contract (codec_Encode libs c) (codec_Decode libs c) (obj_carries objs)"
proof
  fix v d t r
  assume enc: "codec_Encode libs c v = Some (d, None)" and "obj_carries objs v t r"
  then obtain x y z where vt: "v = GoObj x" "t = GoObj y" "r = GoObj z" and o: "objs x y z"
    by (elim obj_carriesE)
  note doc = assms(1) [unfolded libs_documented_def, rule_format, OF o]
  from assms(2) enc show "codec_Decode libs c d t = Some (None, r)"
    unfolding library_codec_def vt
    by (elim disjE)
      (auto simp: codec_Encode_def codec_Decode_def JSONCodec_Encode_def JSONCodec_Decode_def
        MsgpackCodec_Encode_def MsgpackCodec_Decode_def ThriftCodec_Encode_def ThriftCodec_Decode_def
        PBCodec_Encode_def PBCodec_Decode_def doc split: option.splits)
qed

text \<open>A codec of the default table reads back what it wrote.\<close>

definition codec_carries :: "('x \<Rightarrow> 'x \<Rightarrow> 'x \<Rightarrow> bool) \<Rightarrow> 'x codec \<Rightarrow> 'x goval \<Rightarrow> 'x goval \<Rightarrow> 'x goval \<Rightarrow> bool" where
  "codec_carries objs c v t r \<longleftrightarrow>
     (if c = ByteCodec then byte_carries v t r else library_codec c \<and> obj_carries objs v t r)"

lemma codec_contract_default:
  assumes "libs_documented libs objs"
  shows "codec_contract (codec_Encode libs c) (codec_Decode libs c) (codec_carries objs c)"
proof (cases "c = ByteCodec")
  case True
  then show ?thesis using byte_codec.codec_contract_axioms [of libs]
    by (simp add: codec_contract_def codec_Encode_def codec_Decode_def codec_carries_def)
next
  case False
  then show ?thesis using library_codec_contract [OF assms, of c]
    by (auto simp: codec_contract_def codec_carries_def)
qed

section \<open>Panics\<close>

lemma codec_Decode_panic_iff:
  assumes "Codecs t = Some c"
  shows "codec_Decode libs c d i = None \<longleftrightarrow>
    (t = SerializeNone \<and> (case i of GoBytesPtr _ \<Rightarrow> False | GoObj x \<Rightarrow> set_bytes libs d x = None | _ \<Rightarrow> True)) \<or>
    (t = Thrift \<and> (case i of GoObj x \<Rightarrow> thrift_Read libs d x = None | _ \<Rightarrow> True))"
  using assms
  by (auto simp: Codecs_def codec_Decode_def ByteCodec_Decode_def JSONCodec_Decode_def PBCodec_Decode_def
      MsgpackCodec_Decode_def ThriftCodec_Decode_def Let_def split: if_splits goval.splits option.splits)

end
