(* ===== verification/Strconv.thy ===== *)
theory Strconv
  imports Prelude
begin

text \<open>
  What the code uses of \<^verbatim>\<open>strconv\<close> and \<^verbatim>\<open>strings\<close>: unsigned numbers in a base, signed decimal
  numbers (\<^verbatim>\<open>Atoi\<close>), booleans, lower case and prefixes. Strings are byte strings; \<^verbatim>\<open>ToLower\<close> is
  the ASCII mapping (a string with bytes from 128 on keeps those bytes).
\<close>

section \<open>Unsigned numbers\<close>

definition digit_char :: "nat \<Rightarrow> char" where
  "digit_char d = char_of (if d < 10 then 48 + d else 87 + d)"

definition digit_val :: "char \<Rightarrow> nat option" where
  "digit_val c = (let n = (of_char c :: nat) in
     if 48 \<le> n \<and> n \<le> 57 then Some (n - 48)
     else if 97 \<le> n \<and> n \<le> 122 then Some (n - 87)
     else if 65 \<le> n \<and> n \<le> 90 then Some (n - 55)
     else None)"

fun format_nat :: "nat \<Rightarrow> nat \<Rightarrow> string" where
  "format_nat base n =
     (if n < base \<or> base < 2 then [digit_char n]
      else format_nat base (n div base) @ [digit_char (n mod base)])"

declare format_nat.simps [simp del]

definition FormatUint :: "u64 \<Rightarrow> nat \<Rightarrow> string" where
  "FormatUint x base = format_nat base (unat x)"

definition ErrSyntax :: goerr where "ErrSyntax = ErrText ''invalid syntax''"
definition ErrRange :: goerr where "ErrRange = ErrText ''value out of range''"

fun parse_digits :: "nat \<Rightarrow> nat \<Rightarrow> nat \<Rightarrow> string \<Rightarrow> goerr + nat" where
  "parse_digits base maxVal n [] = Inr n"
| "parse_digits base maxVal n (c # cs) = (case digit_val c of
      None \<Rightarrow> Inl ErrSyntax
    | Some d \<Rightarrow> if base \<le> d then Inl ErrSyntax
        else if maxVal < n * base + d then Inl ErrRange
        else parse_digits base maxVal (n * base + d) cs)"

text \<open>\<^verbatim>\<open>strconv.ParseUint(s, base, 64)\<close> for an explicit base.\<close>

definition ParseUint :: "string \<Rightarrow> nat \<Rightarrow> goerr + u64" where
  "ParseUint s base =
     (if s = [] then Inl ErrSyntax
      else case parse_digits base (2 ^ 64 - 1) 0 s of
         Inl e \<Rightarrow> Inl e | Inr n \<Rightarrow> Inr (word_of_nat n))"

lemma digit_val_char [simp]: "d < 36 \<Longrightarrow> digit_val (digit_char d) = Some d"
  by (simp add: digit_val_def digit_char_def Let_def)

lemma parse_digits_append:
  "parse_digits base maxVal n (xs @ ys) = (case parse_digits base maxVal n xs of
     Inl e \<Rightarrow> Inl e | Inr k \<Rightarrow> parse_digits base maxVal k ys)"
  by (induction xs arbitrary: n) (auto split: option.splits)

lemma parse_digits_format:
  assumes "2 \<le> base" "base \<le> 36" "n \<le> maxVal"
  shows "parse_digits base maxVal 0 (format_nat base n) = Inr n"
  using assms
proof (induction base n rule: format_nat.induct)
  case (1 base n)
  show ?case
  proof (cases "n < base")
    case True
    with 1 show ?thesis by (simp add: format_nat.simps [of base n])
  next
    case False
    have "n div base \<le> n" by simp
    with 1 have "n div base \<le> maxVal" by linarith
    with 1 False have ih: "parse_digits base maxVal 0 (format_nat base (n div base)) = Inr (n div base)"
      by simp
    have "n mod base < 36" using mod_less_divisor [of base n] 1(2,3) by linarith
    with ih False 1 show ?thesis
      by (simp add: format_nat.simps [of base n] parse_digits_append not_le mod_less_divisor)
  qed
qed

lemma format_nat_not_Nil [simp]: "format_nat base n \<noteq> []"
  by (subst format_nat.simps) simp

lemma ParseUint_FormatUint:
  assumes "2 \<le> base" "base \<le> 36"
  shows "ParseUint (FormatUint x base) base = Inr x"
proof -
  have "unat x \<le> 2 ^ 64 - 1" using unsigned_less [of x, where 'a = nat] by simp
  then show ?thesis
    using parse_digits_format [OF assms, of "unat x" "2 ^ 64 - 1"]
    by (simp add: ParseUint_def FormatUint_def)
qed

section \<open>Signed decimals and booleans\<close>

text \<open>\<^verbatim>\<open>strconv.Atoi\<close> on a 64-bit platform.\<close>

definition Atoi :: "string \<Rightarrow> goerr + int" where
  "Atoi s = (let
      neg = (case s of c # _ \<Rightarrow> c = CHR ''-'' | [] \<Rightarrow> False);
      s' = (case s of c # cs \<Rightarrow> (if c = CHR ''-'' \<or> c = CHR ''+'' then cs else s) | [] \<Rightarrow> []) in
     if s' = [] then Inl ErrSyntax
     else case parse_digits 10 (2 ^ 64 - 1) 0 s' of
         Inl e \<Rightarrow> Inl e
       | Inr n \<Rightarrow> if \<not> neg \<and> 2 ^ 63 \<le> n then Inl ErrRange
           else if neg \<and> 2 ^ 63 < n then Inl ErrRange
           else Inr (if neg then - int n else int n))"

definition FormatBool :: "bool \<Rightarrow> string" where
  "FormatBool b = (if b then ''true'' else ''false'')"

definition ParseBool :: "string \<Rightarrow> goerr + bool" where
  "ParseBool s =
     (if s \<in> set [''1'', ''t'', ''T'', ''true'', ''TRUE'', ''True''] then Inr True
      else if s \<in> set [''0'', ''f'', ''F'', ''false'', ''FALSE'', ''False''] then Inr False
      else Inl ErrSyntax)"

lemma ParseBool_FormatBool [simp]: "ParseBool (FormatBool b) = Inr b"
  by (simp add: ParseBool_def FormatBool_def)

section \<open>Lower case and prefixes\<close>

definition lower_char :: "char \<Rightarrow> char" where
  "lower_char c = (let n = (of_char c :: nat) in if 65 \<le> n \<and> n \<le> 90 then char_of (n + 32) else c)"

definition ToLower :: "string \<Rightarrow> string" where
  "ToLower s = map lower_char s"

definition HasPrefix :: "string \<Rightarrow> string \<Rightarrow> bool" where
  "HasPrefix s p \<longleftrightarrow> take (length p) s = p"

definition TrimPrefix :: "string \<Rightarrow> string \<Rightarrow> string" where
  "TrimPrefix s p = (if HasPrefix s p then drop (length p) s else s)"

lemma lower_char_idem [simp]: "lower_char (lower_char c) = lower_char c"
  by (auto simp: lower_char_def Let_def)

lemma ToLower_idem [simp]: "ToLower (ToLower s) = ToLower s"
  by (simp add: ToLower_def)

lemma ToLower_append: "ToLower (s @ t) = ToLower s @ ToLower t"
  by (simp add: ToLower_def)

lemma ToLower_Nil [simp]: "ToLower [] = []"
  by (simp add: ToLower_def)

lemma HasPrefix_append [simp]: "HasPrefix (p @ s) p"
  by (simp add: HasPrefix_def)

lemma TrimPrefix_append [simp]: "TrimPrefix (p @ s) p = s"
  by (simp add: TrimPrefix_def)

section \<open>Error texts\<close>

definition FormatInt10 :: "int \<Rightarrow> string" where
  "FormatInt10 i = (if i < 0 then CHR ''-'' # format_nat 10 (nat (- i)) else format_nat 10 (nat i))"

text \<open>
  The method \<^verbatim>\<open>Error()\<close> of an error. The texts of the \<^verbatim>\<open>opentracing\<close> errors are that library's.
\<close>

definition err_text :: "(goerr \<Rightarrow> string) \<Rightarrow> goerr \<Rightarrow> string" where
  "err_text opentracing e = (case e of
      EOF \<Rightarrow> ''EOF''
    | ErrUnexpectedEOF \<Rightarrow> ''unexpected EOF''
    | ErrMetaKVMissing \<Rightarrow> ''wrong metadata lines. some keys or values are missing''
    | ErrMessageTooLong \<Rightarrow> ''message is too long''
    | ErrUnsupportedCompressor \<Rightarrow> ''unsupported compressor''
    | WrongMagic b \<Rightarrow> ''wrong magic number: '' @ format_nat 10 (unat b)
    | ErrShutdown \<Rightarrow> ''connection is shutdown''
    | ErrTimeOut \<Rightarrow> ''request timeout''
    | ErrServerClosed \<Rightarrow> ''http: Server closed''
    | ErrSpanContextCorrupted \<Rightarrow> opentracing e
    | ErrInvalidSpanContext \<Rightarrow> opentracing e
    | ErrText s \<Rightarrow> s)"

lemma err_text_ErrText [simp]: "err_text ot (ErrText s) = s"
  by (simp add: err_text_def)

end
