(* ===== verification/MetadataCtx.thy ===== *)
theory MetadataCtx
  imports Strconv
begin

text \<open>
  Metadata in contexts: \<^verbatim>\<open>metadata/metadata.go\<close>, the key names of \<^verbatim>\<open>share/share.go\<close>, the client's
  \<^verbatim>\<open>extractMdFromClientCtx\<close> (\<^verbatim>\<open>client/rpcclient.go\<close>) and the server's
  \<^verbatim>\<open>extractClientMdContexFromMd\<close> (\<^verbatim>\<open>server/context.go\<close>). A \<^verbatim>\<open>context.Context\<close> is the record of the
  values the code stores in it: the request metadata under \<^verbatim>\<open>ReqMetaDataKey\<close>, and under
  \<^verbatim>\<open>SpanMetaDataKey\<close> either a map (on the client) or a span context (on the server). The span of
  \<^verbatim>\<open>opentracing\<close> enters as its context, \<open>None\<close> when that is not a \<^verbatim>\<open>basictracer.SpanContext\<close>.
\<close>

section \<open>Keys\<close>

definition AuthKey :: string where "AuthKey = ''__AUTH''"
definition BaseServicesPath :: string where "BaseServicesPath = ''services/''"
definition PrefixTracerState :: string where "PrefixTracerState = ''ot-tracer-''"
definition PrefixBaggage :: string where "PrefixBaggage = ''ot-baggage-''"
definition FieldNameTraceID :: string where "FieldNameTraceID = PrefixTracerState @ ''traceid''"
definition FieldNameSpanID :: string where "FieldNameSpanID = PrefixTracerState @ ''spanid''"
definition FieldNameSampled :: string where "FieldNameSampled = PrefixTracerState @ ''sampled''"

lemmas key_defs = FieldNameTraceID_def FieldNameSpanID_def FieldNameSampled_def
  PrefixTracerState_def PrefixBaggage_def

section \<open>Contexts\<close>

record SpanContext =
  TraceID :: u64
  SpanID :: u64
  Sampled :: bool
  Baggage :: smap

datatype spanval = SpanMd smap | SpanCtx SpanContext

record ctx =
  ctxReq :: "smap option"
  ctxSpan :: "spanval option"

definition Background :: ctx where
  "Background = \<lparr>ctxReq = None, ctxSpan = None\<rparr>"

section \<open>\<^verbatim>\<open>metadata/metadata.go\<close>\<close>

definition metadata_New :: "smap \<Rightarrow> smap" where
  "metadata_New m = fold (\<lambda>(k, val) md. smap_put (ToLower k) val md) m []"

definition NewClientMdContext :: "ctx \<Rightarrow> smap \<Rightarrow> ctx" where
  "NewClientMdContext c md = c\<lparr>ctxReq := Some md\<rparr>"

definition FromClientMdContext :: "ctx \<Rightarrow> smap \<times> bool" where
  "FromClientMdContext c = (case ctxReq c of Some md \<Rightarrow> (md, True) | None \<Rightarrow> ([], False))"

definition span_md :: "SpanContext \<Rightarrow> smap" where
  "span_md sc = fold (\<lambda>(k, v) md. smap_put (PrefixBaggage @ k) v md) (Baggage sc)
     [(FieldNameTraceID, FormatUint (TraceID sc) 16),
      (FieldNameSpanID, FormatUint (SpanID sc) 16),
      (FieldNameSampled, FormatBool (Sampled sc))]"

definition NewClientSpanContext :: "ctx \<Rightarrow> SpanContext option \<Rightarrow> goerr + ctx" where
  "NewClientSpanContext c span = (case span of
       None \<Rightarrow> Inl ErrInvalidSpanContext
     | Some sc \<Rightarrow> Inr (c\<lparr>ctxSpan := Some (SpanMd (span_md sc))\<rparr>))"

definition FromClientSpanContext :: "ctx \<Rightarrow> goerr + SpanContext" where
  "FromClientSpanContext c = (case ctxSpan c of
       Some (SpanCtx sc) \<Rightarrow> Inr sc
     | _ \<Rightarrow> Inl ErrInvalidSpanContext)"

section \<open>The client's side: \<^verbatim>\<open>extractMdFromClientCtx\<close>\<close>

definition extractMdFromClientCtx :: "ctx \<Rightarrow> smap" where
  "extractMdFromClientCtx c =
    (let md = [];
         md = (case ctxReq c of
                 Some comMd \<Rightarrow> fold (\<lambda>(k, v) md. smap_put k v md) comMd md
               | None \<Rightarrow> md);
         md = (case ctxSpan c of
                 Some (SpanMd spanMd) \<Rightarrow> fold (\<lambda>(k, v) md. smap_put k v md) spanMd md
               | _ \<Rightarrow> md)
     in md)"

section \<open>The server's side: \<^verbatim>\<open>extractClientMdContexFromMd\<close>\<close>

text \<open>The local variables of the loop.\<close>

record extract_st =
  traceId :: u64
  spanId :: u64
  sampled :: bool
  hasSpanCtx :: bool
  decodedBaggage :: smap
  commonMd :: smap

definition extract_init :: extract_st where
  "extract_init = \<lparr>traceId = 0, spanId = 0, sampled = False, hasSpanCtx = False,
     decodedBaggage = [], commonMd = []\<rparr>"

definition extract_entry :: "string \<Rightarrow> string \<Rightarrow> extract_st \<Rightarrow> goerr + extract_st" where
  "extract_entry k v s =
    (if ToLower k = FieldNameTraceID then
       (case ParseUint v 16 of
          Inl _ \<Rightarrow> Inl ErrSpanContextCorrupted
        | Inr t \<Rightarrow> Inr (s\<lparr>hasSpanCtx := True, traceId := t\<rparr>))
     else if ToLower k = FieldNameSpanID then
       (case ParseUint v 16 of
          Inl _ \<Rightarrow> Inl ErrSpanContextCorrupted
        | Inr t \<Rightarrow> Inr (s\<lparr>hasSpanCtx := True, spanId := t\<rparr>))
     else if ToLower k = FieldNameSampled then
       (case ParseBool v of
          Inl _ \<Rightarrow> Inl ErrSpanContextCorrupted
        | Inr b \<Rightarrow> Inr (s\<lparr>hasSpanCtx := True, sampled := b\<rparr>))
     else
       (let lowercaseK = ToLower k in
        if HasPrefix lowercaseK PrefixBaggage then
          Inr (s\<lparr>hasSpanCtx := True,
             decodedBaggage := smap_put (TrimPrefix lowercaseK PrefixBaggage) v (decodedBaggage s)\<rparr>)
        else Inr (s\<lparr>commonMd := smap_put k v (commonMd s)\<rparr>)))"

fun extract_loop :: "smap \<Rightarrow> extract_st \<Rightarrow> goerr + extract_st" where
  "extract_loop [] s = Inr s"
| "extract_loop ((k, v) # md) s = (case extract_entry k v s of
      Inl e \<Rightarrow> Inl e
    | Inr s' \<Rightarrow> extract_loop md s')"

definition extractClientMdContexFromMd :: "ctx \<Rightarrow> smap \<Rightarrow> goerr + ctx" where
  "extractClientMdContexFromMd c md = (case extract_loop md extract_init of
       Inl e \<Rightarrow> Inl e
     | Inr s \<Rightarrow>
        (let c = (if commonMd s \<noteq> [] then c\<lparr>ctxReq := Some (commonMd s)\<rparr> else c);
             c = (if hasSpanCtx s then
                    c\<lparr>ctxSpan := Some (SpanCtx \<lparr>TraceID = traceId s, SpanID = spanId s,
                       Sampled = sampled s, Baggage = decodedBaggage s\<rparr>)\<rparr>
                  else c)
         in Inr c))"

section \<open>Keys that stay apart\<close>

lemma keys_lower [simp]:
  "ToLower FieldNameTraceID = FieldNameTraceID" "ToLower FieldNameSpanID = FieldNameSpanID"
  "ToLower FieldNameSampled = FieldNameSampled" "ToLower PrefixBaggage = PrefixBaggage"
  by code_simp+

lemma keys_distinct [simp]:
  "FieldNameTraceID \<noteq> FieldNameSpanID" "FieldNameTraceID \<noteq> FieldNameSampled"
  "FieldNameSpanID \<noteq> FieldNameSampled" "FieldNameSpanID \<noteq> FieldNameTraceID"
  "FieldNameSampled \<noteq> FieldNameTraceID" "FieldNameSampled \<noteq> FieldNameSpanID"
  by (simp_all add: key_defs)

lemma baggage_not_field [simp]:
  "PrefixBaggage @ k \<noteq> FieldNameTraceID" "PrefixBaggage @ k \<noteq> FieldNameSpanID"
  "PrefixBaggage @ k \<noteq> FieldNameSampled"
  "FieldNameTraceID \<noteq> PrefixBaggage @ k" "FieldNameSpanID \<noteq> PrefixBaggage @ k"
  "FieldNameSampled \<noteq> PrefixBaggage @ k"
  by (simp_all add: key_defs)

text \<open>A key that the server hands on as ordinary metadata.\<close>

definition plain_key :: "string \<Rightarrow> bool" where
  "plain_key k \<longleftrightarrow> ToLower k \<notin> {FieldNameTraceID, FieldNameSpanID, FieldNameSampled} \<and>
     \<not> HasPrefix (ToLower k) PrefixBaggage"

lemma extract_entry_plain:
  "plain_key k \<Longrightarrow> extract_entry k v s = Inr (s\<lparr>commonMd := smap_put k v (commonMd s)\<rparr>)"
  by (simp add: extract_entry_def plain_key_def Let_def)

lemma extract_entry_baggage:
  "ToLower b = b \<Longrightarrow> extract_entry (PrefixBaggage @ b) v s =
     Inr (s\<lparr>hasSpanCtx := True, decodedBaggage := smap_put b v (decodedBaggage s)\<rparr>)"
  by (simp add: extract_entry_def ToLower_append Let_def)

lemma extract_entry_fields:
  "extract_entry FieldNameTraceID (FormatUint t 16) s = Inr (s\<lparr>hasSpanCtx := True, traceId := t\<rparr>)"
  "extract_entry FieldNameSpanID (FormatUint t 16) s = Inr (s\<lparr>hasSpanCtx := True, spanId := t\<rparr>)"
  "extract_entry FieldNameSampled (FormatBool b) s = Inr (s\<lparr>hasSpanCtx := True, sampled := b\<rparr>)"
  by (simp_all add: extract_entry_def ParseUint_FormatUint)

section \<open>The loop on metadata a client sent\<close>

text \<open>
  An entry of the metadata that a client with span context \<open>sc\<close> and ordinary metadata \<open>com\<close> sends.
\<close>

definition sent_entry :: "SpanContext \<Rightarrow> smap \<Rightarrow> string \<Rightarrow> string \<Rightarrow> bool" where
  "sent_entry sc com k v \<longleftrightarrow>
     (k = FieldNameTraceID \<and> v = FormatUint (TraceID sc) 16) \<or>
     (k = FieldNameSpanID \<and> v = FormatUint (SpanID sc) 16) \<or>
     (k = FieldNameSampled \<and> v = FormatBool (Sampled sc)) \<or>
     (\<exists>b. k = PrefixBaggage @ b \<and> ToLower b = b \<and> map_of (Baggage sc) b = Some v) \<or>
     (plain_key k \<and> map_of com k = Some v)"

lemma plain_key_not_special:
  "plain_key k \<Longrightarrow> k \<noteq> FieldNameTraceID" "plain_key k \<Longrightarrow> k \<noteq> FieldNameSpanID"
  "plain_key k \<Longrightarrow> k \<noteq> FieldNameSampled" "plain_key k \<Longrightarrow> k \<noteq> PrefixBaggage @ b"
  by (auto simp: plain_key_def ToLower_append)

lemma special_not_plain [simp]:
  "\<not> plain_key FieldNameTraceID" "\<not> plain_key FieldNameSpanID" "\<not> plain_key FieldNameSampled"
  "\<not> plain_key (PrefixBaggage @ b)"
  using plain_key_not_special by blast+

text \<open>What the loop has gathered after the entries \<open>md\<close>, whatever their order.\<close>

definition gathered :: "SpanContext \<Rightarrow> smap \<Rightarrow> extract_st \<Rightarrow> extract_st \<Rightarrow> bool" where
  "gathered sc md s s' \<longleftrightarrow>
     traceId s' = (if FieldNameTraceID \<in> fst ` set md then TraceID sc else traceId s) \<and>
     spanId s' = (if FieldNameSpanID \<in> fst ` set md then SpanID sc else spanId s) \<and>
     sampled s' = (if FieldNameSampled \<in> fst ` set md then Sampled sc else sampled s) \<and>
     (hasSpanCtx s' \<longleftrightarrow> hasSpanCtx s \<or> (\<exists>k \<in> fst ` set md. \<not> plain_key k)) \<and>
     (\<forall>b. map_of (decodedBaggage s') b =
        (case map_of md (PrefixBaggage @ b) of Some v \<Rightarrow> Some v | None \<Rightarrow> map_of (decodedBaggage s) b)) \<and>
     (\<forall>k. map_of (commonMd s') k = (if plain_key k then
        (case map_of md k of Some v \<Rightarrow> Some v | None \<Rightarrow> map_of (commonMd s) k)
        else map_of (commonMd s) k))"

lemma extract_loop_sent:
  assumes "smap_wf md" "\<forall>(k, v) \<in> set md. sent_entry sc com k v"
  shows "\<exists>s'. extract_loop md s = Inr s' \<and> gathered sc md s s'"
  using assms
proof (induction md arbitrary: s)
  case Nil
  then show ?case by (simp add: gathered_def)
next
  case (Cons e md)
  obtain k v where e: "e = (k, v)" by (cases e)
  have new: "k \<notin> fst ` set md" using Cons.prems(1) by (simp add: smap_wf_def e)
  then have none: "map_of md k = None" by (simp add: map_of_eq_None_iff)
  have ih: "\<exists>s'. extract_loop md s1 = Inr s' \<and> gathered sc md s1 s'" for s1
    using Cons by (simp add: smap_wf_def)
  have "sent_entry sc com k v" using Cons.prems(2) by (simp add: e)
  then consider (t) "k = FieldNameTraceID" "v = FormatUint (TraceID sc) 16"
    | (i) "k = FieldNameSpanID" "v = FormatUint (SpanID sc) 16"
    | (b) "k = FieldNameSampled" "v = FormatBool (Sampled sc)"
    | (g) b where "k = PrefixBaggage @ b" "ToLower b = b"
    | (p) "plain_key k"
    unfolding sent_entry_def by blast
  then show ?case
  proof cases
    case t
    obtain s' where s': "extract_loop md (s\<lparr>hasSpanCtx := True, traceId := TraceID sc\<rparr>) = Inr s'"
      "gathered sc md (s\<lparr>hasSpanCtx := True, traceId := TraceID sc\<rparr>) s'" using ih by blast
    then have "extract_loop (e # md) s = Inr s'" by (simp add: e t extract_entry_fields)
    moreover have "gathered sc (e # md) s s'"
      using s'(2) new unfolding gathered_def e t
      by (simp add: plain_key_not_special cong: if_cong option.case_cong)
    ultimately show ?thesis by blast
  next
    case i
    obtain s' where s': "extract_loop md (s\<lparr>hasSpanCtx := True, spanId := SpanID sc\<rparr>) = Inr s'"
      "gathered sc md (s\<lparr>hasSpanCtx := True, spanId := SpanID sc\<rparr>) s'" using ih by blast
    then have "extract_loop (e # md) s = Inr s'" by (simp add: e i extract_entry_fields)
    moreover have "gathered sc (e # md) s s'"
      using s'(2) new unfolding gathered_def e i
      by (simp add: plain_key_not_special cong: if_cong option.case_cong)
    ultimately show ?thesis by blast
  next
    case b
    obtain s' where s': "extract_loop md (s\<lparr>hasSpanCtx := True, sampled := Sampled sc\<rparr>) = Inr s'"
      "gathered sc md (s\<lparr>hasSpanCtx := True, sampled := Sampled sc\<rparr>) s'" using ih by blast
    then have "extract_loop (e # md) s = Inr s'" by (simp add: e b extract_entry_fields)
    moreover have "gathered sc (e # md) s s'"
      using s'(2) new unfolding gathered_def e b
      by (simp add: plain_key_not_special cong: if_cong option.case_cong)
    ultimately show ?thesis by blast
  next
    case (g b)
    let ?s = "s\<lparr>hasSpanCtx := True, decodedBaggage := smap_put b v (decodedBaggage s)\<rparr>"
    obtain s' where s': "extract_loop md ?s = Inr s'" "gathered sc md ?s s'" using ih by blast
    then have "extract_loop (e # md) s = Inr s'" by (simp add: e g extract_entry_baggage)
    moreover have "gathered sc (e # md) s s'"
      using s'(2) none unfolding gathered_def e g
      by (simp add: plain_key_not_special update_conv' cong: if_cong option.case_cong)
    ultimately show ?thesis by blast
  next
    case p
    let ?s = "s\<lparr>commonMd := smap_put k v (commonMd s)\<rparr>"
    obtain s' where s': "extract_loop md ?s = Inr s'" "gathered sc md ?s s'" using ih by blast
    then have "extract_loop (e # md) s = Inr s'" by (simp add: e p extract_entry_plain)
    moreover have "gathered sc (e # md) s s'"
      using s'(2) none p plain_key_not_special [OF p]
        plain_key_not_special [OF p, THEN not_sym] unfolding gathered_def e
      by (simp add: update_conv' cong: if_cong option.case_cong)
    ultimately show ?thesis by blast
  qed
qed

section \<open>What the client sends\<close>

lemma map_of_prefixed: "map_of (map (\<lambda>(k, v). (p @ k, v)) xs) (p @ b) = map_of xs b"
  by (induction xs) auto

lemma map_of_prefixed_SomeD:
  "map_of (map (\<lambda>(k, v). (p @ k, v)) xs) k = Some v \<Longrightarrow> \<exists>b. k = p @ b \<and> map_of xs b = Some v"
proof (induction xs)
  case Nil
  then show ?case by simp
next
  case (Cons e xs)
  obtain j w where e: "e = (j, w)" by (cases e)
  show ?case
  proof (cases "k = p @ j")
    case True
    then show ?thesis using Cons.prems by (auto simp: e)
  next
    case False
    then obtain b where "k = p @ b" "map_of xs b = Some v" using Cons by (auto simp: e)
    then show ?thesis using False by (auto simp: e)
  qed
qed

lemma span_md_fold:
  "span_md sc = fold (\<lambda>(k, v) md. smap_put k v md) (map (\<lambda>(k, v). (PrefixBaggage @ k, v)) (Baggage sc))
     [(FieldNameTraceID, FormatUint (TraceID sc) 16),
      (FieldNameSpanID, FormatUint (SpanID sc) 16),
      (FieldNameSampled, FormatBool (Sampled sc))]"
  unfolding span_md_def fold_map by (rule arg_cong [of _ _ "\<lambda>f. fold f _ _"]) (auto simp: fun_eq_iff)

lemma map_of_span_md:
  assumes "smap_wf (Baggage sc)"
  shows "map_of (span_md sc) =
     map_of [(FieldNameTraceID, FormatUint (TraceID sc) 16), (FieldNameSpanID, FormatUint (SpanID sc) 16),
      (FieldNameSampled, FormatBool (Sampled sc))] ++
     map_of (map (\<lambda>(k, v). (PrefixBaggage @ k, v)) (Baggage sc))"
proof -
  have "distinct (map fst (map (\<lambda>(k, v). (PrefixBaggage @ k, v)) (Baggage sc)))"
    using assms by (auto simp: smap_wf_def distinct_map inj_on_def o_def case_prod_beta)
  then show ?thesis unfolding span_md_fold
    by (subst map_of_fold_put) (simp_all add: fun_upd_twist)
qed

lemma span_md_lookup:
  assumes "smap_wf (Baggage sc)"
  shows "map_of (span_md sc) FieldNameTraceID = Some (FormatUint (TraceID sc) 16)"
    "map_of (span_md sc) FieldNameSpanID = Some (FormatUint (SpanID sc) 16)"
    "map_of (span_md sc) FieldNameSampled = Some (FormatBool (Sampled sc))"
    "map_of (span_md sc) (PrefixBaggage @ b) = map_of (Baggage sc) b"
  unfolding map_of_span_md [OF assms]
  by (auto simp: map_add_def map_of_prefixed split: option.splits dest!: map_of_prefixed_SomeD)

lemma span_md_SomeD:
  assumes "smap_wf (Baggage sc)" "map_of (span_md sc) k = Some v"
  shows "(k = FieldNameTraceID \<and> v = FormatUint (TraceID sc) 16) \<or>
     (k = FieldNameSpanID \<and> v = FormatUint (SpanID sc) 16) \<or>
     (k = FieldNameSampled \<and> v = FormatBool (Sampled sc)) \<or>
     (\<exists>b. k = PrefixBaggage @ b \<and> map_of (Baggage sc) b = Some v)"
  using assms(2) unfolding map_of_span_md [OF assms(1)]
  by (auto simp: map_add_def split: option.splits if_splits dest!: map_of_prefixed_SomeD)

lemma span_md_wf: "smap_wf (span_md sc)"
  unfolding span_md_def by (rule smap_wf_fold_put) (simp add: smap_wf_def)

lemma span_md_plain: "smap_wf (Baggage sc) \<Longrightarrow> plain_key k \<Longrightarrow> map_of (span_md sc) k = None"
  using span_md_SomeD [of sc k] by (cases "map_of (span_md sc) k") auto

definition sendable_com :: "smap option \<Rightarrow> bool" where
  "sendable_com com \<longleftrightarrow> (case com of None \<Rightarrow> True
     | Some m \<Rightarrow> smap_wf m \<and> (\<forall>k \<in> fst ` set m. plain_key k))"

lemma map_of_extractMd:
  assumes "ctxSpan c = Some (SpanMd sp)" "smap_wf sp" "sendable_com (ctxReq c)"
  shows "map_of (extractMdFromClientCtx c) = map_of (case ctxReq c of None \<Rightarrow> [] | Some m \<Rightarrow> m) ++ map_of sp"
  using assms
  by (auto simp: extractMdFromClientCtx_def sendable_com_def map_of_fold_put smap_wf_def split: option.splits)

definition lower_baggage :: "SpanContext \<Rightarrow> bool" where
  "lower_baggage sc \<longleftrightarrow> smap_wf (Baggage sc) \<and> (\<forall>k \<in> fst ` set (Baggage sc). ToLower k = k)"

lemma span_propagation:
  assumes sc: "lower_baggage sc" and com: "sendable_com (ctxReq c)"
    and c1: "NewClientSpanContext c (Some sc) = Inr c1"
    and kvs: "smap_wf kvs" "map_of kvs = map_of (extractMdFromClientCtx c1)"
  shows "\<exists>c' b. extractClientMdContexFromMd c0 kvs = Inr c' \<and>
     ctxSpan c' = Some (SpanCtx (sc\<lparr>Baggage := b\<rparr>)) \<and> map_of b = map_of (Baggage sc) \<and>
     (case ctxReq c of
        None \<Rightarrow> ctxReq c' = ctxReq c0
      | Some m \<Rightarrow> if m = [] then ctxReq c' = ctxReq c0
          else \<exists>m'. ctxReq c' = Some m' \<and> map_of m' = map_of m)"
proof -
  define m where "m = (case ctxReq c of None \<Rightarrow> [] | Some m \<Rightarrow> m)"
  have wfb: "smap_wf (Baggage sc)" using sc by (simp add: lower_baggage_def)
  have c1': "ctxSpan c1 = Some (SpanMd (span_md sc))" "ctxReq c1 = ctxReq c"
    using c1 by (auto simp: NewClientSpanContext_def)
  have mp: "map_of kvs = map_of m ++ map_of (span_md sc)"
    using map_of_extractMd [OF c1'(1) span_md_wf] com c1'(2) kvs(2) by (simp add: m_def)
  have plain: "plain_key k" if "map_of m k = Some v" for k v
    using that com by (auto simp: m_def sendable_com_def rev_image_eqI dest!: map_of_SomeD split: option.splits)
  have sent: "\<forall>(k, v) \<in> set kvs. sent_entry sc m k v"
  proof safe
    fix k v assume "(k, v) \<in> set kvs"
    then have kv: "map_of kvs k = Some v" using kvs(1) by (intro map_of_SomeI)
    show "sent_entry sc m k v"
    proof (cases "map_of (span_md sc) k")
      case None
      then show ?thesis using kv mp plain by (auto simp: sent_entry_def map_add_def)
    next
      case (Some v')
      then have "v' = v" using kv mp by (simp add: map_add_def)
      moreover have "ToLower b = b" if "map_of (Baggage sc) b = Some v" for b
        using sc map_of_SomeD [OF that] by (force simp: lower_baggage_def)
      ultimately show ?thesis using span_md_SomeD [OF wfb Some] unfolding sent_entry_def by blast
    qed
  qed
  obtain s where s: "extract_loop kvs extract_init = Inr s" "gathered sc kvs extract_init s"
    using extract_loop_sent [OF kvs(1) sent] by blast
  have look: "map_of kvs k = (case map_of (span_md sc) k of None \<Rightarrow> map_of m k | Some v \<Rightarrow> Some v)" for k
    by (simp add: mp map_add_def)
  have ins: "k \<in> fst ` set kvs" if "map_of (span_md sc) k \<noteq> None" for k
    using that look [of k] by (auto simp: domIff [symmetric] dom_map_of_conv_image_fst [symmetric] split: option.splits)
  have here: "FieldNameTraceID \<in> fst ` set kvs" "FieldNameSpanID \<in> fst ` set kvs"
      "FieldNameSampled \<in> fst ` set kvs"
    by (rule ins, simp add: span_md_lookup [OF wfb])+
  have fields: "traceId s = TraceID sc" "spanId s = SpanID sc" "sampled s = Sampled sc"
    using s(2) here by (simp_all add: gathered_def)
  have spanned: "hasSpanCtx s"
    using s(2) here(1) special_not_plain(1) unfolding gathered_def by blast
  have bag: "map_of (decodedBaggage s) = map_of (Baggage sc)"
  proof
    fix b
    have "map_of m (PrefixBaggage @ b) = None" using plain [of "PrefixBaggage @ b"] by (cases "map_of m (PrefixBaggage @ b)") auto
    then show "map_of (decodedBaggage s) b = map_of (Baggage sc) b"
      using s(2) look [of "PrefixBaggage @ b"] span_md_lookup(4) [OF wfb, of b]
      by (auto simp: gathered_def extract_init_def split: option.splits)
  qed
  have com': "map_of (commonMd s) = map_of m"
  proof
    fix k
    show "map_of (commonMd s) k = map_of m k"
    proof (cases "plain_key k")
      case True
      then show ?thesis using s(2) look [of k] span_md_plain [OF wfb, of k]
        by (auto simp: gathered_def extract_init_def split: option.splits)
    next
      case False
      then have "map_of m k = None" using plain [of k] by (cases "map_of m k") auto
      then show ?thesis using s(2) False by (simp add: gathered_def extract_init_def)
    qed
  qed
  have empty: "commonMd s = [] \<longleftrightarrow> m = []"
    using com' by (metis map_of_eq_empty_iff)
  let ?sc = "sc\<lparr>Baggage := decodedBaggage s\<rparr>"
  have "\<lparr>TraceID = traceId s, SpanID = spanId s, Sampled = sampled s, Baggage = decodedBaggage s\<rparr> = ?sc"
    using fields by (cases sc) simp
  then show ?thesis
    using s(1) spanned bag com' empty
    by (auto simp: extractClientMdContexFromMd_def Let_def m_def split: option.splits)
qed

section \<open>Corrupt span fields\<close>

definition corrupt_entry :: "string \<Rightarrow> string \<Rightarrow> bool" where
  "corrupt_entry k v \<longleftrightarrow>
     (ToLower k \<in> {FieldNameTraceID, FieldNameSpanID} \<and> (\<exists>e. ParseUint v 16 = Inl e)) \<or>
     (ToLower k = FieldNameSampled \<and> (\<exists>e. ParseBool v = Inl e))"

lemma extract_entry_corrupt:
  "extract_entry k v s = Inl e \<longleftrightarrow> e = ErrSpanContextCorrupted \<and> corrupt_entry k v"
  by (auto simp: extract_entry_def corrupt_entry_def Let_def keys_distinct [THEN not_sym]
      split: sum.splits)

lemma extract_loop_corrupt:
  "extract_loop md s = Inl e \<longleftrightarrow> e = ErrSpanContextCorrupted \<and> (\<exists>(k, v) \<in> set md. corrupt_entry k v)"
proof (induction md arbitrary: s)
  case (Cons kv md)
  obtain k v where kv: "kv = (k, v)" by (cases kv)
  show ?case
  proof (cases "extract_entry k v s")
    case (Inl e')
    then show ?thesis using extract_entry_corrupt [of k v s e'] by (auto simp: kv)
  next
    case (Inr s')
    then have "\<not> corrupt_entry k v" using extract_entry_corrupt [of k v s ErrSpanContextCorrupted] by simp
    then show ?thesis using Cons.IH [of s'] Inr by (simp add: kv)
  qed
qed simp

section \<open>Properties\<close>

text \<open>C7. A span context whose baggage keys are in lower case, and ordinary metadata none of whose keys is a tracing key in some case,
  reach the server: from the metadata that the client gathers from its context the server's loop rebuilds the trace id,
  the span id, the sampling flag, the whole baggage and the ordinary metadata, in whatever order Go's \<^verbatim>\<open>range\<close> visits the
  map. (The server writes the keys of the baggage in lower case, so others would not come back.)\<close>

theorem span_roundtrip:
  assumes "lower_baggage sc" "sendable_com (ctxReq c)"
    and "NewClientSpanContext c (Some sc) = Inr c1"
    and "smap_wf kvs" "map_of kvs = map_of (extractMdFromClientCtx c1)"
  shows "\<exists>c' sc'. extractClientMdContexFromMd Background kvs = Inr c' \<and>
     FromClientSpanContext c' = Inr sc' \<and> TraceID sc' = TraceID sc \<and> SpanID sc' = SpanID sc \<and>
     Sampled sc' = Sampled sc \<and> map_of (Baggage sc') = map_of (Baggage sc) \<and>
     map_of (fst (FromClientMdContext c')) = map_of (fst (FromClientMdContext c))"
proof -
  obtain c' b where "extractClientMdContexFromMd Background kvs = Inr c'"
    "ctxSpan c' = Some (SpanCtx (sc\<lparr>Baggage := b\<rparr>))" "map_of b = map_of (Baggage sc)"
    "case ctxReq c of None \<Rightarrow> ctxReq c' = ctxReq Background
       | Some m \<Rightarrow> if m = [] then ctxReq c' = ctxReq Background
           else \<exists>m'. ctxReq c' = Some m' \<and> map_of m' = map_of m"
    using span_propagation [OF assms, of Background] by blast
  then show ?thesis
    by (auto simp: FromClientSpanContext_def FromClientMdContext_def Background_def
        split: option.splits if_splits)
qed

definition demo_span :: SpanContext where
  "demo_span = \<lparr>TraceID = 0xBEEF, SpanID = 42, Sampled = True, Baggage = [(''user'', ''ann'')]\<rparr>"

definition demo_ctx :: ctx where
  "demo_ctx = NewClientMdContext Background [(''region'', ''eu'')]"

definition demo_md :: smap where
  "demo_md = [(FieldNameSampled, ''true''), (''region'', ''eu''), (FieldNameTraceID, ''beef''),
     (PrefixBaggage @ ''user'', ''ann''), (FieldNameSpanID, ''2a'')]"

lemma demo_numbers: "FormatUint 0xBEEF 16 = ''beef''" "FormatUint 42 16 = ''2a''"
  by (simp_all add: FormatUint_def format_nat.simps digit_char_def char_of_def bit_0)

lemma demo_md_facts:
  "lower_baggage demo_span" "sendable_com (ctxReq demo_ctx)" "smap_wf demo_md"
  "NewClientSpanContext demo_ctx (Some demo_span) =
     Inr (demo_ctx\<lparr>ctxSpan := Some (SpanMd (span_md demo_span))\<rparr>)"
     apply (simp add: lower_baggage_def demo_span_def smap_wf_def ToLower_def lower_char_def)
    apply (simp add: sendable_com_def demo_ctx_def NewClientMdContext_def smap_wf_def plain_key_def
      ToLower_def lower_char_def HasPrefix_def key_defs)
   apply (simp add: demo_md_def smap_wf_def key_defs)
  apply (simp add: NewClientSpanContext_def)
  done

lemma demo_md_sent:
  "map_of demo_md = map_of (extractMdFromClientCtx
     (demo_ctx\<lparr>ctxSpan := Some (SpanMd (span_md demo_span))\<rparr>))"
proof -
  have "extractMdFromClientCtx (demo_ctx\<lparr>ctxSpan := Some (SpanMd (span_md demo_span))\<rparr>) =
    [(''region'', ''eu''), (FieldNameTraceID, ''beef''), (FieldNameSpanID, ''2a''),
     (FieldNameSampled, ''true''), (PrefixBaggage @ ''user'', ''ann'')]" (is "_ = ?sent")
    by (simp add: extractMdFromClientCtx_def demo_ctx_def NewClientMdContext_def span_md_def
        demo_span_def demo_numbers FormatBool_def) (simp add: key_defs)
  moreover have "map_of demo_md = map_of ?sent"
  proof (rule map_of_eqI_set)
    show "smap_wf demo_md" "smap_wf ?sent" by (simp_all add: demo_md_def smap_wf_def key_defs)
    show "set demo_md = set ?sent" by (auto simp: demo_md_def)
  qed
  ultimately show ?thesis by simp
qed

theorem span_roundtrip_witness:
  "\<exists>c' sc'. extractClientMdContexFromMd Background demo_md = Inr c' \<and>
     FromClientSpanContext c' = Inr sc' \<and> TraceID sc' = TraceID demo_span \<and>
     SpanID sc' = SpanID demo_span \<and> Sampled sc' = Sampled demo_span \<and>
     map_of (Baggage sc') = map_of (Baggage demo_span) \<and>
     map_of (fst (FromClientMdContext c')) = map_of (fst (FromClientMdContext demo_ctx))"
  by (rule span_roundtrip [OF demo_md_facts(1,2,4,3) demo_md_sent])

text \<open>The server rejects a request's metadata exactly when one of its entries is a trace id, span id
  or sampling flag (in any letter case) that does not parse, and then with
  \<open>ErrSpanContextCorrupted\<close>; the order of the entries does not matter.\<close>

theorem corrupt_span_rejected:
  "extractClientMdContexFromMd c md = Inl e \<longleftrightarrow>
     e = ErrSpanContextCorrupted \<and> (\<exists>(k, v) \<in> set md. corrupt_entry k v)"
  using extract_loop_corrupt [of md extract_init e]
  by (auto simp: extractClientMdContexFromMd_def Let_def split: sum.splits)

end
