(* ===== verification/GoRuntime.thy ===== *)
theory GoRuntime
  imports Prelude
begin

text \<open>
  The parts of the Go language and standard library that the wire code rests on: slices with
  their capacity (a slice expression may reach past the length, up to the capacity, and panics
  beyond it), \<^verbatim>\<open>copy\<close>, readers (\<^verbatim>\<open>io.ReadFull\<close>, \<^verbatim>\<open>bytes.Buffer\<close>, \<^verbatim>\<open>bufio.Reader\<close>
  over a connection), and writers. The interface \<^verbatim>\<open>io.Reader\<close> is the locale \<open>byte_reader\<close>.
\<close>

section \<open>Slices\<close>

text \<open>The elements \<open>slo ..< shi\<close> of a backing array; the capacity runs to the array's end.\<close>

record slice =
  smem :: bytes
  slo :: nat
  shi :: nat

definition slice_wf :: "slice \<Rightarrow> bool" where
  "slice_wf s \<longleftrightarrow> slo s \<le> shi s \<and> shi s \<le> length (smem s)"

definition slice_len :: "slice \<Rightarrow> nat" where
  "slice_len s = shi s - slo s"

definition slice_cap :: "slice \<Rightarrow> nat" where
  "slice_cap s = length (smem s) - slo s"

definition slice_bytes :: "slice \<Rightarrow> bytes" where
  "slice_bytes s = take (shi s - slo s) (drop (slo s) (smem s))"

text \<open>\<^verbatim>\<open>make([]byte, n)\<close>, \<^verbatim>\<open>s[i:j]\<close> and \<^verbatim>\<open>s[i:]\<close>.\<close>

definition make_slice :: "nat \<Rightarrow> slice" where
  "make_slice n = \<lparr>smem = replicate n 0, slo = 0, shi = n\<rparr>"

definition reslice :: "slice \<Rightarrow> nat \<Rightarrow> nat \<Rightarrow> slice option" where
  "reslice s i j =
     (if i \<le> j \<and> j \<le> slice_cap s then Some (s\<lparr>slo := slo s + i, shi := slo s + j\<rparr>) else None)"

definition reslice_from :: "slice \<Rightarrow> nat \<Rightarrow> slice option" where
  "reslice_from s i = (if i \<le> slice_len s then Some (s\<lparr>slo := slo s + i\<rparr>) else None)"

text \<open>\<^verbatim>\<open>binary.BigEndian.Uint32\<close>: the bounds check \<^verbatim>\<open>b[3]\<close> is against the length.\<close>

definition slice_uint32 :: "slice \<Rightarrow> u32 option" where
  "slice_uint32 s = (if 4 \<le> slice_len s then Some (be_get32 (slice_bytes s)) else None)"

text \<open>The bytes of \<^verbatim>\<open>s[i:j]\<close>, and the integer read from \<^verbatim>\<open>s[i:j]\<close>.\<close>

definition slice_sub :: "slice \<Rightarrow> nat \<Rightarrow> nat \<Rightarrow> bytes option" where
  "slice_sub s i j = map_option slice_bytes (reslice s i j)"

definition slice_sub32 :: "slice \<Rightarrow> nat \<Rightarrow> nat \<Rightarrow> u32 option" where
  "slice_sub32 s i j = reslice s i j \<bind> slice_uint32"

definition slice_sub_from :: "slice \<Rightarrow> nat \<Rightarrow> bytes option" where
  "slice_sub_from s i = map_option slice_bytes (reslice_from s i)"

lemma slice_len_bytes: "slice_wf s \<Longrightarrow> length (slice_bytes s) = slice_len s"
  by (auto simp: slice_wf_def slice_bytes_def slice_len_def)

lemma slice_sub_at:
  assumes "slice_wf s" "slice_bytes s = pre @ xs @ post" "i = length pre" "j = i + length xs"
  shows "slice_sub s i j = Some xs"
proof -
  have "length (slice_bytes s) = slice_len s" using assms(1) by (rule slice_len_bytes)
  then have "j \<le> shi s - slo s" using assms by (simp add: slice_len_def)
  moreover have "take (j - i) (drop i (slice_bytes s)) = xs" using assms by simp
  ultimately show ?thesis using assms(1,4)
    by (auto simp: slice_sub_def reslice_def slice_cap_def slice_bytes_def slice_wf_def
        drop_take add.commute)
qed

lemma slice_sub32_at:
  assumes "slice_wf s" "slice_bytes s = pre @ be_put32 v @ post" "i = length pre" "j = i + 4"
  shows "slice_sub32 s i j = Some v"
proof -
  have "slice_sub s i j = Some (be_put32 v)"
    using assms by (intro slice_sub_at [of s pre _ post]) auto
  then obtain t where t: "reslice s i j = Some t" "slice_bytes t = be_put32 v"
    by (auto simp: slice_sub_def)
  then have "slice_len t = 4" using assms(4) by (auto simp: reslice_def slice_len_def split: if_splits)
  with t show ?thesis by (simp add: slice_sub32_def slice_uint32_def)
qed

lemma slice_sub_from_at:
  assumes "slice_wf s" "slice_bytes s = pre @ xs" "i = length pre"
  shows "slice_sub_from s i = Some xs"
proof -
  have "length (slice_bytes s) = slice_len s" using assms(1) by (rule slice_len_bytes)
  then have "i \<le> slice_len s" using assms by simp
  moreover have "drop i (slice_bytes s) = xs" using assms by simp
  ultimately show ?thesis using assms(1)
    by (auto simp: slice_sub_from_def reslice_from_def slice_bytes_def slice_wf_def slice_len_def
        drop_take add.commute)
qed

text \<open>Beyond the capacity every read panics.\<close>

lemma slice_sub32_panic: "slice_cap s < j \<Longrightarrow> slice_sub32 s i j = None"
  by (simp add: slice_sub32_def reslice_def)

lemma slice_sub32_inverted: "j < i \<Longrightarrow> slice_sub32 s i j = None"
  by (simp add: slice_sub32_def reslice_def)

lemma slice_sub_inverted: "j < i \<Longrightarrow> slice_sub s i j = None"
  by (simp add: slice_sub_def reslice_def)

text \<open>Overwriting part of an array, and \<^verbatim>\<open>copy(dst[lo:hi], src)\<close>.\<close>

definition blit :: "bytes \<Rightarrow> nat \<Rightarrow> bytes \<Rightarrow> bytes" where
  "blit d p src = take p d @ src @ drop (p + length src) d"

definition gocopy :: "bytes \<Rightarrow> nat \<Rightarrow> nat \<Rightarrow> bytes \<Rightarrow> bytes" where
  "gocopy d lo hi src = blit d lo (take (hi - lo) src)"

lemma length_blit [simp]: "p + length src \<le> length d \<Longrightarrow> length (blit d p src) = length d"
  by (simp add: blit_def)

text \<open>An array written from the left: the part already written, then what is still zero.\<close>

lemma blit_next:
  "p = length xs \<Longrightarrow> length src \<le> n \<Longrightarrow>
   blit (xs @ replicate n 0) p src = (xs @ src) @ replicate (n - length src) 0"
  by (simp add: blit_def)

lemma gocopy_next:
  "p = length xs \<Longrightarrow> p + length src \<le> hi \<Longrightarrow> length src \<le> n \<Longrightarrow>
   gocopy (xs @ replicate n 0) p hi src = (xs @ src) @ replicate (n - length src) 0"
  by (simp add: gocopy_def blit_next)

section \<open>Readers\<close>

text \<open>
  \<open>readfull r k\<close> is \<^verbatim>\<open>io.ReadFull\<close> into a buffer of \<open>k\<close> bytes: the bytes stored, the error
  and the reader afterwards. The contract names the bytes still to come and the error the stream
  ends with; a stream that ends inside the buffer gives \<^verbatim>\<open>io.ErrUnexpectedEOF\<close>.
\<close>

definition short_error :: "bytes \<Rightarrow> goerr \<Rightarrow> goerr" where
  "short_error got e = (if got \<noteq> [] \<and> e = EOF then ErrUnexpectedEOF else e)"

locale byte_reader =
  fixes readfull :: "'r \<Rightarrow> nat \<Rightarrow> bytes \<times> goerr option \<times> 'r"
    and rest :: "'r \<Rightarrow> bytes"
    and fin :: "'r \<Rightarrow> goerr"
  assumes readfull_enough:
      "k \<le> length (rest r) \<Longrightarrow>
       \<exists>r'. readfull r k = (take k (rest r), None, r') \<and> rest r' = drop k (rest r) \<and> fin r' = fin r"
    and readfull_short:
      "length (rest r) < k \<Longrightarrow>
       \<exists>r'. readfull r k = (rest r, Some (short_error (rest r) (fin r)), r') \<and>
            rest r' = [] \<and> fin r' = fin r"
begin

lemma readfull_append:
  "rest r = xs @ ys \<Longrightarrow> length xs = k \<Longrightarrow>
   \<exists>r'. readfull r k = (xs, None, r') \<and> rest r' = ys \<and> fin r' = fin r"
  using readfull_enough [of k r] by auto

lemma readfull_length: "readfull r k = (bs, None, r') \<Longrightarrow> length bs = k"
  using readfull_enough [of k r] readfull_short [of r k] by (cases "k \<le> length (rest r)") auto

lemma readfull_rest: "readfull r k = (bs, e, r') \<Longrightarrow> rest r = bs @ rest r'"
  using readfull_enough [of k r] readfull_short [of r k] by (cases "k \<le> length (rest r)") auto

lemma readfull_error_iff:
  "readfull r k = (bs, e, r') \<Longrightarrow> e = None \<longleftrightarrow> k \<le> length (rest r)"
  using readfull_enough [of k r] readfull_short [of r k] by (cases "k \<le> length (rest r)") auto

end

subsection \<open>\<^verbatim>\<open>bytes.Buffer\<close>\<close>

definition buffer_readfull :: "bytes \<Rightarrow> nat \<Rightarrow> bytes \<times> goerr option \<times> bytes" where
  "buffer_readfull b k =
     (if k \<le> length b then (take k b, None, drop k b) else (b, Some (short_error b EOF), []))"

interpretation buffer: byte_reader buffer_readfull "\<lambda>b. b" "\<lambda>_. EOF"
  by unfold_locales (auto simp: buffer_readfull_def)

subsection \<open>A connection and \<^verbatim>\<open>bufio.Reader\<close>\<close>

text \<open>
  A connection delivers its stream in pieces: each \<^verbatim>\<open>Read\<close> returns at most the next piece. After
  the last piece it returns its final error (\<^verbatim>\<open>io.EOF\<close>, a deadline, a reset).
\<close>

record conn =
  pieces :: "bytes list"
  cend :: goerr

definition conn_read :: "conn \<Rightarrow> nat \<Rightarrow> bytes \<times> goerr option \<times> conn" where
  "conn_read c n = (case pieces c of
       [] \<Rightarrow> ([], Some (cend c), c)
     | p # ps \<Rightarrow> (take n p, None, c\<lparr>pieces := (if length p \<le> n then ps else drop n p # ps)\<rparr>))"

text \<open>
  \<^verbatim>\<open>bufio.Reader\<close>: the bytes read ahead (\<open>bbuf\<close>), the buffer size and the connection.
  \<^verbatim>\<open>Read\<close> serves from the buffer; on an empty buffer it does one read of the connection, straight
  into the destination when that is at least as large as the buffer.
\<close>

record bufio =
  bbuf :: bytes
  bsize :: nat
  bconn :: conn

definition NewReaderSize :: "conn \<Rightarrow> nat \<Rightarrow> bufio" where
  "NewReaderSize c n = \<lparr>bbuf = [], bsize = n, bconn = c\<rparr>"

definition bufio_read :: "bufio \<Rightarrow> nat \<Rightarrow> bytes \<times> goerr option \<times> bufio" where
  "bufio_read b n =
     (if bbuf b \<noteq> [] then (take n (bbuf b), None, b\<lparr>bbuf := drop n (bbuf b)\<rparr>)
      else if bsize b \<le> n then
        (case conn_read (bconn b) n of (bs, e, c) \<Rightarrow> (bs, e, b\<lparr>bconn := c\<rparr>))
      else (case conn_read (bconn b) (bsize b) of
        (bs, e, c) \<Rightarrow> (take n bs, e, b\<lparr>bbuf := drop n bs, bconn := c\<rparr>)))"

definition bufio_rest :: "bufio \<Rightarrow> bytes" where
  "bufio_rest b = bbuf b @ concat (pieces (bconn b))"

definition bufio_fin :: "bufio \<Rightarrow> goerr" where
  "bufio_fin b = cend (bconn b)"

lemma bufio_read_progress:
  "bufio_read b k = (bs, None, b') \<Longrightarrow> 0 < k \<Longrightarrow>
   (k - length bs) + length (pieces (bconn b')) < k + length (pieces (bconn b))"
  by (cases b; cases "pieces (bconn b)")
    (auto simp: bufio_read_def conn_read_def split: if_splits list.splits)

text \<open>\<^verbatim>\<open>io.ReadAtLeast\<close>'s loop over it: read until the destination is full or a read fails.\<close>

function bufio_fill :: "bufio \<Rightarrow> nat \<Rightarrow> bytes \<times> goerr option \<times> bufio" where
  "bufio_fill b k =
     (if k = 0 then ([], None, b)
      else (case bufio_read b k of (bs, err, b') \<Rightarrow>
        (case err of
           Some e \<Rightarrow> (bs, Some e, b')
         | None \<Rightarrow>
            (case bufio_fill b' (k - length bs) of (bs', e, b'') \<Rightarrow> (bs @ bs', e, b'')))))"
  by pat_completeness auto
termination
  by (relation "measure (\<lambda>(b, k). k + length (pieces (bconn b)))")
    (auto intro: bufio_read_progress [OF sym])

declare bufio_fill.simps [simp del]

definition bufio_readfull :: "bufio \<Rightarrow> nat \<Rightarrow> bytes \<times> goerr option \<times> bufio" where
  "bufio_readfull b k = (case bufio_fill b k of
       (bs, None, b') \<Rightarrow> (bs, None, b')
     | (bs, Some e, b') \<Rightarrow> (bs, Some (short_error bs e), b'))"

lemma take_drop_split: "k \<le> n \<Longrightarrow> take k xs @ drop k (take n xs) @ drop n xs = xs"
  by (metis append.assoc append_take_drop_id min_absorb1 take_take)

lemma bufio_read_ok:
  "bufio_read b k = (bs, None, b') \<Longrightarrow>
   length bs \<le> k \<and> bufio_rest b = bs @ bufio_rest b' \<and> bufio_fin b' = bufio_fin b"
  by (cases b; cases "pieces (bconn b)")
    (auto simp: bufio_read_def conn_read_def bufio_rest_def bufio_fin_def take_drop_split
      split: if_splits)

lemma bufio_read_err:
  "bufio_read b k = (bs, Some e, b') \<Longrightarrow>
   bs = [] \<and> e = bufio_fin b \<and> bufio_rest b = [] \<and> bufio_rest b' = [] \<and> bufio_fin b' = bufio_fin b"
  by (cases b; cases "pieces (bconn b)")
    (auto simp: bufio_read_def conn_read_def bufio_rest_def bufio_fin_def split: if_splits)

lemma bufio_fill_spec:
  "\<exists>b'. bufio_fill b k =
     (take k (bufio_rest b),
      (if k \<le> length (bufio_rest b) then None else Some (bufio_fin b)), b') \<and>
    bufio_rest b' = drop k (bufio_rest b) \<and> bufio_fin b' = bufio_fin b"
proof (induction b k rule: bufio_fill.induct)
  case (1 b k)
  show ?case
  proof (cases "k = 0")
    case True
    then show ?thesis by (simp add: bufio_fill.simps [of b])
  next
    case False
    obtain bs err b' where rd: "bufio_read b k = (bs, err, b')" by (cases "bufio_read b k") auto
    show ?thesis
    proof (cases err)
      case (Some e)
      with rd bufio_read_err [of b k bs e b'] False show ?thesis
        by (simp add: bufio_fill.simps [of b])
    next
      case None
      with rd have ok: "length bs \<le> k" "bufio_rest b = bs @ bufio_rest b'" "bufio_fin b' = bufio_fin b"
        using bufio_read_ok [of b k bs b'] by auto
      from "1.IH" [OF False rd [symmetric] refl None] ok False rd None show ?thesis
        by (auto simp: bufio_fill.simps [of b])
    qed
  qed
qed

interpretation bufio: byte_reader bufio_readfull bufio_rest bufio_fin
proof
  fix k r
  show "k \<le> length (bufio_rest r) \<Longrightarrow> \<exists>r'. bufio_readfull r k = (take k (bufio_rest r), None, r') \<and>
      bufio_rest r' = drop k (bufio_rest r) \<and> bufio_fin r' = bufio_fin r"
    using bufio_fill_spec [of r k] by (auto simp: bufio_readfull_def)
  show "length (bufio_rest r) < k \<Longrightarrow> \<exists>r'. bufio_readfull r k =
      (bufio_rest r, Some (short_error (bufio_rest r) (bufio_fin r)), r') \<and>
      bufio_rest r' = [] \<and> bufio_fin r' = bufio_fin r"
    using bufio_fill_spec [of r k] by (auto simp: bufio_readfull_def)
qed

section \<open>Writers\<close>

text \<open>
  \<open>write w bs\<close> is \<^verbatim>\<open>Write\<close>: the error and the writer afterwards. A sequence of writes, each
  followed by \<^verbatim>\<open>if err != nil { return err }\<close>, stops at the first error.
\<close>

fun write_seq :: "('w \<Rightarrow> bytes \<Rightarrow> goerr option \<times> 'w) \<Rightarrow> 'w \<Rightarrow> bytes list \<Rightarrow> goerr option \<times> 'w" where
  "write_seq wr w [] = (None, w)"
| "write_seq wr w (c # cs) = (case wr w c of
      (Some e, w') \<Rightarrow> (Some e, w')
    | (None, w') \<Rightarrow> write_seq wr w' cs)"

locale byte_writer =
  fixes wr :: "'w \<Rightarrow> bytes \<Rightarrow> goerr option \<times> 'w" and out :: "'w \<Rightarrow> bytes"
  assumes write_appends: "\<exists>w'. wr w bs = (None, w') \<and> out w' = out w @ bs"
begin

lemma write_seq_appends: "\<exists>w'. write_seq wr w cs = (None, w') \<and> out w' = out w @ concat cs"
proof (induction cs arbitrary: w)
  case Nil
  then show ?case by simp
next
  case (Cons c cs)
  obtain w' where w': "wr w c = (None, w')" "out w' = out w @ c"
    using write_appends by blast
  with Cons [of w'] show ?case by auto
qed

end

definition buffer_write :: "bytes \<Rightarrow> bytes \<Rightarrow> goerr option \<times> bytes" where
  "buffer_write w bs = (None, w @ bs)"

interpretation buffer_out: byte_writer buffer_write "\<lambda>w. w"
  by unfold_locales (simp add: buffer_write_def)

end
