(* ===== verification/Util.thy ===== *)
theory Util
  imports GoRuntime
begin

text \<open>
  \<^verbatim>\<open>util/\<close>: the casts between strings and byte slices, the copying of metadata maps, and the
  gzip wrappers. The casts of \<^verbatim>\<open>util/converter.go\<close> share memory with their argument; the model
  has their value at the time of the cast. The library \<^verbatim>\<open>compress/gzip\<close> is a parameter
  (\<open>gzip_lib\<close>) with its documented behaviour as a named predicate.
\<close>

section \<open>Casts\<close>

definition byte_of_char :: "char \<Rightarrow> byte" where
  "byte_of_char c = word_of_nat (of_char c)"

definition char_of_byte :: "byte \<Rightarrow> char" where
  "char_of_byte b = char_of (unat b)"

definition StringToSliceByte :: "string \<Rightarrow> bytes" where
  "StringToSliceByte s = map byte_of_char s"

definition SliceByteToString :: "bytes \<Rightarrow> string" where
  "SliceByteToString b = map char_of_byte b"

lemma char_of_byte_of_char [simp]: "char_of_byte (byte_of_char c) = c"
  using nat_of_char_less_256 [of c]
  by (simp add: char_of_byte_def byte_of_char_def unat_of_nat)

lemma byte_of_char_of_byte [simp]: "byte_of_char (char_of_byte b) = b"
  using unsigned_less [of b, where 'a = nat]
  by (simp add: char_of_byte_def byte_of_char_def)

lemma SliceByteToString_StringToSliceByte [simp]: "SliceByteToString (StringToSliceByte s) = s"
  by (simp add: StringToSliceByte_def SliceByteToString_def o_def)

lemma StringToSliceByte_SliceByteToString [simp]: "StringToSliceByte (SliceByteToString b) = b"
  by (simp add: StringToSliceByte_def SliceByteToString_def o_def)

lemma length_StringToSliceByte [simp]: "length (StringToSliceByte s) = length s"
  by (simp add: StringToSliceByte_def)

section \<open>CopyMeta\<close>

text \<open>A nil destination is left alone; otherwise every entry of the source is stored.\<close>

definition CopyMeta :: "smap \<Rightarrow> smap option \<Rightarrow> smap option" where
  "CopyMeta src dst = (case dst of
       None \<Rightarrow> None
     | Some d \<Rightarrow> Some (fold (\<lambda>(k, v) m. smap_put k v m) src d))"

lemma CopyMeta_spec:
  "smap_wf src \<Longrightarrow> CopyMeta src (Some d) = Some d' \<Longrightarrow> map_of d' = map_of d ++ map_of src"
  by (auto simp: CopyMeta_def smap_wf_def map_of_fold_put)

section \<open>gzip\<close>

text \<open>
  The writer starts on an empty buffer; \<^verbatim>\<open>Write\<close>, \<^verbatim>\<open>Flush\<close> and \<^verbatim>\<open>Close\<close> return an error and
  the writer. \<^verbatim>\<open>NewReader\<close> reads the gzip header and may fail; \<^verbatim>\<open>ReadAll\<close> inflates.
\<close>

record ('w, 'r) gzip_lib =
  gzw_new :: 'w
  gzw_write :: "bytes \<Rightarrow> 'w \<Rightarrow> goerr option \<times> 'w"
  gzw_flush :: "'w \<Rightarrow> goerr option \<times> 'w"
  gzw_close :: "'w \<Rightarrow> goerr option \<times> 'w"
  gzw_buf :: "'w \<Rightarrow> bytes"
  gzr_new :: "bytes \<Rightarrow> goerr + 'r"
  gzr_readall :: "'r \<Rightarrow> goerr + bytes"

definition Unzip :: "('w, 'r) gzip_lib \<Rightarrow> bytes \<Rightarrow> bytes \<times> goerr option" where
  "Unzip gz data = (case gzr_new gz data of
       Inl err \<Rightarrow> ([], Some err)
     | Inr gr \<Rightarrow> (case gzr_readall gz gr of
           Inl err \<Rightarrow> ([], Some err)
         | Inr data \<Rightarrow> (data, None)))"

definition Zip :: "('w, 'r) gzip_lib \<Rightarrow> bytes \<Rightarrow> bytes \<times> goerr option" where
  "Zip gz data = (case gzw_write gz data (gzw_new gz) of
       (Some err, w) \<Rightarrow> ([], Some err)
     | (None, w) \<Rightarrow> (case gzw_flush gz w of
           (Some err, w) \<Rightarrow> ([], Some err)
         | (None, w) \<Rightarrow> (case gzw_close gz w of
               (Some err, w) \<Rightarrow> ([], Some err)
             | (None, w) \<Rightarrow> (gzw_buf gz w, None))))"

text \<open>
  The documented behaviour: a reader on what a closed writer produced yields the bytes written.
\<close>

definition gzip_documented :: "('w, 'r) gzip_lib \<Rightarrow> bool" where
  "gzip_documented gz \<longleftrightarrow>
     (\<forall>data w1 w2 w3.
        gzw_write gz data (gzw_new gz) = (None, w1) \<longrightarrow> gzw_flush gz w1 = (None, w2) \<longrightarrow>
        gzw_close gz w2 = (None, w3) \<longrightarrow>
        (\<exists>gr. gzr_new gz (gzw_buf gz w3) = Inr gr \<and> gzr_readall gz gr = Inr data))"

lemma Unzip_Zip:
  assumes "gzip_documented gz" "Zip gz x = (y, None)"
  shows "Unzip gz y = (x, None)"
  using assms unfolding gzip_documented_def
  by (fastforce simp: Zip_def Unzip_def split: prod.splits option.splits)

text \<open>A store-only library (one marker byte, then the data) that behaves as documented.\<close>

definition stored_gzip :: "(bytes, bytes) gzip_lib" where
  "stored_gzip = \<lparr>gzw_new = [], gzw_write = (\<lambda>data w. (None, 0x1F # data)),
     gzw_flush = (\<lambda>w. (None, w)), gzw_close = (\<lambda>w. (None, w)), gzw_buf = (\<lambda>w. w),
     gzr_new = (\<lambda>b. case b of [] \<Rightarrow> Inl EOF | x # xs \<Rightarrow> Inr xs),
     gzr_readall = (\<lambda>r. Inr r)\<rparr>"

lemma stored_gzip_documented: "gzip_documented stored_gzip"
  by (simp add: gzip_documented_def stored_gzip_def)

end
