(* ===== verification/Message.thy ===== *)
theory Message
  imports Header Util
begin

text \<open>
  \<^verbatim>\<open>protocol/message.go\<close> and \<^verbatim>\<open>protocol/compressor.go\<close>: the message record, the encoder that
  writes into one preallocated buffer (\<open>Encode\<close>), the streaming encoder (\<open>WriteTo\<close>), the metadata
  codec, the decoder over any \<^verbatim>\<open>io.Reader\<close> (\<open>Decode\<close>), and \<open>Clone\<close> and \<open>Reset\<close>. \<open>None\<close> in the
  result of a decoding function is a run-time panic (a slice bound).
\<close>

section \<open>Compressors\<close>

record compressor =
  cZip :: "bytes \<Rightarrow> bytes \<times> goerr option"
  cUnzip :: "bytes \<Rightarrow> bytes \<times> goerr option"

type_synonym compressors = "byte \<Rightarrow> compressor option"

definition RawDataCompressor :: compressor where
  "RawDataCompressor = \<lparr>cZip = (\<lambda>data. (data, None)), cUnzip = (\<lambda>data. (data, None))\<rparr>"

definition GzipCompressor :: "('w, 'r) gzip_lib \<Rightarrow> compressor" where
  "GzipCompressor gz = \<lparr>cZip = Zip gz, cUnzip = Unzip gz\<rparr>"

text \<open>The package variable \<^verbatim>\<open>Compressors\<close> as it is initialised.\<close>

definition Compressors :: "('w, 'r) gzip_lib \<Rightarrow> compressors" where
  "Compressors gz = [NoCompress \<mapsto> RawDataCompressor, Gzip \<mapsto> GzipCompressor gz]"

text \<open>What the code relies on: what \<^verbatim>\<open>Zip\<close> produced without an error, \<^verbatim>\<open>Unzip\<close> gives back.\<close>

locale compressor_contract =
  fixes deflate :: "bytes \<Rightarrow> bytes \<times> goerr option"
    and inflate :: "bytes \<Rightarrow> bytes \<times> goerr option"
  assumes inflate_deflate: "deflate x = (y, None) \<Longrightarrow> inflate y = (x, None)"
begin

lemma deflate_inject: "deflate x = (y, None) \<Longrightarrow> deflate x' = (y, None) \<Longrightarrow> x = x'"
  using inflate_deflate [of x y] inflate_deflate [of x' y] by simp

end

interpretation raw: compressor_contract "cZip RawDataCompressor" "cUnzip RawDataCompressor"
  by unfold_locales (simp add: RawDataCompressor_def)

definition compressors_ok :: "compressors \<Rightarrow> bool" where
  "compressors_ok comps \<longleftrightarrow>
     (\<forall>ct c. comps ct = Some c \<longrightarrow> compressor_contract (cZip c) (cUnzip c))"

lemma compressors_ok_default: "gzip_documented gz \<Longrightarrow> compressors_ok (Compressors gz)"
  using raw.compressor_contract_axioms
  by (auto simp: compressors_ok_def Compressors_def GzipCompressor_def compressor_contract_def
      Unzip_Zip split: if_splits)

section \<open>The message\<close>

record message =
  mheader :: header
  ServicePath :: string
  ServiceMethod :: string
  Metadata :: "smap option"
  Payload :: bytes
  mdata :: slice

definition NewMessage :: message where
  "NewMessage = \<lparr>mheader = new_header, ServicePath = '''', ServiceMethod = '''',
     Metadata = None, Payload = [], mdata = make_slice 0\<rparr>"

definition msg_wf :: "message \<Rightarrow> bool" where
  "msg_wf m \<longleftrightarrow> hdr_wf (mheader m) \<and> slice_wf (mdata m) \<and> slo (mdata m) = 0 \<and>
     (\<forall>kvs. Metadata m = Some kvs \<longrightarrow> smap_wf kvs)"

text \<open>
  \<open>Clone\<close> takes a message from the pool (\<open>pooled\<close>), gives it a copy of the header without the
  compression flag, and the two names.
\<close>

definition Clone :: "message \<Rightarrow> message \<Rightarrow> message" where
  "Clone m pooled = pooled\<lparr>mheader := SetCompressType NoCompress (mheader m),
     ServicePath := ServicePath m, ServiceMethod := ServiceMethod m\<rparr>"

text \<open>\<open>Reset\<close> keeps the allocated array: \<^verbatim>\<open>m.data = m.data[:0]\<close>.\<close>

definition Reset :: "message \<Rightarrow> message" where
  "Reset m = m\<lparr>mheader := resetHeader (mheader m), Metadata := None, Payload := [],
     mdata := (mdata m)\<lparr>shi := slo (mdata m)\<rparr>, ServicePath := '''', ServiceMethod := ''''\<rparr>"

section \<open>Encoding\<close>

definition encode_entry :: "string \<times> string \<Rightarrow> bytes" where
  "encode_entry kv = (case kv of (k, v) \<Rightarrow>
     be_put32 (word_of_nat (length k)) @ StringToSliceByte k @
     be_put32 (word_of_nat (length v)) @ StringToSliceByte v)"

definition encodeMetadata :: "smap option \<Rightarrow> bytes" where
  "encodeMetadata m = (case m of None \<Rightarrow> [] | Some kvs \<Rightarrow> concat (map encode_entry kvs))"

text \<open>
  The choice of the payload in \<open>Encode\<close>: an unknown compressor or a failing one clears the
  compression flag of the message's own header and sends the payload as it is.
\<close>

definition encode_payload :: "compressors \<Rightarrow> message \<Rightarrow> header \<times> bytes" where
  "encode_payload comps m =
     (if CompressType (mheader m) \<noteq> NoCompress then
        (case comps (CompressType (mheader m)) of
           None \<Rightarrow> (SetCompressType NoCompress (mheader m), Payload m)
         | Some c \<Rightarrow> (case cZip c (Payload m) of
              (payload, Some err) \<Rightarrow> (SetCompressType NoCompress (mheader m), Payload m)
            | (payload, None) \<Rightarrow> (mheader m, payload)))
      else (mheader m, Payload m))"

definition Encode :: "compressors \<Rightarrow> message \<Rightarrow> message \<times> bytes" where
  "Encode comps m =
    (let meta = encodeMetadata (Metadata m);
         spL = length (ServicePath m);
         smL = length (ServiceMethod m);
         (h, payload) = encode_payload comps m;
         totalL = (4 + spL) + (4 + smL) + (4 + length meta) + (4 + length payload);
         metaStart = 12 + 4 + (4 + spL) + (4 + smL);
         payLoadStart = metaStart + (4 + length meta);
         l = 12 + 4 + totalL;
         data = replicate l 0;
         data = gocopy data 0 l h;
         data = blit data 12 (be_put32 (word_of_nat totalL));
         data = blit data 16 (be_put32 (word_of_nat spL));
         data = gocopy data 20 (20 + spL) (StringToSliceByte (ServicePath m));
         data = blit data (20 + spL) (be_put32 (word_of_nat smL));
         data = gocopy data (24 + spL) metaStart (StringToSliceByte (ServiceMethod m));
         data = blit data metaStart (be_put32 (word_of_nat (length meta)));
         data = gocopy data (metaStart + 4) l meta;
         data = blit data payLoadStart (be_put32 (word_of_nat (length payload)));
         data = gocopy data (payLoadStart + 4) l payload
     in (m\<lparr>mheader := h\<rparr>, data))"

text \<open>
  \<open>WriteTo\<close> writes the header before it looks at the compressor, and an unknown or failing
  compressor is an error.
\<close>

definition WriteTo ::
  "('w \<Rightarrow> bytes \<Rightarrow> goerr option \<times> 'w) \<Rightarrow> compressors \<Rightarrow> message \<Rightarrow> 'w \<Rightarrow> goerr option \<times> 'w" where
  "WriteTo wr comps m w = (case wr w (mheader m) of
       (Some err, w) \<Rightarrow> (Some err, w)
     | (None, w) \<Rightarrow>
        (let meta = encodeMetadata (Metadata m);
             spL = length (ServicePath m);
             smL = length (ServiceMethod m);
             zipped = (if CompressType (mheader m) \<noteq> NoCompress then
                 (case comps (CompressType (mheader m)) of
                    None \<Rightarrow> ([], Some ErrUnsupportedCompressor)
                  | Some c \<Rightarrow> cZip c (Payload m))
               else (Payload m, None))
         in case zipped of
              (payload, Some err) \<Rightarrow> (Some err, w)
            | (payload, None) \<Rightarrow>
                write_seq wr w
                  [be_put32 (word_of_nat ((4 + spL) + (4 + smL) + (4 + length meta) + (4 + length payload))),
                   be_put32 (word_of_nat (length (ServicePath m))), StringToSliceByte (ServicePath m),
                   be_put32 (word_of_nat (length (ServiceMethod m))), StringToSliceByte (ServiceMethod m),
                   be_put32 (word_of_nat (length meta)), meta,
                   be_put32 (word_of_nat (length payload)), payload]))"

section \<open>Decoding\<close>

text \<open>
  One round of the loop of \<open>decodeMetadata\<close>, in \<^verbatim>\<open>uint32\<close> arithmetic as written: the additions
  wrap, and so does \<^verbatim>\<open>l-4\<close> for an \<open>l\<close> below 4.
\<close>

definition decode_entry :: "u32 \<Rightarrow> slice \<Rightarrow> u32 \<Rightarrow> (goerr + string \<times> string \<times> u32) option" where
  "decode_entry l data n = do {
     sl \<leftarrow> slice_sub32 data (unat n) (unat (n + 4));
     let n = n + 4;
     if n + sl > l - 4 then Some (Inl ErrMetaKVMissing) else do {
       k \<leftarrow> slice_sub data (unat n) (unat (n + sl));
       let n = n + sl;
       sl \<leftarrow> slice_sub32 data (unat n) (unat (n + 4));
       let n = n + 4;
       if n + sl > l then Some (Inl ErrMetaKVMissing) else do {
         v \<leftarrow> slice_sub data (unat n) (unat (n + sl));
         Some (Inr (SliceByteToString k, SliceByteToString v, n + sl))
       }
     }
   }"

lemma slice_sub32_SomeD: "slice_sub32 s i j = Some v \<Longrightarrow> i + 4 \<le> j"
  by (auto simp: slice_sub32_def reslice_def slice_uint32_def slice_len_def bind_eq_Some_conv
      split: if_splits)

lemma slice_sub_SomeD: "slice_sub s i j = Some v \<Longrightarrow> i \<le> j"
  by (auto simp: slice_sub_def reslice_def split: if_splits)

text \<open>A round that finds an entry moves forward, whatever the lengths claim: a wrapped end panics.\<close>

lemma decode_entry_progress:
  "decode_entry l data n = Some (Inr (k, v, n')) \<Longrightarrow> unat n + 8 \<le> unat n'"
  by (auto simp: decode_entry_def bind_eq_Some_conv Let_def
      dest!: slice_sub32_SomeD slice_sub_SomeD split: if_splits)

function decodeMetadata_loop ::
  "u32 \<Rightarrow> slice \<Rightarrow> u32 \<Rightarrow> smap \<Rightarrow> (smap \<times> goerr option) option" where
  "decodeMetadata_loop l data n m =
     (if n < l then
        (case decode_entry l data n of
           None \<Rightarrow> None
         | Some res \<Rightarrow> (case res of
             Inl err \<Rightarrow> Some (m, Some err)
           | Inr (k, v, n') \<Rightarrow> decodeMetadata_loop l data n' (smap_put k v m)))
      else Some (m, None))"
  by pat_completeness auto
termination
proof (relation "measure (\<lambda>(l, data, n, m). 2 ^ 32 - unat n)", goal_cases)
  case 1
  show ?case by simp
next
  case (2 l data n m res y k z v n')
  then have "unat n + 8 \<le> unat n'" using decode_entry_progress [of l data n k v n'] by simp
  moreover have "unat n' < 2 ^ 32" using unsigned_less [of n', where 'a = nat] by simp
  ultimately show ?case by simp
qed

declare decodeMetadata_loop.simps [simp del]

definition decodeMetadata :: "u32 \<Rightarrow> slice \<Rightarrow> (smap \<times> goerr option) option" where
  "decodeMetadata l data = decodeMetadata_loop l data 0 []"

text \<open>Decompression at the end of \<open>Decode\<close>.\<close>

definition decode_payload :: "compressors \<Rightarrow> message \<Rightarrow> message \<times> goerr option" where
  "decode_payload comps m =
     (if CompressType (mheader m) \<noteq> NoCompress then
        (case comps (CompressType (mheader m)) of
           None \<Rightarrow> (m, Some ErrUnsupportedCompressor)
         | Some c \<Rightarrow> (case cUnzip c (Payload m) of (p, err) \<Rightarrow> (m\<lparr>Payload := p\<rparr>, err)))
      else (m, None))"

text \<open>
  The part of \<open>Decode\<close> after the body has been read into \<open>data\<close>: names, metadata, payload. The
  length of the payload is read and ignored: the payload is the rest of the body.
\<close>

definition decode_fields :: "compressors \<Rightarrow> message \<Rightarrow> slice \<Rightarrow> (message \<times> goerr option) option" where
  "decode_fields comps m data = do {
     l \<leftarrow> slice_sub32 data 0 4;
     let n = 4; let nEnd = n + unat l;
     sp \<leftarrow> slice_sub data n nEnd;
     let m = m\<lparr>ServicePath := SliceByteToString sp\<rparr>; let n = nEnd;
     l \<leftarrow> slice_sub32 data n (n + 4);
     let n = n + 4; let nEnd = n + unat l;
     sm \<leftarrow> slice_sub data n nEnd;
     let m = m\<lparr>ServiceMethod := SliceByteToString sm\<rparr>; let n = nEnd;
     l \<leftarrow> slice_sub32 data n (n + 4);
     let n = n + 4; let nEnd = n + unat l;
     (m, err) \<leftarrow> (if l > 0 then do {
         sub \<leftarrow> reslice data n nEnd;
         (md, err) \<leftarrow> decodeMetadata l sub;
         Some (m\<lparr>Metadata := Some md\<rparr>, err)
       } else Some (m, None));
     if err \<noteq> None then Some (m, err) else do {
       let n = nEnd;
       _ \<leftarrow> slice_sub32 data n (n + 4);
       let n = n + 4;
       p \<leftarrow> slice_sub_from data n;
       Some (decode_payload comps (m\<lparr>Payload := p\<rparr>))
     }
   }"

text \<open>\<^verbatim>\<open>m.data\<close> is reused when its capacity suffices; the old bytes stay in the array.\<close>

definition body_slice :: "slice \<Rightarrow> nat \<Rightarrow> slice" where
  "body_slice d totalL =
     (if totalL \<le> slice_cap d then d\<lparr>shi := slo d + totalL\<rparr> else make_slice totalL)"

text \<open>\<open>Decode\<close> in three stretches: the body, of a known length; the total length; the header.\<close>

definition Decode_body ::
  "('r \<Rightarrow> nat \<Rightarrow> bytes \<times> goerr option \<times> 'r) \<Rightarrow> compressors \<Rightarrow> message \<Rightarrow> nat \<Rightarrow> 'r
     \<Rightarrow> (message \<times> goerr option \<times> 'r) option" where
  "Decode_body readfull comps m totalL r =
    (let d = body_slice (mdata m) totalL in
     (case readfull r totalL of (b, err, r) \<Rightarrow>
     let d = d\<lparr>smem := blit (smem d) (slo d) b\<rparr>; m = m\<lparr>mdata := d\<rparr> in
     if err \<noteq> None then Some (m, err, r)
     else (case decode_fields comps m d of
             None \<Rightarrow> None
           | Some (m, err) \<Rightarrow> Some (m, err, r))))"

definition Decode_total ::
  "('r \<Rightarrow> nat \<Rightarrow> bytes \<times> goerr option \<times> 'r) \<Rightarrow> compressors \<Rightarrow> int \<Rightarrow> message \<Rightarrow> 'r
     \<Rightarrow> (message \<times> goerr option \<times> 'r) option" where
  "Decode_total readfull comps MaxMessageLength m r =
    (case readfull r 4 of (lenData, err, r) \<Rightarrow>
     if err \<noteq> None then Some (m, err, r)
     else let l = be_get32 lenData in
     if MaxMessageLength > 0 \<and> int (unat l) > MaxMessageLength
     then Some (m, Some ErrMessageTooLong, r)
     else Decode_body readfull comps m (unat l) r)"

definition Decode ::
  "('r \<Rightarrow> nat \<Rightarrow> bytes \<times> goerr option \<times> 'r) \<Rightarrow> compressors \<Rightarrow> int \<Rightarrow> message \<Rightarrow> 'r
     \<Rightarrow> (message \<times> goerr option \<times> 'r) option" where
  "Decode readfull comps MaxMessageLength m r =
    (case readfull r 1 of (b, err, r) \<Rightarrow>
     let m = m\<lparr>mheader := blit (mheader m) 0 b\<rparr> in
     if err \<noteq> None then Some (m, err, r)
     else if \<not> CheckMagicNumber (mheader m) then Some (m, Some (WrongMagic (mheader m ! 0)), r)
     else (case readfull r 11 of (b, err, r) \<Rightarrow>
     let m = m\<lparr>mheader := blit (mheader m) 1 b\<rparr> in
     if err \<noteq> None then Some (m, err, r)
     else Decode_total readfull comps MaxMessageLength m r))"

text \<open>\<^verbatim>\<open>Read\<close>: a fresh message, dropped on an error.\<close>

definition Read ::
  "('r \<Rightarrow> nat \<Rightarrow> bytes \<times> goerr option \<times> 'r) \<Rightarrow> compressors \<Rightarrow> int \<Rightarrow> 'r
     \<Rightarrow> (message option \<times> goerr option \<times> 'r) option" where
  "Read readfull comps MaxMessageLength r =
    (case Decode readfull comps MaxMessageLength NewMessage r of
       None \<Rightarrow> None
     | Some (msg, err, r) \<Rightarrow>
         Some (if err \<noteq> None then (None, err, r) else (Some msg, None, r)))"

end
