(* ===== verification/Wire.thy ===== *)
theory Wire
  imports Message
begin

text \<open>
  The wire format. \<open>frame\<close> is the abstract specification of one message on the wire: header, total
  length, then four length-prefixed parts. Both encoders refine it, and the decoder inverts it over
  every reader that keeps the \<open>byte_reader\<close> contract.
\<close>

lemma append_take_drop_assoc: "take n xs @ drop n xs @ ys = xs @ ys"
  by (metis append.assoc append_take_drop_id)

section \<open>The frame of a message\<close>

definition part :: "bytes \<Rightarrow> bytes" where
  "part bs = be_put32 (word_of_nat (length bs)) @ bs"

definition frame_body :: "string \<Rightarrow> string \<Rightarrow> bytes \<Rightarrow> bytes \<Rightarrow> bytes" where
  "frame_body sp sm meta payload =
     part (StringToSliceByte sp) @ part (StringToSliceByte sm) @ part meta @ part payload"

definition frame :: "header \<Rightarrow> string \<Rightarrow> string \<Rightarrow> bytes \<Rightarrow> bytes \<Rightarrow> bytes" where
  "frame h sp sm meta payload = h @ part (frame_body sp sm meta payload)"

lemma length_part [simp]: "length (part bs) = 4 + length bs"
  by (simp add: part_def)

lemma length_frame_body [simp]:
  "length (frame_body sp sm meta payload) =
     (4 + length sp) + (4 + length sm) + (4 + length meta) + (4 + length payload)"
  by (simp add: frame_body_def)

lemma length_frame:
  "hdr_wf h \<Longrightarrow> length (frame h sp sm meta payload) = 16 + length (frame_body sp sm meta payload)"
  by (simp add: frame_def hdr_wf_def)

section \<open>The encoders produce frames\<close>

lemma hdr_wf_encode_payload [simp]:
  "hdr_wf (mheader m) \<Longrightarrow> hdr_wf (fst (encode_payload comps m))"
  by (auto simp: encode_payload_def split: option.splits prod.splits)

lemma Encode_frame:
  assumes "hdr_wf (mheader m)"
  shows "snd (Encode comps m) =
    frame (fst (encode_payload comps m)) (ServicePath m) (ServiceMethod m)
      (encodeMetadata (Metadata m)) (snd (encode_payload comps m))"
proof -
  obtain h payload where hp: "encode_payload comps m = (h, payload)" by fastforce
  then have h: "length h = 12" using hdr_wf_encode_payload [OF assms, of comps] by (simp add: hdr_wf_def)
  have start: "gocopy (replicate n 0) 0 n h = h @ replicate (n - 12) 0" if "12 \<le> n" for n
    using gocopy_next [of 0 "[]" h n n] h that by simp
  show ?thesis
    by (simp add: Encode_def hp Let_def start h blit_next gocopy_next frame_def part_def
        frame_body_def del: append_assoc replicate_add)
qed

lemma Encode_message:
  "fst (Encode comps m) = m\<lparr>mheader := fst (encode_payload comps m)\<rparr>"
  by (simp add: Encode_def Let_def split: prod.splits)

text \<open>When the compressor is known and succeeds, \<open>encode_payload\<close> leaves the header alone.\<close>

definition zips :: "compressors \<Rightarrow> message \<Rightarrow> bool" where
  "zips comps m \<longleftrightarrow> CompressType (mheader m) = NoCompress \<or>
     (\<exists>c y. comps (CompressType (mheader m)) = Some c \<and> cZip c (Payload m) = (y, None))"

lemma encode_payload_zips:
  "zips comps m \<Longrightarrow> fst (encode_payload comps m) = mheader m"
  by (auto simp: zips_def encode_payload_def)

lemma encode_payload_not_zips:
  "\<not> zips comps m \<Longrightarrow>
   encode_payload comps m = (SetCompressType NoCompress (mheader m), Payload m)"
  by (auto simp: zips_def encode_payload_def split: option.splits prod.splits)

context byte_writer
begin

lemma WriteTo_zips:
  assumes "hdr_wf (mheader m)" "zips comps m"
  shows "\<exists>w'. WriteTo wr comps m w = (None, w') \<and> out w' = out w @ snd (Encode comps m)"
proof -
  let ?meta = "encodeMetadata (Metadata m)"
  obtain payload where ep: "encode_payload comps m = (mheader m, payload)"
    using encode_payload_zips [OF assms(2)] by (metis prod.collapse)
  obtain w1 where w1: "wr w (mheader m) = (None, w1)" "out w1 = out w @ mheader m"
    using write_appends by blast
  let ?parts = "[be_put32 (word_of_nat ((4 + length (ServicePath m)) + (4 + length (ServiceMethod m)) +
        (4 + length ?meta) + (4 + length payload))),
      be_put32 (word_of_nat (length (ServicePath m))), StringToSliceByte (ServicePath m),
      be_put32 (word_of_nat (length (ServiceMethod m))), StringToSliceByte (ServiceMethod m),
      be_put32 (word_of_nat (length ?meta)), ?meta,
      be_put32 (word_of_nat (length payload)), payload]"
  obtain w2 where w2: "write_seq wr w1 ?parts = (None, w2)" "out w2 = out w1 @ concat ?parts"
    using write_seq_appends by blast
  have "WriteTo wr comps m w = (None, w2)"
    using assms(2) ep w1(1) w2(1)
    by (auto simp: WriteTo_def encode_payload_def zips_def Let_def)
  moreover have "out w2 = out w @ snd (Encode comps m)"
    using w1(2) w2(2) by (simp add: Encode_frame [OF assms(1)] ep frame_def part_def frame_body_def)
  ultimately show ?thesis by blast
qed

lemma WriteTo_not_zips:
  assumes "\<not> zips comps m"
  shows "\<exists>w' e. WriteTo wr comps m w = (Some e, w') \<and> out w' = out w @ mheader m"
proof -
  obtain w1 where w1: "wr w (mheader m) = (None, w1)" "out w1 = out w @ mheader m"
    using write_appends by blast
  have ct: "CompressType (mheader m) \<noteq> NoCompress" using assms by (simp add: zips_def)
  show ?thesis
  proof (cases "comps (CompressType (mheader m))")
    case None
    with ct w1 show ?thesis by (simp add: WriteTo_def Let_def)
  next
    case (Some c)
    obtain y e where "cZip c (Payload m) = (y, Some e)"
      using assms Some ct by (cases "cZip c (Payload m)") (auto simp: zips_def)
    with Some ct w1 show ?thesis by (simp add: WriteTo_def Let_def)
  qed
qed

end

section \<open>Metadata survives the wire\<close>

definition wire_size :: "smap \<Rightarrow> nat" where
  "wire_size kvs = length (encodeMetadata (Some kvs))"

lemma length_encode_entry [simp]:
  "length (encode_entry (k, v)) = 8 + length k + length v"
  by (simp add: encode_entry_def)

lemma encodeMetadata_Cons:
  "encodeMetadata (Some ((k, v) # kvs)) = encode_entry (k, v) @ encodeMetadata (Some kvs)"
  by (simp add: encodeMetadata_def)

lemma encodeMetadata_Nil [simp]: "encodeMetadata (Some []) = []"
  by (simp add: encodeMetadata_def)

lemma unat_of_nat32: "n < 2 ^ 32 \<Longrightarrow> unat (word_of_nat n :: u32) = n"
  by (simp add: unat_of_nat)

lemma of_nat32_less: "i < j \<Longrightarrow> j < 2 ^ 32 \<Longrightarrow> (word_of_nat i :: u32) < word_of_nat j"
  by (simp only: word_less_nat_alt unat_of_nat32)

text \<open>One round on an entry that stands in the slice.\<close>

lemma decode_entry_at:
  assumes wf: "slice_wf s" and bytes: "slice_bytes s = pre @ encode_entry (k, v) @ post"
    and n: "n = word_of_nat (length pre)" and l: "l = word_of_nat (length (slice_bytes s))"
    and small: "length (slice_bytes s) < 2 ^ 32"
  shows "decode_entry l s n =
    Some (Inr (k, v, word_of_nat (length (pre @ encode_entry (k, v)))))"
proof -
  let ?k = "StringToSliceByte k" and ?v = "StringToSliceByte v"
  let ?lk = "word_of_nat (length k) :: u32" and ?lv = "word_of_nat (length v) :: u32"
  have total: "length (slice_bytes s) = length pre + 8 + length k + length v + length post"
    using bytes by simp
  have un: "unat (word_of_nat i :: u32) = i" if "i \<le> length (slice_bytes s)" for i
    using that small by (intro unat_of_nat32) simp
  have r1: "slice_sub32 s (length pre) (length pre + 4) = Some ?lk"
    using bytes by (intro slice_sub32_at [OF wf, of pre _ "?k @ be_put32 ?lv @ ?v @ post"])
      (simp_all add: encode_entry_def)
  have r2: "slice_sub s (length pre + 4) (length pre + 4 + length k) = Some ?k"
    using bytes by (intro slice_sub_at [OF wf, of "pre @ be_put32 ?lk" _ "be_put32 ?lv @ ?v @ post"])
      (simp_all add: encode_entry_def)
  have r3: "slice_sub32 s (length pre + 4 + length k) (length pre + 8 + length k) = Some ?lv"
    using bytes by (intro slice_sub32_at [OF wf, of "pre @ be_put32 ?lk @ ?k" _ "?v @ post"])
      (simp_all add: encode_entry_def)
  have r4: "slice_sub s (length pre + 8 + length k) (length pre + 8 + length k + length v) = Some ?v"
    using bytes by (intro slice_sub_at [OF wf, of "pre @ be_put32 ?lk @ ?k @ be_put32 ?lv" _ post])
      (simp_all add: encode_entry_def)
  have n1: "n + 4 = word_of_nat (length pre + 4)" by (simp add: n)
  have n2: "n + 4 + ?lk = word_of_nat (length pre + 4 + length k)" by (simp add: n1)
  have n3: "n + 4 + ?lk + 4 = word_of_nat (length pre + 8 + length k)" by (simp add: n)
  have n4: "n + 4 + ?lk + 4 + ?lv = word_of_nat (length pre + 8 + length k + length v)"
    by (simp add: n)
  have l4: "l - 4 = word_of_nat (length (slice_bytes s) - 4)" using total by (simp add: l of_nat_diff)
  have ul: "unat l = length (slice_bytes s)" "unat (l - 4) = length (slice_bytes s) - 4"
    unfolding l4 unfolding l by (rule un, simp)+
  have u0: "unat n = length pre" unfolding n by (rule un) (simp add: total)
  have u1: "unat (n + 4) = length pre + 4" unfolding n1 by (rule un) (simp add: total)
  have u2: "unat (n + 4 + ?lk) = length pre + 4 + length k"
    unfolding n2 by (rule un) (simp add: total)
  have u3: "unat (n + 4 + ?lk + 4) = length pre + 8 + length k"
    unfolding n3 by (rule un) (simp add: total)
  have u4: "unat (n + 4 + ?lk + 4 + ?lv) = length pre + 8 + length k + length v"
    unfolding n4 by (rule un) (simp add: total)
  note u = u0 u1 u2 u3 u4
  have g1: "\<not> n + 4 + ?lk > l - 4" and g2: "\<not> n + 4 + ?lk + 4 + ?lv > l"
    using total by (simp_all only: word_less_nat_alt u ul)
  have fin: "word_of_nat (length (pre @ encode_entry (k, v))) = n + 4 + ?lk + 4 + ?lv"
    by (simp add: n algebra_simps)
  show ?thesis
    using g1 g2
    by (simp only: decode_entry_def Let_def fin u r1 r2 r3 r4 Option.bind.simps if_False
        SliceByteToString_StringToSliceByte)
qed

lemma decodeMetadata_loop_at:
  assumes "slice_wf s" "slice_bytes s = pre @ encodeMetadata (Some kvs)"
    "l = word_of_nat (length (slice_bytes s))" "length (slice_bytes s) < 2 ^ 32"
    "smap_wf (m @ kvs)"
  shows "decodeMetadata_loop l s (word_of_nat (length pre)) m = Some (m @ kvs, None)"
  using assms
proof (induction kvs arbitrary: pre m)
  case Nil
  then show ?case by (simp add: decodeMetadata_loop.simps)
next
  case (Cons kv kvs)
  obtain k v where kv: "kv = (k, v)" by (cases kv)
  have bytes: "slice_bytes s = pre @ encode_entry (k, v) @ encodeMetadata (Some kvs)"
    using Cons.prems(2) by (simp add: kv encodeMetadata_Cons)
  have step: "decode_entry l s (word_of_nat (length pre)) =
      Some (Inr (k, v, word_of_nat (length (pre @ encode_entry (k, v)))))"
    using Cons.prems bytes by (intro decode_entry_at [of s pre k v "encodeMetadata (Some kvs)"]) auto
  have lt: "word_of_nat (length pre) < l"
    unfolding Cons.prems(3) using bytes Cons.prems(4)
    by (intro of_nat32_less) simp_all
  have "k \<notin> fst ` set m" using Cons.prems(5) by (auto simp: smap_wf_def kv)
  then have put: "smap_put k v m = m @ [(k, v)]" by (rule smap_put_fresh)
  have "decodeMetadata_loop l s (word_of_nat (length (pre @ encode_entry (k, v)))) (m @ [(k, v)])
      = Some ((m @ [(k, v)]) @ kvs, None)"
    using Cons.prems bytes by (intro Cons.IH) (auto simp: kv)
  then show ?case
    by (subst decodeMetadata_loop.simps) (simp add: lt step put kv)
qed

lemma decodeMetadata_encode:
  assumes "slice_wf s" "slice_bytes s = encodeMetadata (Some kvs)"
    "length (slice_bytes s) < 2 ^ 32" "smap_wf kvs"
  shows "decodeMetadata (word_of_nat (length (slice_bytes s))) s = Some (kvs, None)"
  using decodeMetadata_loop_at [of s "[]" kvs] assms by (simp add: decodeMetadata_def)

section \<open>The decoder inverts the frame\<close>

text \<open>The metadata the decoder leaves: an empty metadata part does not touch the old value.\<close>

definition decoded_metadata :: "smap option \<Rightarrow> smap option \<Rightarrow> smap option" where
  "decoded_metadata sent old = (case sent of
      None \<Rightarrow> old
    | Some kvs \<Rightarrow> if kvs = [] then old else Some kvs)"

lemma encode_entry_not_Nil [simp]: "encode_entry kv \<noteq> []"
  by (cases kv) (simp add: encode_entry_def be_put32_def)

lemma encodeMetadata_eq_Nil: "encodeMetadata md = [] \<longleftrightarrow> md = None \<or> md = Some []"
  by (cases md; cases "the md") (auto simp: encodeMetadata_def)

lemma reslice_at:
  assumes "slice_wf s" "slice_bytes s = pre @ xs @ post" "i = length pre" "j = i + length xs"
  obtains t where "reslice s i j = Some t" "slice_wf t" "slice_bytes t = xs"
proof -
  obtain t where t: "reslice s i j = Some t" "slice_bytes t = xs"
    using slice_sub_at [OF assms] by (auto simp: slice_sub_def)
  have "slice_wf t" using t(1) assms(1)
    by (auto simp: reslice_def slice_wf_def slice_cap_def split: if_splits)
  with t show ?thesis by (intro that) simp_all
qed

lemma decode_fields_frame:
  assumes wf: "slice_wf d" and md: "\<And>kvs. md = Some kvs \<Longrightarrow> smap_wf kvs"
    and bytes: "slice_bytes d = frame_body sp sm (encodeMetadata md) payload"
    and small: "length (slice_bytes d) < 2 ^ 32"
  shows "decode_fields comps m d = Some (decode_payload comps
     (m\<lparr>ServicePath := sp, ServiceMethod := sm,
        Metadata := decoded_metadata md (Metadata m), Payload := payload\<rparr>))"
proof -
  let ?sp = "StringToSliceByte sp" and ?sm = "StringToSliceByte sm" and ?meta = "encodeMetadata md"
  let ?i1 = "4 + length sp" let ?i2 = "?i1 + 4 + length sm" let ?i3 = "?i2 + 4 + length ?meta"
  let ?w = "\<lambda>n. word_of_nat n :: u32"
  have total: "length (slice_bytes d) = ?i3 + 4 + length payload" using bytes by simp
  have un: "unat (?w i) = i" if "i \<le> length (slice_bytes d)" for i
    using that small by (intro unat_of_nat32) simp
  have un1: "unat (?w (length sp)) = length sp" by (rule un) (simp add: total)
  have un2: "unat (?w (length sm)) = length sm" by (rule un) (simp add: total)
  have un3: "unat (?w (length ?meta)) = length ?meta" by (rule un) (simp add: total)
  have e: "slice_bytes d = part ?sp @ part ?sm @ part ?meta @ part payload"
    using bytes by (simp add: frame_body_def)
  have r1: "slice_sub32 d 0 4 = Some (?w (length sp))"
    using e by (intro slice_sub32_at [OF wf, of "[]" _ "?sp @ part ?sm @ part ?meta @ part payload"])
      (simp_all add: part_def)
  have r2: "slice_sub d 4 ?i1 = Some ?sp"
    using e by (intro slice_sub_at [OF wf, of "be_put32 (?w (length sp))" _ "part ?sm @ part ?meta @ part payload"])
      (simp_all add: part_def)
  have r3: "slice_sub32 d ?i1 (?i1 + 4) = Some (?w (length sm))"
    using e by (intro slice_sub32_at [OF wf, of "part ?sp" _ "?sm @ part ?meta @ part payload"])
      (simp_all add: part_def)
  have r4: "slice_sub d (?i1 + 4) ?i2 = Some ?sm"
    using e by (intro slice_sub_at [OF wf, of "part ?sp @ be_put32 (?w (length sm))" _ "part ?meta @ part payload"])
      (simp_all add: part_def)
  have r5: "slice_sub32 d ?i2 (?i2 + 4) = Some (?w (length ?meta))"
    using e by (intro slice_sub32_at [OF wf, of "part ?sp @ part ?sm" _ "?meta @ part payload"])
      (simp_all add: part_def)
  obtain sub where sub: "reslice d (?i2 + 4) ?i3 = Some sub" "slice_wf sub" "slice_bytes sub = ?meta"
    using e by (elim reslice_at [OF wf, of "part ?sp @ part ?sm @ be_put32 (?w (length ?meta))" _ "part payload", rotated -1])
      (simp_all add: part_def)
  have r6: "slice_sub32 d ?i3 (?i3 + 4) = Some (?w (length payload))"
    using e by (intro slice_sub32_at [OF wf, of "part ?sp @ part ?sm @ part ?meta" _ payload])
      (simp_all add: part_def)
  have r7: "slice_sub_from d (?i3 + 4) = Some payload"
    using e by (intro slice_sub_from_at [OF wf, of "part ?sp @ part ?sm @ part ?meta @ be_put32 (?w (length payload))"])
      (simp_all add: part_def)
  let ?m = "m\<lparr>ServicePath := sp, ServiceMethod := sm\<rparr>"
  have meta: "(if 0 < ?w (length ?meta) then
      do { sub \<leftarrow> reslice d (?i2 + 4) ?i3; (md', err) \<leftarrow> decodeMetadata (?w (length ?meta)) sub;
           Some (?m\<lparr>Metadata := Some md'\<rparr>, err) } else Some (?m, None))
    = Some (?m\<lparr>Metadata := decoded_metadata md (Metadata m)\<rparr>, None)"
  proof (cases "?meta = []")
    case True
    then have "decoded_metadata md (Metadata m) = Metadata m"
      by (auto simp: encodeMetadata_eq_Nil decoded_metadata_def)
    with True show ?thesis by simp
  next
    case False
    then obtain kvs where kvs: "md = Some kvs" "kvs \<noteq> []"
      by (cases md) (auto simp: encodeMetadata_eq_Nil)
    have pos: "0 < ?w (length ?meta)"
      using False un3 by (simp only: word_less_nat_alt) simp
    have "decodeMetadata (?w (length ?meta)) sub = Some (kvs, None)"
      using decodeMetadata_encode [OF sub(2), of kvs] sub(3) kvs md small total by simp
    with pos kvs sub(1) show ?thesis by (simp add: decoded_metadata_def)
  qed
  show ?thesis
    by (simp only: decode_fields_def Let_def r1 un1 r2 r3 un2 r4 r5 un3 r6 r7 meta Option.bind.simps
        SliceByteToString_StringToSliceByte prod.case not_True_eq_False if_False simp_thms)
qed

lemma body_slice_filled:
  assumes "slice_wf d0" "length b = n"
  defines "d \<equiv> body_slice d0 n"
  shows "slice_wf (d\<lparr>smem := blit (smem d) (slo d) b\<rparr>)"
    and "slice_bytes (d\<lparr>smem := blit (smem d) (slo d) b\<rparr>) = b"
  using assms
  by (auto simp: body_slice_def make_slice_def slice_wf_def slice_cap_def slice_bytes_def blit_def)

lemma header_refilled:
  assumes "hdr_wf old" "hdr_wf h"
  shows "blit (blit old 0 (take 1 h)) 1 (drop 1 h) = h"
proof -
  obtain b h' where "h = b # h'" using assms(2) by (cases h) (auto simp: hdr_wf_def)
  with assms show ?thesis by (simp add: blit_def hdr_wf_def)
qed

lemma CheckMagicNumber_first_byte:
  "hdr_wf old \<Longrightarrow> hdr_wf h \<Longrightarrow> CheckMagicNumber (blit old 0 (take 1 h)) = CheckMagicNumber h"
  by (cases h) (auto simp: CheckMagicNumber_def blit_def hdr_wf_def)

text \<open>The message a frame decodes to, before decompression, in the target message \<open>t\<close>.\<close>

definition framed :: "message \<Rightarrow> header \<Rightarrow> string \<Rightarrow> string \<Rightarrow> smap option \<Rightarrow> bytes \<Rightarrow> slice \<Rightarrow> message" where
  "framed t h sp sm md payload d = t\<lparr>mheader := h, mdata := d, ServicePath := sp,
     ServiceMethod := sm, Metadata := decoded_metadata md (Metadata t), Payload := payload\<rparr>"

text \<open>A frame the decoder accepts: its length fits \<^verbatim>\<open>uint32\<close> and the configured limit.\<close>

definition acceptable :: "int \<Rightarrow> nat \<Rightarrow> bool" where
  "acceptable maxlen n \<longleftrightarrow> n < 2 ^ 32 \<and> (maxlen \<le> 0 \<or> int n \<le> maxlen)"

context byte_reader
begin

lemma readfull_short_exists:
  "length (rest r) < k \<Longrightarrow> \<exists>bs e r'. readfull r k = (bs, Some e, r') \<and>
     (e = fin r \<or> fin r = EOF \<and> e = ErrUnexpectedEOF)"
  using readfull_short [of r k] by (auto simp: short_error_def)

text \<open>The header stretch on a stream that starts with a header.\<close>

lemma Decode_header:
  assumes t: "hdr_wf (mheader t)" and h: "hdr_wf h" "CheckMagicNumber h" and r: "rest r = h @ xs"
  obtains r' where "rest r' = xs" "fin r' = fin r"
    "Decode readfull comps maxlen t r = Decode_total readfull comps maxlen (t\<lparr>mheader := h\<rparr>) r'"
proof -
  have len: "length h = 12" using h(1) by (simp add: hdr_wf_def)
  obtain r1 where r1: "readfull r 1 = (take 1 h, None, r1)" "rest r1 = drop 1 h @ xs" "fin r1 = fin r"
    using readfull_append [of r "take 1 h" "drop 1 h @ xs" 1] r len by auto
  obtain r2 where r2: "readfull r1 11 = (drop 1 h, None, r2)" "rest r2 = xs" "fin r2 = fin r"
    using readfull_append [of r1 "drop 1 h" xs 11] r1(2,3) len by auto
  have "Decode readfull comps maxlen t r = Decode_total readfull comps maxlen (t\<lparr>mheader := h\<rparr>) r2"
    using h(2) CheckMagicNumber_first_byte [OF t h(1)] header_refilled [OF t h(1)]
    by (simp add: Decode_def r1(1) r2(1) Let_def del: One_nat_def)
  with r2 show ?thesis by (intro that)
qed

text \<open>The total length.\<close>

lemma Decode_total_length:
  assumes "acceptable maxlen n" and r: "rest r = be_put32 (word_of_nat n) @ xs"
  obtains r' where "rest r' = xs" "fin r' = fin r"
    "Decode_total readfull comps maxlen m r = Decode_body readfull comps m n r'"
proof -
  have n: "unat (word_of_nat n :: u32) = n"
    using assms(1) by (intro unat_of_nat32) (simp add: acceptable_def)
  obtain r1 where r1: "readfull r 4 = (be_put32 (word_of_nat n), None, r1)" "rest r1 = xs" "fin r1 = fin r"
    using readfull_append [of r "be_put32 (word_of_nat n)" xs 4] r by auto
  have "uint (word_of_nat n :: u32) = int n" using n by (metis uint_nat)
  then have "\<not> (0 < maxlen \<and> maxlen < uint (word_of_nat n :: u32))"
    using assms(1) by (auto simp: acceptable_def)
  then have "Decode_total readfull comps maxlen m r = Decode_body readfull comps m n r1"
    by (auto simp: Decode_total_def r1(1) n Let_def)
  with r1 show ?thesis by (intro that)
qed

lemma Decode_body_frame:
  assumes t: "slice_wf (mdata t)" and md: "\<And>kvs. md = Some kvs \<Longrightarrow> smap_wf kvs"
    and r: "rest r = frame_body sp sm (encodeMetadata md) payload @ tail"
    and small: "length (frame_body sp sm (encodeMetadata md) payload) < 2 ^ 32"
  obtains r' d where "rest r' = tail" "fin r' = fin r" "slice_wf d"
    "slice_bytes d = frame_body sp sm (encodeMetadata md) payload"
    "Decode_body readfull comps t (length (frame_body sp sm (encodeMetadata md) payload)) r =
       (case decode_payload comps (framed t (mheader t) sp sm md payload d) of
          (m, err) \<Rightarrow> Some (m, err, r'))"
proof -
  let ?body = "frame_body sp sm (encodeMetadata md) payload"
  obtain r1 where r1: "readfull r (length ?body) = (?body, None, r1)" "rest r1 = tail" "fin r1 = fin r"
    using readfull_append [of r ?body tail "length ?body"] r by auto
  define d0 where "d0 = body_slice (mdata t) (length ?body)"
  define d where "d = d0\<lparr>smem := blit (smem d0) (slo d0) ?body\<rparr>"
  have d: "slice_wf d" "slice_bytes d = ?body"
    unfolding d_def d0_def by (rule body_slice_filled [OF t refl])+
  have fields: "decode_fields comps (t\<lparr>mdata := d\<rparr>) d =
      Some (decode_payload comps (framed t (mheader t) sp sm md payload d))"
    using decode_fields_frame [OF d(1) md d(2), of comps "t\<lparr>mdata := d\<rparr>"] small d(2)
    by (simp add: framed_def)
  have "Decode_body readfull comps t (length ?body) r =
      (case decode_payload comps (framed t (mheader t) sp sm md payload d) of
          (m, err) \<Rightarrow> Some (m, err, r1))"
    by (simp add: Decode_body_def r1(1) Let_def d0_def [symmetric] d_def [symmetric] fields
        del: length_frame_body)
  with r1 d show ?thesis by (intro that)
qed

lemma Decode_frame:
  assumes t: "hdr_wf (mheader t)" "slice_wf (mdata t)"
    and h: "hdr_wf h" "CheckMagicNumber h"
    and md: "\<And>kvs. md = Some kvs \<Longrightarrow> smap_wf kvs"
    and r: "rest r = frame h sp sm (encodeMetadata md) payload @ tail"
    and ok: "acceptable maxlen (length (frame_body sp sm (encodeMetadata md) payload))"
  obtains r' d where "rest r' = tail" "fin r' = fin r" "slice_wf d"
    "Decode readfull comps maxlen t r =
       (case decode_payload comps (framed t h sp sm md payload d) of
          (m, err) \<Rightarrow> Some (m, err, r'))"
proof -
  let ?body = "frame_body sp sm (encodeMetadata md) payload"
  have r0: "rest r = h @ be_put32 (word_of_nat (length ?body)) @ ?body @ tail"
    using r by (simp add: frame_def part_def)
  obtain r1 where r1: "rest r1 = be_put32 (word_of_nat (length ?body)) @ ?body @ tail" "fin r1 = fin r"
    "Decode readfull comps maxlen t r = Decode_total readfull comps maxlen (t\<lparr>mheader := h\<rparr>) r1"
    using Decode_header [OF t(1) h r0] by blast
  obtain r2 where r2: "rest r2 = ?body @ tail" "fin r2 = fin r1"
    "Decode_total readfull comps maxlen (t\<lparr>mheader := h\<rparr>) r1 =
       Decode_body readfull comps (t\<lparr>mheader := h\<rparr>) (length ?body) r2"
    using Decode_total_length [OF ok r1(1)] by blast
  have small: "length ?body < 2 ^ 32" using ok by (simp add: acceptable_def)
  obtain r3 d where r3: "rest r3 = tail" "fin r3 = fin r2" "slice_wf d"
    "Decode_body readfull comps (t\<lparr>mheader := h\<rparr>) (length ?body) r2 =
       (case decode_payload comps (framed (t\<lparr>mheader := h\<rparr>) h sp sm md payload d) of
          (m, err) \<Rightarrow> Some (m, err, r3))"
    by (rule Decode_body_frame [of "t\<lparr>mheader := h\<rparr>", OF _ md r2(1) small]) (use t in auto)
  have "framed (t\<lparr>mheader := h\<rparr>) h sp sm md payload d = framed t h sp sm md payload d"
    by (simp add: framed_def)
  with r1 r2 r3 show ?thesis by (intro that) auto
qed

text \<open>A stream that ends inside the frame is an error, wherever it ends.\<close>

lemma Decode_truncated:
  assumes t: "hdr_wf (mheader t)" and h: "hdr_wf h" "CheckMagicNumber h"
    and n: "n < length (frame h sp sm meta payload)"
    and r: "rest r = take n (frame h sp sm meta payload)"
    and ok: "acceptable maxlen (length (frame_body sp sm meta payload))"
  shows "\<exists>m' e r'. Decode readfull comps maxlen t r = Some (m', Some e, r') \<and>
     (e = fin r \<or> fin r = EOF \<and> e = ErrUnexpectedEOF)"
proof -
  let ?body = "frame_body sp sm meta payload"
  let ?len = "be_put32 (word_of_nat (length ?body))"
  have len: "length h = 12" using h by (simp add: hdr_wf_def)
  have f: "frame h sp sm meta payload = h @ ?len @ ?body"
    by (simp add: frame_def part_def)
  consider "n < 1" | "1 \<le> n" "n < 12" | "12 \<le> n" by linarith
  then show ?thesis
  proof cases
    case 1
    then show ?thesis using readfull_short_exists [of r 1] r by (auto simp: Decode_def Let_def)
  next
    case 2
    have "rest r = take 1 h @ take (n - 1) (drop 1 h)"
      using r 2 len unfolding f by (cases h; cases n) auto
    then obtain r1 where r1: "readfull r 1 = (take 1 h, None, r1)" "rest r1 = take (n - 1) (drop 1 h)" "fin r1 = fin r"
      using readfull_append [of r "take 1 h" _ 1] len by auto
    have "length (rest r1) < 11" using r1(2) 2 len by simp
    from readfull_short_exists [OF this] show ?thesis
      using r1(1,3) CheckMagicNumber_first_byte [OF t h(1)] h(2)
      by (auto simp: Decode_def Let_def)
  next
    case 3
    then have "rest r = h @ take (n - 12) (?len @ ?body)" using r len by (simp add: f)
    then obtain r1 where r1: "rest r1 = take (n - 12) (?len @ ?body)" "fin r1 = fin r"
      "Decode readfull comps maxlen t r = Decode_total readfull comps maxlen (t\<lparr>mheader := h\<rparr>) r1"
      using Decode_header [OF t h] by blast
    show ?thesis
    proof (cases "n < 16")
      case True
      then have "length (rest r1) < 4" using r1(1) by simp
      from readfull_short_exists [OF this] show ?thesis using r1(2,3)
        by (auto simp: Decode_total_def Let_def)
    next
      case False
      then have "rest r1 = ?len @ take (n - 16) ?body" using r1(1) by simp
      then obtain r2 where r2: "rest r2 = take (n - 16) ?body" "fin r2 = fin r1"
        "Decode_total readfull comps maxlen (t\<lparr>mheader := h\<rparr>) r1 =
           Decode_body readfull comps (t\<lparr>mheader := h\<rparr>) (length ?body) r2"
        using Decode_total_length [OF ok] by blast
      have "n < 16 + length ?body" using n len unfolding frame_def by (simp del: length_frame_body)
      then have "length (rest r2) < length ?body" using r2(1) False by (simp del: length_frame_body)
      from readfull_short_exists [OF this] show ?thesis using r1(2,3) r2(2,3)
        by (auto simp: Decode_body_def Let_def simp del: length_frame_body)
    qed
  qed
qed

end

section \<open>Round trip\<close>

text \<open>The size of the body \<open>Encode\<close> writes.\<close>

definition body_size :: "compressors \<Rightarrow> message \<Rightarrow> nat" where
  "body_size comps m = length (frame_body (ServicePath m) (ServiceMethod m)
     (encodeMetadata (Metadata m)) (snd (encode_payload comps m)))"

definition sendable :: "message \<Rightarrow> bool" where
  "sendable m \<longleftrightarrow> msg_wf m \<and> CheckMagicNumber (mheader m)"

definition receiver :: "message \<Rightarrow> bool" where
  "receiver t \<longleftrightarrow> hdr_wf (mheader t) \<and> slice_wf (mdata t)"

lemma sendableD:
  "sendable m \<Longrightarrow> hdr_wf (mheader m)" "sendable m \<Longrightarrow> CheckMagicNumber (mheader m)"
  "sendable m \<Longrightarrow> Metadata m = Some kvs \<Longrightarrow> smap_wf kvs"
  by (auto simp: sendable_def msg_wf_def)

lemma receiver_NewMessage [simp]: "receiver NewMessage"
  by (simp add: receiver_def NewMessage_def make_slice_def slice_wf_def)

lemma encode_payload_header:
  "sendable m \<Longrightarrow> hdr_wf (fst (encode_payload comps m)) \<and>
     CheckMagicNumber (fst (encode_payload comps m))"
  by (cases "zips comps m")
    (auto simp: encode_payload_zips encode_payload_not_zips sendableD SetCompressType_others)

text \<open>Decompression undoes what the encoder did to the payload.\<close>

lemma decode_payload_encoded:
  assumes "compressors_ok comps" "hdr_wf (mheader m)"
  shows "decode_payload comps
     (framed t (fst (encode_payload comps m)) sp sm md (snd (encode_payload comps m)) d) =
     (framed t (fst (encode_payload comps m)) sp sm md (Payload m) d, None)"
proof (cases "zips comps m")
  case False
  then show ?thesis using assms(2)
    by (simp add: encode_payload_not_zips decode_payload_def framed_def compress_field.get_put)
next
  case True
  show ?thesis
  proof (cases "CompressType (mheader m) = NoCompress")
    case True
    then show ?thesis by (simp add: encode_payload_def decode_payload_def framed_def)
  next
    case False
    then obtain c y where c: "comps (CompressType (mheader m)) = Some c" "cZip c (Payload m) = (y, None)"
      using True by (auto simp: zips_def)
    then have "cUnzip c y = (Payload m, None)"
      using assms(1) compressor_contract.inflate_deflate [of "cZip c" "cUnzip c" "Payload m" y]
      by (auto simp: compressors_ok_def)
    with c False show ?thesis by (simp add: encode_payload_def decode_payload_def framed_def)
  qed
qed

text \<open>What the receiver holds after decoding the message \<open>m\<close>.\<close>

definition received :: "compressors \<Rightarrow> message \<Rightarrow> message \<Rightarrow> message \<Rightarrow> bool" where
  "received comps m t t' \<longleftrightarrow>
     mheader t' = mheader (fst (Encode comps m)) \<and>
     ServicePath t' = ServicePath m \<and> ServiceMethod t' = ServiceMethod m \<and>
     Payload t' = Payload m \<and>
     Metadata t' = decoded_metadata (Metadata m) (Metadata t)"

lemma Encode_frame_sendable:
  "sendable m \<Longrightarrow> snd (Encode comps m) =
    frame (fst (encode_payload comps m)) (ServicePath m) (ServiceMethod m)
      (encodeMetadata (Metadata m)) (snd (encode_payload comps m))"
  by (rule Encode_frame) (rule sendableD)

context byte_reader
begin

lemma Decode_Encode:
  assumes m: "sendable m" and t: "receiver t" and comps: "compressors_ok comps"
    and ok: "acceptable maxlen (body_size comps m)"
    and r: "rest r = snd (Encode comps m) @ tail"
  shows "\<exists>t' r'. Decode readfull comps maxlen t r = Some (t', None, r') \<and>
     received comps m t t' \<and> receiver t' \<and> rest r' = tail \<and> fin r' = fin r"
proof -
  let ?h = "fst (encode_payload comps m)" and ?p = "snd (encode_payload comps m)"
  have h: "hdr_wf ?h" "CheckMagicNumber ?h" using encode_payload_header [OF m] by auto
  have t': "hdr_wf (mheader t)" "slice_wf (mdata t)" using t by (auto simp: receiver_def)
  obtain r' d where dec: "rest r' = tail" "fin r' = fin r" "slice_wf d"
    "Decode readfull comps maxlen t r =
       (case decode_payload comps (framed t ?h (ServicePath m) (ServiceMethod m) (Metadata m) ?p d) of
          (m, err) \<Rightarrow> Some (m, err, r'))"
    by (rule Decode_frame [OF t' h sendableD(3) [OF m] r [unfolded Encode_frame_sendable [OF m]]
          ok [unfolded body_size_def], of comps]) blast
  have hm: "hdr_wf (mheader m)" using m by (rule sendableD)
  let ?t' = "framed t ?h (ServicePath m) (ServiceMethod m) (Metadata m) (Payload m) d"
  have "Decode readfull comps maxlen t r = Some (?t', None, r')"
    using dec(4) by (simp add: decode_payload_encoded [OF comps hm])
  moreover have "received comps m t ?t'" "receiver ?t'"
    using dec(3) h by (simp_all add: received_def framed_def Encode_message receiver_def)
  ultimately show ?thesis using dec(1,2) by blast
qed

lemma Decode_Encode_truncated:
  assumes m: "sendable m" and t: "receiver t"
    and ok: "acceptable maxlen (body_size comps m)"
    and n: "n < length (snd (Encode comps m))" and r: "rest r = take n (snd (Encode comps m))"
  shows "\<exists>m' e r'. Decode readfull comps maxlen t r = Some (m', Some e, r') \<and>
     (e = fin r \<or> fin r = EOF \<and> e = ErrUnexpectedEOF)"
proof -
  have h: "hdr_wf (fst (encode_payload comps m))" "CheckMagicNumber (fst (encode_payload comps m))"
    using encode_payload_header [OF m] by auto
  show ?thesis
    using t n [unfolded Encode_frame_sendable [OF m]] r [unfolded Encode_frame_sendable [OF m]]
      ok [unfolded body_size_def]
    by (intro Decode_truncated [OF _ h]) (auto simp: receiver_def)
qed

end

section \<open>What a successful decode leaves\<close>

definition md_wf :: "smap option \<Rightarrow> bool" where
  "md_wf md \<longleftrightarrow> (\<forall>kvs. md = Some kvs \<longrightarrow> smap_wf kvs)"

lemma decodeMetadata_loop_wf:
  "decodeMetadata_loop l data n m = Some (m', e) \<Longrightarrow> smap_wf m \<Longrightarrow> smap_wf m'"
proof (induction l data n m rule: decodeMetadata_loop.induct)
  case (1 l data n m)
  then show ?case
    by (subst (asm) (2) decodeMetadata_loop.simps) (auto split: if_splits option.splits sum.splits)
qed

lemma decodeMetadata_md_wf: "decodeMetadata l s = Some (md, e) \<Longrightarrow> md_wf (Some md)"
  by (auto simp: decodeMetadata_def md_wf_def dest!: decodeMetadata_loop_wf)

lemma decode_payload_keeps:
  "decode_payload comps m = (m', e) \<Longrightarrow>
   mheader m' = mheader m \<and> mdata m' = mdata m \<and> Metadata m' = Metadata m"
  by (auto simp: decode_payload_def split: if_splits option.splits prod.splits)

lemma decode_fields_keeps:
  "decode_fields comps m d = Some (m', e) \<Longrightarrow> md_wf (Metadata m) \<Longrightarrow>
   mheader m' = mheader m \<and> mdata m' = mdata m \<and> md_wf (Metadata m')"
  by (simp only: decode_fields_def bind_eq_Some_conv Let_def, elim exE conjE,
      simp only: split: if_split_asm prod.split_asm)
    (auto simp: bind_eq_Some_conv dest!: decode_payload_keeps dest: decodeMetadata_md_wf)

lemma body_slice_filled_wf:
  assumes "slice_wf d" "slo d = 0" "length b = n"
  defines "d' \<equiv> body_slice d n"
  shows "slice_wf (d'\<lparr>smem := blit (smem d') (slo d') b\<rparr>) \<and> slo d' = 0"
  using assms
  by (auto simp: body_slice_def slice_wf_def slice_cap_def make_slice_def blit_def)

context byte_reader
begin

lemma readfull_None:
  "readfull r k = (bs, None, r') \<Longrightarrow> length bs = k \<and> length (rest r) = k + length (rest r')"
  using readfull_length [of r k bs r'] readfull_rest [of r k bs None r'] by simp

lemma Decode_total_ok:
  assumes "Decode_total readfull comps maxlen m r = Some (t', None, r')"
    and "slice_wf (mdata m)" "slo (mdata m) = 0" "md_wf (Metadata m)"
  shows "mheader t' = mheader m \<and> slice_wf (mdata t') \<and> slo (mdata t') = 0 \<and> md_wf (Metadata t') \<and>
    4 + length (rest r') \<le> length (rest r)"
proof -
  obtain len r1 where r1: "readfull r 4 = (len, None, r1)"
    using assms(1) by (auto simp: Decode_total_def Let_def split: prod.splits if_splits)
  let ?n = "unat (be_get32 len)"
  have body: "Decode_body readfull comps m ?n r1 = Some (t', None, r')"
    using assms(1) by (auto simp: Decode_total_def Let_def r1 split: if_splits simp del: One_nat_def)
  obtain b r2 where r2: "readfull r1 ?n = (b, None, r2)"
    using body by (auto simp: Decode_body_def Let_def split: prod.splits if_splits)
  let ?d = "body_slice (mdata m) ?n"
  have "decode_fields comps (m\<lparr>mdata := ?d\<lparr>smem := blit (smem ?d) (slo ?d) b\<rparr>\<rparr>)
      (?d\<lparr>smem := blit (smem ?d) (slo ?d) b\<rparr>) = Some (t', None)" and "r' = r2"
    using body by (auto simp: Decode_body_def Let_def r2 split: option.splits)
  then show ?thesis
    using decode_fields_keeps [of comps _ _ t' None] body_slice_filled_wf [OF assms(2,3), of b ?n]
      readfull_None [OF r1] readfull_None [OF r2] assms(4)
    by fastforce
qed

text \<open>The four reads of a successful decode.\<close>

lemma Decode_reads:
  assumes dec: "Decode readfull comps maxlen t r = Some (t', None, r')"
  obtains b1 r1 b2 r2 b3 r3 b4 where "readfull r 1 = (b1, None, r1)" "readfull r1 11 = (b2, None, r2)"
    "readfull r2 4 = (b3, None, r3)" "readfull r3 (unat (be_get32 b3)) = (b4, None, r')"
proof -
  obtain b1 r1 where r1: "readfull r 1 = (b1, None, r1)"
    using dec by (auto simp: Decode_def Let_def split: prod.splits if_splits)
  have magic: "CheckMagicNumber (blit (mheader t) 0 b1)"
    using dec by (auto simp: Decode_def Let_def r1 split: if_splits simp del: One_nat_def)
  obtain b2 r2 where r2: "readfull r1 11 = (b2, None, r2)"
    using dec magic by (auto simp: Decode_def Let_def r1 simp del: One_nat_def split: prod.splits if_splits)
  obtain m where total: "Decode_total readfull comps maxlen m r2 = Some (t', None, r')"
    using dec magic by (auto simp: Decode_def Let_def r1 r2 simp del: One_nat_def)
  obtain b3 r3 where r3: "readfull r2 4 = (b3, None, r3)"
    using total by (auto simp: Decode_total_def Let_def split: prod.splits if_splits)
  have body: "Decode_body readfull comps m (unat (be_get32 b3)) r3 = Some (t', None, r')"
    using total by (auto simp: Decode_total_def Let_def r3 split: if_splits)
  obtain b4 r4 where r4: "readfull r3 (unat (be_get32 b3)) = (b4, None, r4)"
    using body by (auto simp: Decode_body_def Let_def split: prod.splits if_splits)
  then have "r' = r4" using body by (auto simp: Decode_body_def Let_def split: option.splits)
  then show ?thesis using that r1 r2 r3 r4 by blast
qed

lemma Decode_ok:
  assumes dec: "Decode readfull comps maxlen t r = Some (t', None, r')"
    and t: "hdr_wf (mheader t)" "slice_wf (mdata t)" "slo (mdata t) = 0" "md_wf (Metadata t)"
  shows "sendable t' \<and> 16 + length (rest r') \<le> length (rest r)"
proof -
  obtain b1 r1 where r1: "readfull r 1 = (b1, None, r1)"
    using dec by (auto simp: Decode_def Let_def split: prod.splits if_splits)
  let ?h1 = "blit (mheader t) 0 b1"
  have magic: "CheckMagicNumber ?h1"
    using dec by (auto simp: Decode_def Let_def r1 split: if_splits simp del: One_nat_def)
  obtain b2 r2 where r2: "readfull r1 11 = (b2, None, r2)"
    using dec magic by (auto simp: Decode_def Let_def r1 simp del: One_nat_def split: prod.splits if_splits)
  let ?h2 = "blit ?h1 1 b2"
  have total: "Decode_total readfull comps maxlen (t\<lparr>mheader := ?h2\<rparr>) r2 = Some (t', None, r')"
    using dec magic by (simp add: Decode_def Let_def r1 r2 del: One_nat_def)
  have len: "length b1 = 1" "length b2 = 11" "length (rest r) = 12 + length (rest r2)"
    using readfull_None [OF r1] readfull_None [OF r2] by auto
  have "length ?h1 = 12" using t(1) len(1) by (simp add: hdr_wf_def)
  then have "hdr_wf ?h2" using len(2) by (simp add: hdr_wf_def)
  moreover have "CheckMagicNumber ?h2"
    using magic len \<open>length ?h1 = 12\<close> by (cases b1) (auto simp: CheckMagicNumber_def blit_def nth_append)
  moreover have "mheader t' = ?h2 \<and> slice_wf (mdata t') \<and> slo (mdata t') = 0 \<and> md_wf (Metadata t') \<and>
      4 + length (rest r') \<le> length (rest r2)"
    using Decode_total_ok [OF total] t(2-4) by (simp del: One_nat_def)
  ultimately show ?thesis using len(3) unfolding sendable_def msg_wf_def md_wf_def by simp
qed

end

section \<open>Bounds\<close>

text \<open>Each entry takes at least eight bytes and ends inside the metadata.\<close>

lemma decode_entry_inside:
  "decode_entry l data n = Some (Inr (k, v, n')) \<Longrightarrow> unat n' \<le> unat l"
  by (auto simp: decode_entry_def bind_eq_Some_conv Let_def not_less word_le_nat_alt split: if_splits)

lemma decodeMetadata_loop_length:
  "decodeMetadata_loop l data n m = Some (m', e) \<Longrightarrow> 8 * length m \<le> unat n \<Longrightarrow>
   unat n \<le> unat l \<Longrightarrow> 8 * length m' \<le> unat l"
proof (induction l data n m rule: decodeMetadata_loop.induct)
  case (1 l data n m)
  show ?case
  proof (cases "n < l")
    case False
    with 1 show ?thesis by (simp add: decodeMetadata_loop.simps [of l data n m])
  next
    case True
    show ?thesis
    proof (cases "\<exists>k v n'. decode_entry l data n = Some (Inr (k, v, n'))")
      case False
      with True 1(2,3,4) show ?thesis
        by (auto simp: decodeMetadata_loop.simps [of l data n m] split: option.splits sum.splits)
    next
      case entry: True
      then obtain k v n' where kv: "decode_entry l data n = Some (Inr (k, v, n'))" by blast
      have "8 * length (smap_put k v m) \<le> unat n'"
        using decode_entry_progress [OF kv] 1(3) length_smap_put [of k v m] by linarith
      moreover have "unat n' \<le> unat l" using kv by (rule decode_entry_inside)
      moreover have "decodeMetadata_loop l data n' (smap_put k v m) = Some (m', e)"
        using 1(2) True kv by (simp add: decodeMetadata_loop.simps [of l data n m])
      ultimately show ?thesis using "1.IH" [OF True kv refl refl refl] by blast
    qed
  qed
qed

section \<open>Properties\<close>

text \<open>C3. Round trip over a network connection: whatever the pieces in which the connection delivers
  the bytes that \<open>Encode\<close> produced, \<open>Decode\<close> over a \<^verbatim>\<open>bufio.Reader\<close> returns the message sent (the
  header as encoded, names, decompressed payload, metadata) and leaves exactly the bytes behind it.\<close>

theorem wire_roundtrip:
  assumes "sendable m" "receiver t" "compressors_ok comps"
    and "acceptable maxlen (body_size comps m)"
    and "bufio_rest r = snd (Encode comps m) @ tail"
  shows "\<exists>t' r'. Decode bufio_readfull comps maxlen t r = Some (t', None, r') \<and>
    mheader t' = mheader (fst (Encode comps m)) \<and> ServicePath t' = ServicePath m \<and>
    ServiceMethod t' = ServiceMethod m \<and> Payload t' = Payload m \<and>
    Metadata t' = decoded_metadata (Metadata m) (Metadata t) \<and> bufio_rest r' = tail"
  using bufio.Decode_Encode [OF assms] by (auto simp: received_def)

definition sample_message :: message where
  "sample_message = NewMessage\<lparr>mheader := SetCompressType Gzip (SetSeq 7 new_header),
     ServicePath := ''arith'', ServiceMethod := ''mul'', Metadata := Some [(''k'', ''v'')],
     Payload := [1, 2, 3]\<rparr>"

definition sample_wire :: bytes where
  "sample_wire = snd (Encode (Compressors stored_gzip) sample_message)"

lemma sample_sendable: "sendable sample_message"
  by (simp add: sendable_def msg_wf_def sample_message_def NewMessage_def make_slice_def
      slice_wf_def smap_wf_def hdr del: protocol_consts)

lemma sample_payload:
  "snd (encode_payload (Compressors stored_gzip) sample_message) = [0x1F, 1, 2, 3]"
  by code_simp

lemma sample_acceptable:
  "acceptable 0 (body_size (Compressors stored_gzip) sample_message)"
  unfolding body_size_def sample_payload
  by (simp add: acceptable_def sample_message_def encodeMetadata_def)

lemma sample_CompressType: "CompressType (mheader sample_message) = Gzip"
  by code_simp

lemma sample_zips: "zips (Compressors stored_gzip) sample_message" "\<not> zips Map.empty sample_message"
  by (simp_all add: zips_def sample_CompressType Compressors_def GzipCompressor_def Zip_def
      stored_gzip_def)

lemma sample_compressors: "compressors_ok (Compressors stored_gzip)"
  by (rule compressors_ok_default [OF stored_gzip_documented])

theorem wire_roundtrip_witness:
  "\<exists>t' r'. Decode bufio_readfull (Compressors stored_gzip) 0 NewMessage
      \<lparr>bbuf = [], bsize = 1024,
       bconn = \<lparr>pieces = [take 5 sample_wire, drop 5 sample_wire, [9]], cend = EOF\<rparr>\<rparr>
      = Some (t', None, r') \<and> ServicePath t' = ''arith'' \<and> Payload t' = [1, 2, 3] \<and>
    bufio_rest r' = [9]"
proof -
  let ?r = "\<lparr>bbuf = [], bsize = 1024,
       bconn = \<lparr>pieces = [take 5 sample_wire, drop 5 sample_wire, [9]], cend = EOF\<rparr>\<rparr>"
  have r: "bufio_rest ?r = snd (Encode (Compressors stored_gzip) sample_message) @ [9]"
    by (simp add: bufio_rest_def sample_wire_def append_take_drop_assoc)
  show ?thesis
    using wire_roundtrip [OF sample_sendable receiver_NewMessage sample_compressors sample_acceptable r]
    by (auto simp: sample_message_def)
qed



text \<open>The two encoders differ on a compressor that is missing or fails: \<open>Encode\<close> clears the
  compression flag and sends the payload uncompressed, \<open>WriteTo\<close> returns an error after the twelve
  header bytes are already out.\<close>

theorem encoders_without_compressor:
  assumes "hdr_wf (mheader m)" "\<not> zips comps m"
  shows "(\<exists>e. WriteTo buffer_write comps m w = (Some e, w @ mheader m)) \<and>
    snd (Encode comps m) = frame (SetCompressType NoCompress (mheader m)) (ServicePath m)
      (ServiceMethod m) (encodeMetadata (Metadata m)) (Payload m)"
  using buffer_out.WriteTo_not_zips [OF assms(2), of w] Encode_frame [OF assms(1), of comps]
  by (auto simp: encode_payload_not_zips [OF assms(2)])

theorem encoders_without_compressor_witness:
  "(\<exists>e. WriteTo buffer_write Map.empty sample_message [] = (Some e, mheader sample_message)) \<and>
   snd (Encode Map.empty sample_message) = frame (SetSeq 7 new_header) ''arith'' ''mul''
      (encodeMetadata (Some [(''k'', ''v'')])) [1, 2, 3]"
proof -
  have h: "hdr_wf (mheader sample_message)" using sample_sendable by (rule sendableD)
  have e: "SetCompressType NoCompress (mheader sample_message) = SetSeq 7 new_header" by code_simp
  show ?thesis
    using encoders_without_compressor [OF h sample_zips(2), of "[]"] e
    by (simp add: sample_message_def)
qed

text \<open>C10. Truncation is always detected: on a stream that ends anywhere inside an encoded message,
  \<open>Decode\<close> returns an error, the stream's own or \<^verbatim>\<open>io.ErrUnexpectedEOF\<close>, and never a message.\<close>

theorem wire_truncated:
  assumes "sendable m" "receiver t" "acceptable maxlen (body_size comps m)"
    and "n < length (snd (Encode comps m))" "bufio_rest r = take n (snd (Encode comps m))"
  shows "\<exists>m' e r'. Decode bufio_readfull comps maxlen t r = Some (m', Some e, r') \<and>
    (e = bufio_fin r \<or> bufio_fin r = EOF \<and> e = ErrUnexpectedEOF)"
  by (rule bufio.Decode_Encode_truncated [OF assms])

theorem wire_truncated_witness:
  "\<exists>m' e r'. Decode bufio_readfull (Compressors stored_gzip) 0 NewMessage
      \<lparr>bbuf = [], bsize = 1024, bconn = \<lparr>pieces = [take 20 sample_wire], cend = EOF\<rparr>\<rparr>
      = Some (m', Some e, r') \<and> e \<in> {EOF, ErrUnexpectedEOF}"
proof -
  have "20 < length (snd (Encode (Compressors stored_gzip) sample_message))"
    using encode_payload_header [OF sample_sendable]
    by (simp add: Encode_frame_sendable [OF sample_sendable] length_frame)
  then show ?thesis
    using wire_truncated [OF sample_sendable receiver_NewMessage sample_acceptable, of 20
        "\<lparr>bbuf = [], bsize = 1024, bconn = \<lparr>pieces = [take 20 sample_wire], cend = EOF\<rparr>\<rparr>"]
    by (auto simp: bufio_rest_def bufio_fin_def sample_wire_def)
qed

text \<open>A reused message keeps its old metadata: when the message on the wire carries none,
  \<open>Decode\<close> leaves the \<open>Metadata\<close> of the previous message in the target.\<close>

theorem Decode_keeps_stale_metadata:
  assumes "sendable m" "receiver t" "compressors_ok comps"
    and "acceptable maxlen (body_size comps m)"
    and "bufio_rest r = snd (Encode comps m)" and "Metadata m = None"
  shows "\<exists>t' r'. Decode bufio_readfull comps maxlen t r = Some (t', None, r') \<and>
    Metadata t' = Metadata t"
  using bufio.Decode_Encode [OF assms(1-4), of r "[]"] assms(5,6)
  by (auto simp: received_def decoded_metadata_def)

theorem Decode_keeps_stale_metadata_witness:
  "\<exists>t' r'. Decode bufio_readfull Map.empty 0
      (NewMessage\<lparr>Metadata := Some [(''old'', ''x'')]\<rparr>)
      \<lparr>bbuf = snd (Encode Map.empty NewMessage), bsize = 1024, bconn = \<lparr>pieces = [], cend = EOF\<rparr>\<rparr>
      = Some (t', None, r') \<and> Metadata t' = Some [(''old'', ''x'')]"
proof -
  have 1: "sendable NewMessage"
    by (simp add: sendable_def msg_wf_def NewMessage_def make_slice_def slice_wf_def new_header_def
        CheckMagicNumber_def hdr_wf_def)
  have 2: "receiver (NewMessage\<lparr>Metadata := Some [(''old'', ''x'')]\<rparr>)"
    using receiver_NewMessage by (simp add: receiver_def)
  have 3: "compressors_ok Map.empty" by (simp add: compressors_ok_def)
  have "snd (encode_payload Map.empty NewMessage) = []" by code_simp
  then have 4: "acceptable 0 (body_size Map.empty NewMessage)"
    by (simp add: acceptable_def body_size_def NewMessage_def encodeMetadata_def)
  show ?thesis
    using Decode_keeps_stale_metadata [OF 1 2 3 4,
        of "\<lparr>bbuf = snd (Encode Map.empty NewMessage), bsize = 1024, bconn = \<lparr>pieces = [], cend = EOF\<rparr>\<rparr>"]
    by (simp add: bufio_rest_def NewMessage_def)
qed

text \<open>The metadata decoder works in \<^verbatim>\<open>uint32\<close> and its loop is safe against wrap-around: when it
  returns, the entries found number at most an eighth of the declared length.\<close>

theorem decodeMetadata_bound:
  assumes "decodeMetadata l data = Some (m, e)"
  shows "8 * length m \<le> unat l"
  using decodeMetadata_loop_length [of l data 0 "[]" m e] assms by (simp add: decodeMetadata_def)

theorem decodeMetadata_bound_witness:
  "decodeMetadata 11 \<lparr>smem = [0,0,0,1,65,0,0,0,2,66,67], slo = 0, shi = 11\<rparr> =
     Some ([(''A'', ''BC'')], None) \<and> 8 * length [(''A'', ''BC'')] \<le> unat (11 :: u32)"
proof -
  have "decodeMetadata 11 \<lparr>smem = [0,0,0,1,65,0,0,0,2,66,67], slo = 0, shi = 11\<rparr> =
     Some ([(''A'', ''BC'')], None)" by code_simp
  then show ?thesis using decodeMetadata_bound by blast
qed

text \<open>The length limit is checked before the body is read: a frame longer than
  \<^verbatim>\<open>MaxMessageLength\<close> is refused with \<^verbatim>\<open>ErrMessageTooLong\<close>, whatever follows.\<close>

theorem Decode_too_long:
  assumes "hdr_wf (mheader t)" "hdr_wf h" "CheckMagicNumber h" "0 < maxlen"
    and "maxlen < int (unat l)" and "rest = h @ be_put32 l @ body"
  shows "\<exists>t'. Decode buffer_readfull comps maxlen t rest = Some (t', Some ErrMessageTooLong, body)
     \<and> mdata t' = mdata t"
proof -
  obtain r1 where r1: "r1 = be_put32 l @ body" "Decode buffer_readfull comps maxlen t rest =
      Decode_total buffer_readfull comps maxlen (t\<lparr>mheader := h\<rparr>) r1"
    using buffer.Decode_header [OF assms(1-3) assms(6)] by blast
  show ?thesis using assms(4,5) unfolding r1(2) r1(1)
    by (simp add: Decode_total_def buffer_readfull_def Let_def)
qed

theorem Decode_too_long_witness:
  "\<exists>t'. Decode buffer_readfull Map.empty 5 NewMessage (new_header @ [0, 0, 0, 6, 1, 2]) =
     Some (t', Some ErrMessageTooLong, [1, 2])"
proof -
  have "hdr_wf (mheader NewMessage)" by (simp add: NewMessage_def)
  moreover have "CheckMagicNumber new_header" by (simp add: CheckMagicNumber_def new_header_def)
  moreover have "new_header @ [0, 0, 0, 6, 1, 2] = new_header @ be_put32 6 @ [1, 2]"
    by code_simp
  ultimately show ?thesis
    using Decode_too_long [of NewMessage new_header 5 6 "new_header @ [0, 0, 0, 6, 1, 2]" "[1, 2]" Map.empty]
    by auto
qed

text \<open>A body too short for its own first length field crashes the decoder: into a message with no
  buffer yet, a frame that announces fewer than four bytes is a slice-bounds panic, not an error.\<close>

theorem Decode_short_body_panics:
  assumes "hdr_wf (mheader t)" "hdr_wf h" "CheckMagicNumber h"
    and "slice_cap (mdata t) = 0" "length body < 4"
  shows "Decode buffer_readfull comps 0 t (h @ be_put32 (word_of_nat (length body)) @ body) = None"
proof -
  have acc: "acceptable 0 (length body)" using assms(5) by (simp add: acceptable_def)
  obtain r1 where r1: "r1 = be_put32 (word_of_nat (length body)) @ body"
    "Decode buffer_readfull comps 0 t (h @ be_put32 (word_of_nat (length body)) @ body) =
      Decode_total buffer_readfull comps 0 (t\<lparr>mheader := h\<rparr>) r1"
    using buffer.Decode_header [OF assms(1-3) refl] by blast
  obtain r2 where r2: "r2 = body" "Decode_total buffer_readfull comps 0 (t\<lparr>mheader := h\<rparr>) r1 =
      Decode_body buffer_readfull comps (t\<lparr>mheader := h\<rparr>) (length body) r2"
    using buffer.Decode_total_length [OF acc r1(1)] by blast
  let ?d = "body_slice (mdata t) (length body)"
  have "slice_cap (?d\<lparr>smem := blit (smem ?d) (slo ?d) body\<rparr>) < 4"
    using assms(4,5) by (auto simp: body_slice_def slice_cap_def make_slice_def blit_def)
  then have "decode_fields comps m (?d\<lparr>smem := blit (smem ?d) (slo ?d) body\<rparr>) = None" for m
    by (simp add: decode_fields_def slice_sub32_panic)
  then show ?thesis unfolding r1(2) r2(2) r2(1)
    by (simp add: Decode_body_def buffer_readfull_def Let_def)
qed

theorem Decode_short_body_panics_witness:
  "Decode buffer_readfull Map.empty 0 NewMessage (new_header @ [0, 0, 0, 1, 5]) = None"
proof -
  have "new_header @ [0, 0, 0, 1, 5] = new_header @ be_put32 (word_of_nat (length [5 :: byte])) @ [5]"
    by code_simp
  moreover have "hdr_wf (mheader NewMessage)" "slice_cap (mdata NewMessage) = 0"
    by (simp_all add: NewMessage_def make_slice_def slice_cap_def)
  ultimately show ?thesis
    using Decode_short_body_panics [of NewMessage new_header "[5]" Map.empty]
    by (simp only:) simp
qed

end
