(* ===== verification/MsgPool.thy ===== *)
theory MsgPool
  imports Wire
begin

text \<open>
  \<^verbatim>\<open>protocol/pool.go\<close>: the pool of messages and that of length buffers. \<^verbatim>\<open>sync.Pool\<close> may hand out any stored message or
  make a new one; the choice is an argument. What the rest of the code relies on is that a pooled
  message is clean, stated as the locale \<open>message_pool\<close>.
\<close>

definition pool_New :: message where
  "pool_New = NewMessage"

definition GetPooledMsg :: "nat option \<Rightarrow> message list \<Rightarrow> message \<times> message list" where
  "GetPooledMsg choice pool = (case choice of
       Some i \<Rightarrow> (if i < length pool then (pool ! i, take i pool @ drop (Suc i) pool)
                 else (pool_New, pool))
     | None \<Rightarrow> (pool_New, pool))"

text \<open>\<open>FreeMsg\<close> ignores nil and resets the message before it is stored.\<close>

definition FreeMsg :: "message option \<Rightarrow> message list \<Rightarrow> message list" where
  "FreeMsg msg pool = (case msg of None \<Rightarrow> pool | Some m \<Rightarrow> Reset m # pool)"

text \<open>A clean message: the header holds the magic number and nothing else, no field is set.\<close>

definition clean :: "message \<Rightarrow> bool" where
  "clean m \<longleftrightarrow> mheader m = new_header \<and> ServicePath m = '''' \<and> ServiceMethod m = '''' \<and>
     Metadata m = None \<and> Payload m = [] \<and> slice_wf (mdata m) \<and> slo (mdata m) = 0 \<and>
     slice_len (mdata m) = 0"

lemma clean_NewMessage [simp]: "clean NewMessage"
  by (simp add: clean_def NewMessage_def make_slice_def slice_wf_def slice_len_def)

lemma clean_sendable: "clean m \<Longrightarrow> sendable m"
  by (simp add: clean_def sendable_def msg_wf_def CheckMagicNumber_def new_header_def hdr_wf_def)

lemma clean_receiver: "clean m \<Longrightarrow> receiver m"
  by (simp add: clean_def receiver_def)

lemma resetHeader_magic: "hdr_wf h \<Longrightarrow> CheckMagicNumber h \<Longrightarrow> resetHeader h = new_header"
  by (cases h) (auto simp: hdr_wf_def CheckMagicNumber_def resetHeader_def new_header_def)

text \<open>
  What may be released: \<open>resetHeader\<close> keeps byte 0, so the magic number has to be there. (The buffer of a message always starts
  with its array.)
\<close>

definition releasable :: "message \<Rightarrow> bool" where
  "releasable m \<longleftrightarrow> hdr_wf (mheader m) \<and> CheckMagicNumber (mheader m) \<and> slice_wf (mdata m) \<and> slo (mdata m) = 0"

lemma sendable_releasable: "sendable m \<Longrightarrow> releasable m"
  by (simp add: sendable_def msg_wf_def releasable_def)

lemma clean_Reset: "releasable m \<Longrightarrow> clean (Reset m)"
  by (simp add: releasable_def clean_def Reset_def resetHeader_magic slice_wf_def slice_len_def)

locale message_pool =
  fixes get :: "'c \<Rightarrow> 'p \<Rightarrow> message \<times> 'p" and free :: "message option \<Rightarrow> 'p \<Rightarrow> 'p"
    and inv :: "'p \<Rightarrow> bool"
  assumes get_clean: "inv p \<Longrightarrow> get c p = (m, p') \<Longrightarrow> clean m \<and> inv p'"
    and free_inv: "inv p \<Longrightarrow> (\<And>m. msg = Some m \<Longrightarrow> releasable m) \<Longrightarrow> inv (free msg p)"
begin

text \<open>What a handler gets after any number of releases is as good as a new message.\<close>

lemma get_after_frees:
  "inv p \<Longrightarrow> (\<And>m. m \<in> set ms \<Longrightarrow> releasable m) \<Longrightarrow>
   get c (fold (\<lambda>m p. free (Some m) p) ms p) = (m, p') \<Longrightarrow> clean m"
proof (induction ms arbitrary: p)
  case Nil
  then show ?case using get_clean by auto
next
  case (Cons m' ms)
  have "inv (free (Some m') p)" using Cons.prems by (intro free_inv) auto
  with Cons show ?case by auto
qed

end

definition pool_ok :: "message list \<Rightarrow> bool" where
  "pool_ok pool \<longleftrightarrow> (\<forall>m \<in> set pool. clean m)"

interpretation pool: message_pool GetPooledMsg FreeMsg pool_ok
proof
  fix p :: "message list" and c m p'
  assume p: "pool_ok p" and get: "GetPooledMsg c p = (m, p')"
  then show "clean m \<and> pool_ok p'"
    by (auto simp: GetPooledMsg_def pool_ok_def pool_New_def
        split: option.splits if_splits) (meson in_set_takeD in_set_dropD)+
next
  fix p msg
  assume "pool_ok p" "\<And>m. msg = Some m \<Longrightarrow> releasable m"
  then show "pool_ok (FreeMsg msg p)"
    by (auto simp: FreeMsg_def pool_ok_def clean_Reset split: option.splits)
qed

text \<open>The copy a handler makes of its request carries the request's header and names.\<close>

lemma Clone_clean:
  assumes "clean p" "hdr_wf (mheader m)"
  shows "CompressType (mheader (Clone m p)) = NoCompress" "Metadata (Clone m p) = None"
    "Payload (Clone m p) = []" "Seq (mheader (Clone m p)) = Seq (mheader m)"
    "sendable m \<Longrightarrow> sendable (Clone m p)"
  using assms by (auto simp: Clone_def clean_def hdr sendable_def msg_wf_def)

section \<open>The pool of length buffers\<close>

text \<open>
  \<open>Decode_total\<close> has a local buffer for the four bytes of the length. The code takes it from \<^verbatim>\<open>poolUint32Data\<close>, with whatever
  an earlier message left in it, and puts it back before the length is looked at.
\<close>

definition poolUint32Data_New :: bytes where
  "poolUint32Data_New = replicate 4 0"

definition Get_lenData :: "nat option \<Rightarrow> bytes list \<Rightarrow> bytes \<times> bytes list" where
  "Get_lenData choice pool = (case choice of
       Some i \<Rightarrow> (if i < length pool then (pool ! i, take i pool @ drop (Suc i) pool)
                 else (poolUint32Data_New, pool))
     | None \<Rightarrow> (poolUint32Data_New, pool))"

definition Decode_pooled ::
  "('r \<Rightarrow> nat \<Rightarrow> bytes \<times> goerr option \<times> 'r) \<Rightarrow> compressors \<Rightarrow> int \<Rightarrow> nat option \<Rightarrow> bytes list \<Rightarrow> message \<Rightarrow> 'r
     \<Rightarrow> (message \<times> goerr option \<times> 'r) option \<times> bytes list" where
  "Decode_pooled readfull comps MaxMessageLength ch pool m r =
    (case Get_lenData ch pool of (lenData, pool) \<Rightarrow>
     case readfull r (length lenData) of (bs, err, r) \<Rightarrow>
     let lenData = blit lenData 0 bs; pool = lenData # pool in
     if err \<noteq> None then (Some (m, err, r), pool)
     else let l = be_get32 lenData in
     if MaxMessageLength > 0 \<and> int (unat l) > MaxMessageLength
     then (Some (m, Some ErrMessageTooLong, r), pool)
     else (Decode_body readfull comps m (unat l) r, pool))"

lemma Get_lenData_ok:
  "\<forall>b \<in> set pool. length b = 4 \<Longrightarrow> Get_lenData ch pool = (b, pool') \<Longrightarrow>
   length b = 4 \<and> (\<forall>b \<in> set pool'. length b = 4)"
  by (auto simp: Get_lenData_def poolUint32Data_New_def split: option.splits if_splits) (meson in_set_takeD in_set_dropD)+

context byte_reader begin

lemma readfull_at_most: "readfull r k = (bs, e, r') \<Longrightarrow> length bs \<le> k"
  using readfull_enough [of k r] readfull_short [of r k] by (cases "k \<le> length (rest r)") auto

text \<open>What an earlier message left in a buffer never shows, and the buffers keep their length.\<close>

lemma Decode_pooled_eq:
  assumes "\<forall>b \<in> set pool. length b = 4"
  shows "fst (Decode_pooled readfull comps maxlen ch pool m r) = Decode_total readfull comps maxlen m r \<and>
    (\<forall>b \<in> set (snd (Decode_pooled readfull comps maxlen ch pool m r)). length b = 4)"
proof -
  obtain b p' where get: "Get_lenData ch pool = (b, p')" by fastforce
  note b = Get_lenData_ok [OF assms get]
  obtain bs err r' where rd: "readfull r 4 = (bs, err, r')" by (cases "readfull r 4") auto
  have l: "length bs \<le> 4" using rd by (rule readfull_at_most)
  have "blit b 0 bs = bs" if "err = None"
    using readfull_length [of r 4 bs r'] rd b that by (simp add: blit_def)
  moreover have "length (blit b 0 bs) = 4" using b l by (simp add: blit_def)
  ultimately show ?thesis using b rd
    by (cases "err = None") (simp_all add: Decode_pooled_def Decode_total_def get Let_def)
qed

end

section \<open>Properties\<close>

text \<open>C26. While every message released into the pool has a header with the magic number and a well-formed buffer, every message it hands out is clean,
  whatever else the released ones held: no header bit but the magic number, no name, no metadata, no payload; so it
  can be encoded and decoded into. (A released message without the magic number spoils the pool, see
  \<open>bad_magic_survives_reset\<close>.)\<close>

theorem pooled_messages_clean:
  assumes "pool_ok p" "\<forall>m \<in> set ms. releasable m"
    and "GetPooledMsg c (fold (\<lambda>m. FreeMsg (Some m)) ms p) = (m, p')"
  shows "clean m \<and> sendable m \<and> receiver m"
  using pool.get_after_frees [of p ms c m p'] assms clean_sendable clean_receiver by blast

theorem pooled_messages_clean_witness:
  "clean (fst (GetPooledMsg (Some 0) (fold (\<lambda>m. FreeMsg (Some m)) [sample_message] [])))"
proof -
  obtain m p' where g: "GetPooledMsg (Some 0) (fold (\<lambda>m. FreeMsg (Some m)) [sample_message] []) = (m, p')"
    by fastforce
  moreover have "pool_ok []" by (simp add: pool_ok_def)
  ultimately show ?thesis using pooled_messages_clean [OF _ _ g] sendable_releasable [OF sample_sendable] by simp
qed

text \<open>A message whose magic number was overwritten by a failed decode must not be released: the
  reset keeps byte 0, and the pool would hand out a message that no peer accepts.\<close>

theorem bad_magic_survives_reset:
  assumes "hdr_wf (mheader m)" "\<not> CheckMagicNumber (mheader m)"
  shows "\<not> CheckMagicNumber (mheader (fst (GetPooledMsg (Some 0) (FreeMsg (Some m) pool))))"
  using assms by (cases "mheader m")
    (auto simp: GetPooledMsg_def FreeMsg_def Reset_def resetHeader_def CheckMagicNumber_def hdr_wf_def)

theorem bad_magic_survives_reset_witness:
  "\<not> CheckMagicNumber (mheader (fst (GetPooledMsg (Some 0)
      (FreeMsg (Some (NewMessage\<lparr>mheader := replicate 12 1\<rparr>)) []))))"
proof -
  have "\<not> CheckMagicNumber (replicate 12 1)" by code_simp
  then show ?thesis
    using bad_magic_survives_reset [of "NewMessage\<lparr>mheader := replicate 12 1\<rparr>" "[]"]
    by (simp add: hdr_wf_def)
qed

end
