(* ===== verification/RPCClient.thy ===== *)
theory RPCClient
  imports Codec MetadataCtx MsgPool
begin

text \<open>
  The client of one connection: \<^verbatim>\<open>client/rpcclient.go\<close> and the call options of
  \<^verbatim>\<open>client/call_options.go\<close>. Calls and channels are objects with an index, so that the table of pending
  calls, the goroutines and the caller share them as the code does through pointers. Every stretch of code
  under the mutex is one operation; what the network, the clock and other goroutines decide is an
  argument. \<open>None\<close> is a panic.
\<close>

section \<open>Calls and their options\<close>

datatype ConnStatus = ConnAvailable | ConnClose | ConnReconnect | ConnReconnectFail

text \<open>
  The functions that a \<open>BeforeOrAfterCallOption\<close> can hold: its fields are private to the package, so these
  are all. \<open>GetMetadata v\<close> writes the variable \<open>v\<close> of the caller.
\<close>

datatype CallOption = HeartBeatOption | CompressOption byte | SerializeOption byte | GetMetadata nat

record BeforeOrAfterCallOption =
  coption :: CallOption
  cafter :: bool

definition SetCallHeartBeat :: BeforeOrAfterCallOption where
  "SetCallHeartBeat = \<lparr>coption = HeartBeatOption, cafter = False\<rparr>"

definition SetCallCompressType :: "byte \<Rightarrow> BeforeOrAfterCallOption" where
  "SetCallCompressType cType = \<lparr>coption = CompressOption cType, cafter = False\<rparr>"

definition SetCallSerializeType :: "byte \<Rightarrow> BeforeOrAfterCallOption" where
  "SetCallSerializeType sType = \<lparr>coption = SerializeOption sType, cafter = False\<rparr>"

definition GetMetadataFromServer :: "nat \<Rightarrow> BeforeOrAfterCallOption" where
  "GetMetadataFromServer v = \<lparr>coption = GetMetadata v, cafter = True\<rparr>"

text \<open>\<open>cDone\<close> is the index of the call's channel; \<open>cReply\<close> what the reply pointer points to.\<close>

record 'x Call =
  cCtx :: ctx
  cServicePath :: string
  cServiceMethod :: string
  cArgs :: "'x goval"
  cReply :: "'x goval"
  cError :: "goerr option"
  cDone :: nat
  cMetadata :: "smap option"
  cHeartBeat :: bool
  cCompressType :: byte
  cSerializeType :: byte
  cSeq :: u64
  cAfterCalls :: "CallOption list"

type_synonym vars = "nat \<Rightarrow> smap option"

definition apply_option :: "CallOption \<Rightarrow> 'x Call \<times> vars \<Rightarrow> 'x Call \<times> vars" where
  "apply_option opt cv = (case cv of (call, vs) \<Rightarrow> (case opt of
      HeartBeatOption \<Rightarrow> (call\<lparr>cHeartBeat := True\<rparr>, vs)
    | CompressOption t \<Rightarrow> (call\<lparr>cCompressType := t\<rparr>, vs)
    | SerializeOption t \<Rightarrow> (call\<lparr>cSerializeType := t\<rparr>, vs)
    | GetMetadata v \<Rightarrow> (call, vs(v := cMetadata call))))"

definition add_option :: "BeforeOrAfterCallOption \<Rightarrow> 'x Call \<times> vars \<Rightarrow> 'x Call \<times> vars" where
  "add_option opt cv =
    (if cafter opt then (case cv of (call, vs) \<Rightarrow> (call\<lparr>cAfterCalls := cAfterCalls call @ [coption opt]\<rparr>, vs))
     else apply_option (coption opt) cv)"

section \<open>The client's state\<close>

text \<open>
  The first group are the fields of \<open>RPCClient\<close>; \<open>cstream\<close> is what its connection still delivers,
  \<open>connClosed\<close> and \<open>doneClosed\<close> the states of the connection and of \<open>doneChan\<close>. The second group is the heap
  (\<open>chans\<close>: capacity and queue), the third the goroutines: \<open>outbox\<close> the frames written, \<open>insend\<close> the calls
  between their registration and their write, \<open>resp\<close> and \<open>phase\<close> belong to \<open>input\<close>, which is
  \<open>Holding\<close> after it has taken the mutex behind its loop. \<open>mutex\<close> says whether the mutex is locked between two steps:
  only there, as the other critical sections are one step each. \<open>dones\<close> records the calls of \<open>done\<close>.
\<close>

datatype phase = Reading | Reconnecting | Leaving | Holding | Exited

record 'x RPCClient =
  network :: string
  address :: string
  servicePath :: string
  reconnectTryNums :: int
  heartBeatTryNums :: int
  heartBeatTimeout :: int
  heartBeatInterval :: int
  DialTimeout :: int
  cseq :: u64
  pending :: "(u64 \<times> nat) list"
  lastSend :: int
  status :: ConnStatus
  suicide :: bool
  cstream :: conn
  connClosed :: bool
  doneClosed :: bool
  calls :: "'x Call list"
  chans :: "(nat \<times> nat list) list"
  vars :: vars
  outbox :: "bytes list"
  insend :: "(nat \<times> u64) list"
  resp :: message
  phase :: phase
  mutex :: bool
  dones :: "nat list"

record 'x client_env =
  ce_libs :: "'x codec_libs"
  ce_codecs :: "'x codecs"
  ce_comps :: compressors
  ce_maxlen :: int

section \<open>\<open>done\<close>\<close>

text \<open>A send that would block is discarded.\<close>

definition call_done :: "nat \<Rightarrow> 'x RPCClient \<Rightarrow> 'x RPCClient" where
  "call_done i client =
    (let d = cDone (calls client ! i) in
     case chans client ! d of (capacity, queue) \<Rightarrow>
       client\<lparr>chans := (if length queue < capacity then (chans client)[d := (capacity, queue @ [i])] else chans client),
              dones := dones client @ [i]\<rparr>)"

definition fail_call :: "goerr \<Rightarrow> nat \<Rightarrow> 'x RPCClient \<Rightarrow> 'x RPCClient" where
  "fail_call err i client =
     call_done i (client\<lparr>calls := (calls client)[i := (calls client ! i)\<lparr>cError := Some err\<rparr>]\<rparr>)"

section \<open>Sending\<close>

definition ErrEncode :: goerr where
  "ErrEncode = ErrText ''encode ''"

text \<open>The call with its number, and the request or an error; \<open>pooled\<close> is the message from the pool.\<close>

definition createRequest ::
  "'x client_env \<Rightarrow> message \<Rightarrow> 'x Call \<Rightarrow> u64 \<Rightarrow> ('x Call \<times> (goerr + message)) option" where
  "createRequest env pooled call sq =
    (let call = call\<lparr>cSeq := sq\<rparr>;
         req = pooled\<lparr>ServicePath := cServicePath call, ServiceMethod := cServiceMethod call\<rparr>;
         req = req\<lparr>mheader := SetHeartbeat (cHeartBeat call) (mheader req)\<rparr>;
         req = (if cCompressType call \<noteq> NoCompress
                then req\<lparr>mheader := SetCompressType Gzip (mheader req)\<rparr> else req);
         req = req\<lparr>mheader := SetSeq sq (mheader req)\<rparr>;
         md = extractMdFromClientCtx (cCtx call);
         req = (if length md > 0 then req\<lparr>Metadata := Some md\<rparr> else req)
     in if cSerializeType call \<noteq> SerializeNone then
          (let req = req\<lparr>mheader := SetSerializeType (cSerializeType call) (mheader req)\<rparr> in
           case ce_codecs env (SerializeType (mheader req)) of
             None \<Rightarrow> Some (call, Inl (ErrText (''can not find codec for '' @
               format_nat 10 (unat (SerializeType (mheader req))))))
           | Some codec \<Rightarrow>
              (case codec_Encode (ce_libs env) codec (cArgs call) of
                 None \<Rightarrow> None
               | Some (data, Some err) \<Rightarrow> Some (call, Inl ErrEncode)
               | Some (data, None) \<Rightarrow> Some (call, Inr (req\<lparr>Payload := data\<rparr>))))
        else Some (call, Inr req))"

text \<open>
  \<open>send\<close> first registers the call, under the mutex, and then encodes and writes it. A failure in the
  second half takes the call out of the table, if it is still there, and completes it.
\<close>

definition send_register :: "int \<Rightarrow> nat \<Rightarrow> 'x RPCClient \<Rightarrow> 'x RPCClient" where
  "send_register now i client =
    (if status client \<noteq> ConnAvailable then fail_call ErrShutdown i client
     else (let sq = cseq client + 1 in
       client\<lparr>cseq := sq, pending := AList.update sq i (pending client), lastSend := now,
              insend := insend client @ [(i, sq)]\<rparr>))"

definition drop_pending :: "u64 \<Rightarrow> goerr \<Rightarrow> 'x RPCClient \<Rightarrow> 'x RPCClient" where
  "drop_pending sq err client =
    (let call = map_of (pending client) sq;
         client = client\<lparr>pending := AList.delete sq (pending client)\<rparr>
     in case call of None \<Rightarrow> client | Some i \<Rightarrow> fail_call err i client)"

definition send_transmit ::
  "'x client_env \<Rightarrow> message \<Rightarrow> goerr option \<Rightarrow> nat \<Rightarrow> u64 \<Rightarrow> 'x RPCClient \<Rightarrow> 'x RPCClient option" where
  "send_transmit env pooled writeErr i sq client =
    (let client = client\<lparr>insend := remove1 (i, sq) (insend client)\<rparr> in
     case createRequest env pooled (calls client ! i) sq of
       None \<Rightarrow> None
     | Some (call, res) \<Rightarrow>
        (let client = client\<lparr>calls := (calls client)[i := call]\<rparr> in
         case res of
           Inl err \<Rightarrow> Some (drop_pending sq err client)
         | Inr req \<Rightarrow>
            (case writeErr of
               None \<Rightarrow> Some (client\<lparr>outbox := outbox client @ [snd (Encode (ce_comps env) req)]\<rparr>)
             | Some err \<Rightarrow> Some (drop_pending sq err client))))"

section \<open>\<open>Go\<close> and \<open>Call\<close>\<close>

text \<open>
  \<open>new_call\<close> is the part of \<open>Go\<close> before \<open>send\<close>: it allocates the call and, unless the caller brings one
  (\<open>Some d\<close>), a channel with ten places. An unbuffered channel makes \<open>log.Panic\<close> panic.
\<close>

definition new_call ::
  "ctx \<Rightarrow> string \<Rightarrow> 'x goval \<Rightarrow> 'x goval \<Rightarrow> nat option \<Rightarrow> BeforeOrAfterCallOption list \<Rightarrow> 'x RPCClient
     \<Rightarrow> (nat \<times> 'x RPCClient) option" where
  "new_call c serviceMethod args reply doneCh options client =
    (let call = \<lparr>cCtx = c, cServicePath = servicePath client, cServiceMethod = serviceMethod, cArgs = args,
           cReply = reply, cError = None, cDone = 0, cMetadata = None, cHeartBeat = False,
           cCompressType = NoCompress, cSerializeType = MsgPack, cSeq = 0, cAfterCalls = []\<rparr>;
         (call, vs) = fold add_option options (call, vars client);
         i = length (calls client)
     in case doneCh of
          None \<Rightarrow> Some (i, client\<lparr>calls := calls client @ [call\<lparr>cDone := length (chans client)\<rparr>], vars := vs,
                    chans := chans client @ [(10, [])]\<rparr>)
        | Some d \<Rightarrow> (if fst (chans client ! d) = 0 then None
             else Some (i, client\<lparr>calls := calls client @ [call\<lparr>cDone := d\<rparr>], vars := vs\<rparr>)))"

definition Go ::
  "int \<Rightarrow> ctx \<Rightarrow> string \<Rightarrow> 'x goval \<Rightarrow> 'x goval \<Rightarrow> nat option \<Rightarrow> BeforeOrAfterCallOption list \<Rightarrow> 'x RPCClient
     \<Rightarrow> (nat \<times> 'x RPCClient) option" where
  "Go now c serviceMethod args reply doneCh options client =
    (case new_call c serviceMethod args reply doneCh options client of
       None \<Rightarrow> None
     | Some (i, client) \<Rightarrow> Some (i, send_register now i client))"

text \<open>
  \<open>Call\<close> makes a channel with one place and waits for the call or for the context, whichever is first;
  \<open>call_start\<close> is its beginning, \<open>call_await\<close> the \<^verbatim>\<open>select\<close>: \<open>expired\<close> says that the context's branch was
  taken.
\<close>

definition call_start ::
  "int \<Rightarrow> ctx \<Rightarrow> string \<Rightarrow> 'x goval \<Rightarrow> 'x goval \<Rightarrow> BeforeOrAfterCallOption list \<Rightarrow> 'x RPCClient
     \<Rightarrow> (nat \<times> 'x RPCClient) option" where
  "call_start now c serviceMethod args reply options client =
     Go now c serviceMethod args reply (Some (length (chans client))) options
       (client\<lparr>chans := chans client @ [(1, [])]\<rparr>)"

definition call_await :: "bool \<Rightarrow> nat \<Rightarrow> 'x RPCClient \<Rightarrow> (goerr option \<times> 'x RPCClient) option" where
  "call_await expired d client =
    (if expired then Some (Some ErrTimeOut, client)
     else case chans client ! d of
         (capacity, []) \<Rightarrow> None
       | (capacity, i # queue) \<Rightarrow>
           Some (cError (calls client ! i), client\<lparr>chans := (chans client)[d := (capacity, queue)]\<rparr>))"

section \<open>Responses\<close>

definition checkReplyError :: "message \<Rightarrow> goerr option" where
  "checkReplyError reply =
    (if MessageStatusType (mheader reply) = Error
     then Some (ErrText (smap_get (case Metadata reply of None \<Rightarrow> [] | Some md \<Rightarrow> md) ServiceError))
     else None)"

text \<open>Each response is read through a buffered reader of its own, which may read ahead.\<close>

definition readResponse ::
  "'x client_env \<Rightarrow> message \<Rightarrow> conn \<Rightarrow> (message \<times> goerr option \<times> conn) option" where
  "readResponse env m c =
    (case Decode bufio_readfull (ce_comps env) (ce_maxlen env) m (NewReaderSize c 1024) of
       None \<Rightarrow> None
     | Some (m, err, r) \<Rightarrow> Some (m, err, bconn r))"

text \<open>The rest of a round of \<open>input\<close>, once a response is there.\<close>

definition deliver :: "'x client_env \<Rightarrow> message \<Rightarrow> nat \<Rightarrow> 'x RPCClient \<Rightarrow> 'x RPCClient option" where
  "deliver env m i client =
    (case checkReplyError m of
       Some err \<Rightarrow> Some (fail_call err i client)
     | None \<Rightarrow>
        (case ce_codecs env (SerializeType (mheader m)) of
           None \<Rightarrow> Some (fail_call (ErrText (''can not find codec for '' @
             format_nat 10 (unat (SerializeType (mheader m))))) i client)
         | Some codec \<Rightarrow>
            (case codec_Decode (ce_libs env) codec (Payload m) (cReply (calls client ! i)) of
               None \<Rightarrow> None
             | Some (err, reply) \<Rightarrow>
                (let call = (calls client ! i)\<lparr>cReply := reply\<rparr>;
                     client = client\<lparr>calls := (calls client)[i := call]\<rparr> in
                 case err of
                   Some err \<Rightarrow> Some (fail_call err i client)
                 | None \<Rightarrow>
                    (let call = (if Metadata m \<noteq> None then call\<lparr>cMetadata := Metadata m\<rparr> else call);
                         (call, vs) = fold apply_option (cAfterCalls call) (call, vars client)
                     in Some (call_done i (client\<lparr>calls := (calls client)[i := call], vars := vs\<rparr>)))))))"

definition handle_response :: "'x client_env \<Rightarrow> message \<Rightarrow> 'x RPCClient \<Rightarrow> 'x RPCClient option" where
  "handle_response env m client =
    (let sq = Seq (mheader m);
         call = map_of (pending client) sq;
         client = client\<lparr>pending := AList.delete sq (pending client), resp := m\<rparr>
     in if IsHeartbeat (mheader m) then map_option (\<lambda>i. call_done i client) call
        else case call of
            None \<Rightarrow> Some client
          | Some i \<Rightarrow> deliver env m i client)"

section \<open>Closing and reconnecting\<close>

text \<open>\<open>order\<close> is the order in which \<^verbatim>\<open>range\<close> visits the pending calls, which stay in the table.\<close>

definition close :: "(u64 \<times> nat) list \<Rightarrow> goerr \<Rightarrow> bool \<Rightarrow> 'x RPCClient \<Rightarrow> 'x RPCClient option" where
  "close order err suic client =
    (if status client \<noteq> ConnClose then
       (let client = client\<lparr>status := ConnClose, suicide := suic\<rparr>;
            client = fold (\<lambda>(sq, i) client. fail_call err i client) order client;
            client = client\<lparr>connClosed := True\<rparr>
        in if doneClosed client then None else Some (client\<lparr>doneClosed := True\<rparr>))
     else Some client)"

definition Close :: "(u64 \<times> nat) list \<Rightarrow> 'x RPCClient \<Rightarrow> 'x RPCClient option" where
  "Close order client = close order ErrShutdown True client"

text \<open>\<open>reconnect\<close> up to its first unlock: \<open>False\<close> when the client was closed on purpose.\<close>

definition reconnect_begin :: "'x RPCClient \<Rightarrow> bool \<times> 'x RPCClient" where
  "reconnect_begin client =
    (if suicide client then (False, client)
     else (True, client\<lparr>status := ConnReconnect, phase := Reconnecting\<rparr>))"

text \<open>
  The dialling loop: \<open>dial i\<close> is the outcome of the \<open>i\<close>-th attempt; the result comes with the
  seconds slept.
\<close>

function reconnect_loop :: "(int \<Rightarrow> goerr + conn) \<Rightarrow> int \<Rightarrow> int \<Rightarrow> int \<Rightarrow> int list \<Rightarrow> goerr option
     \<Rightarrow> (goerr option \<times> conn option) \<times> int list" where
  "reconnect_loop dial tries i tempDelay slept err =
    (if i \<le> tries then
       (case dial i of
          Inr c \<Rightarrow> ((None, Some c), slept)
        | Inl e \<Rightarrow> reconnect_loop dial tries (i + 1) (2 * tempDelay)
            (if i < tries then slept @ [tempDelay] else slept) (Some e))
     else ((err, None), slept))"
  by pat_completeness auto
termination
  by (relation "measure (\<lambda>(dial, tries, i, tempDelay, slept, err). nat (tries - i + 1))") auto

declare reconnect_loop.simps [simp del]

definition reconnect_tries :: "'x RPCClient \<Rightarrow> int" where
  "reconnect_tries client = (if reconnectTryNums client \<le> 0 then 6 else reconnectTryNums client)"

definition reconnect_dial :: "(int \<Rightarrow> goerr + conn) \<Rightarrow> 'x RPCClient \<Rightarrow> (goerr option \<times> conn option) \<times> int list" where
  "reconnect_dial dial client = reconnect_loop dial (reconnect_tries client) 1 1 [] None"

definition reconnect_end :: "goerr option \<Rightarrow> conn option \<Rightarrow> 'x RPCClient \<Rightarrow> 'x RPCClient" where
  "reconnect_end err c client = (case err of
      Some e \<Rightarrow> client\<lparr>status := ConnReconnectFail, suicide := False\<rparr>
    | None \<Rightarrow> client\<lparr>status := ConnAvailable, suicide := False, connClosed := False,
        cstream := (case c of None \<Rightarrow> cstream client | Some c \<Rightarrow> c)\<rparr>)"

definition reconnect :: "(int \<Rightarrow> goerr + conn) \<Rightarrow> 'x RPCClient \<Rightarrow> goerr option \<times> 'x RPCClient" where
  "reconnect dial client = (case reconnect_begin client of
      (False, client) \<Rightarrow> (Some ErrShutdown, client)
    | (True, client) \<Rightarrow> (case reconnect_dial dial client of
        ((err, c), slept) \<Rightarrow> (err, reconnect_end err c client)))"

text \<open>\<^verbatim>\<open>sync.Mutex\<close> is not reentrant: \<open>Lock\<close> of a locked mutex, whoever holds it, has to wait (\<open>None\<close>).\<close>

definition mutex_Lock :: "'x RPCClient \<Rightarrow> 'x RPCClient option" where
  "mutex_Lock client = (if mutex client then None else Some (client\<lparr>mutex := True\<rparr>))"

definition mutex_Unlock :: "'x RPCClient \<Rightarrow> 'x RPCClient" where
  "mutex_Unlock client = client\<lparr>mutex := False\<rparr>"

text \<open>The method \<open>close\<close> with its locking.\<close>

definition locked_close :: "(u64 \<times> nat) list \<Rightarrow> goerr \<Rightarrow> bool \<Rightarrow> 'x RPCClient \<Rightarrow> 'x RPCClient option" where
  "locked_close order err suic client =
     Option.bind (mutex_Lock client) (\<lambda>client. map_option mutex_Unlock (close order err suic client))"

text \<open>The end of \<open>input\<close> between its \<open>Lock\<close> and its return.\<close>

definition input_exit :: "(u64 \<times> nat) list \<Rightarrow> goerr \<Rightarrow> 'x RPCClient \<Rightarrow> 'x RPCClient option" where
  "input_exit order err client =
     map_option (\<lambda>client. (mutex_Unlock client)\<lparr>phase := Exited\<rparr>)
       (if status client = ConnReconnectFail then locked_close order err False client else Some client)"

end
