(* ===== verification/ClientLife.thy ===== *)
theory ClientLife
  imports RPCClient
begin

text \<open>
  The rest of \<^verbatim>\<open>client/rpcclient.go\<close>: dialling, making a client, heartbeats and the keepalive loop, and the
  two guards of a call, the circuit breaker (\<^verbatim>\<open>gobreaker\<close>) and the rate limiter (\<^verbatim>\<open>ratelimit\<close>), which are
  parameters.
\<close>

section \<open>Dialling\<close>

text \<open>
  \<open>net_lib\<close>: \<^verbatim>\<open>net.DialTimeout\<close>, \<^verbatim>\<open>net.Dial\<close>, and \<^verbatim>\<open>http.ReadResponse\<close> on a connection to which the given
  bytes were written, with the status line.
\<close>

record net_lib =
  net_DialTimeout :: "string \<Rightarrow> string \<Rightarrow> int \<Rightarrow> goerr + conn"
  net_Dial :: "string \<Rightarrow> string \<Rightarrow> goerr + conn"
  http_ReadResponse :: "conn \<Rightarrow> string \<Rightarrow> goerr + string"

definition connected :: string where
  "connected = ''200 Connected to Go RPC''"

definition DefaultRPCPath :: string where
  "DefaultRPCPath = ''/_goRPC_''"

definition Dial :: "net_lib \<Rightarrow> string \<Rightarrow> string \<Rightarrow> int \<Rightarrow> goerr + conn" where
  "Dial N nw addr timeout =
    (case (if timeout > 0 then net_DialTimeout N nw addr timeout else net_Dial N nw addr) of
       Inl err \<Rightarrow> Inl err
     | Inr c \<Rightarrow> Inr c)"

text \<open>The error of \<^verbatim>\<open>net.OpError\<close>.\<close>

definition OpError :: "(goerr \<Rightarrow> string) \<Rightarrow> string \<Rightarrow> string \<Rightarrow> goerr \<Rightarrow> goerr" where
  "OpError txt op nw err = ErrText (op @ '' '' @ nw @ '': '' @ txt err)"

definition DialHTTPPath ::
  "net_lib \<Rightarrow> (goerr \<Rightarrow> string) \<Rightarrow> string \<Rightarrow> string \<Rightarrow> string \<Rightarrow> int \<Rightarrow> goerr + conn" where
  "DialHTTPPath N txt nw addr path timeout =
    (case (if timeout > 0 then net_DialTimeout N nw addr timeout else net_Dial N nw addr) of
       Inl err \<Rightarrow> Inl err
     | Inr c \<Rightarrow>
        (case http_ReadResponse N c (''CONNECT '' @ path @ '' HTTP/1.0'' @ [CHR 0x0A, CHR 0x0A]) of
           Inr st \<Rightarrow> (if st = connected then Inr c
             else Inl (OpError txt ''dial-http'' (nw @ '' '' @ addr)
                    (ErrText (''unexpected HTTP response: '' @ st))))
         | Inl err \<Rightarrow> Inl (OpError txt ''dial-http'' (nw @ '' '' @ addr) err)))"

definition DialHTTP :: "net_lib \<Rightarrow> (goerr \<Rightarrow> string) \<Rightarrow> string \<Rightarrow> string \<Rightarrow> int \<Rightarrow> goerr + conn" where
  "DialHTTP N txt nw addr timeout = DialHTTPPath N txt nw addr DefaultRPCPath timeout"

section \<open>Making a client\<close>

record RPCClientConfig =
  conf_network :: string
  conf_address :: string
  conf_servicePath :: string
  conf_dialTimeout :: int

definition defHeatBeatInterval :: int where
  "defHeatBeatInterval = 5"

definition make_client :: "RPCClientConfig \<Rightarrow> conn \<Rightarrow> 'x RPCClient" where
  "make_client conf c = \<lparr>network = conf_network conf, address = conf_address conf,
     servicePath = ToLower (conf_servicePath conf), reconnectTryNums = 0, heartBeatTryNums = 0,
     heartBeatTimeout = 0, heartBeatInterval = defHeatBeatInterval, DialTimeout = conf_dialTimeout conf,
     cseq = 0, pending = [], lastSend = 0, status = ConnAvailable, suicide = False, cstream = c,
     connClosed = False, doneClosed = False, calls = [], chans = [], vars = (\<lambda>_. None), outbox = [],
     insend = [], resp = NewMessage, phase = Reading, mutex = False, dones = []\<rparr>"

definition NewRPCClient ::
  "net_lib \<Rightarrow> (goerr \<Rightarrow> string) \<Rightarrow> RPCClientConfig \<Rightarrow> goerr + 'x RPCClient" where
  "NewRPCClient N txt conf =
    (if conf_network conf = ''tcp'' then
       (case Dial N (conf_network conf) (conf_address conf) (conf_dialTimeout conf) of
          Inl err \<Rightarrow> Inl err | Inr c \<Rightarrow> Inr (make_client conf c))
     else if conf_network conf = ''http'' then
       (case DialHTTP N txt (conf_network conf) (conf_address conf) (conf_dialTimeout conf) of
          Inl err \<Rightarrow> Inl err | Inr c \<Rightarrow> Inr (make_client conf c))
     else Inl (ErrText (''unsupport network '' @ conf_network conf)))"

text \<open>The dialling of an attempt to reconnect.\<close>

definition redial :: "net_lib \<Rightarrow> (goerr \<Rightarrow> string) \<Rightarrow> 'x RPCClient \<Rightarrow> goerr + conn" where
  "redial N txt client =
    (if network client = ''tcp'' then Dial N (network client) (address client) (DialTimeout client)
     else DialHTTP N txt (network client) (address client) (DialTimeout client))"

section \<open>Heartbeats\<close>

text \<open>
  \<open>attempt i\<close> is the result of the \<open>i\<close>-th call of the heartbeat; after an error other than a timeout
  the code sleeps, for twice as long each time.
\<close>

fun heartbeat_loop :: "(nat \<Rightarrow> goerr option) \<Rightarrow> nat \<Rightarrow> nat \<Rightarrow> int \<Rightarrow> goerr option \<Rightarrow> int list
     \<Rightarrow> goerr option \<times> int list" where
  "heartbeat_loop attempt i 0 tempDelay err slept = (err, slept)"
| "heartbeat_loop attempt i (Suc n) tempDelay err slept = (case attempt i of
      None \<Rightarrow> (None, slept)
    | Some e \<Rightarrow> (if e = ErrTimeOut then heartbeat_loop attempt (Suc i) n tempDelay (Some e) slept
        else heartbeat_loop attempt (Suc i) n (2 * tempDelay) (Some e) (slept @ [tempDelay])))"

definition heartbeat_tries :: "'x RPCClient \<Rightarrow> nat" where
  "heartbeat_tries client = nat (if heartBeatTryNums client \<le> 0 then 3 else heartBeatTryNums client)"

definition heartbeat_timeout :: "'x RPCClient \<Rightarrow> int" where
  "heartbeat_timeout client = (if heartBeatTimeout client \<le> 0 then 2 else heartBeatTimeout client)"

definition sendHeartBeat :: "(nat \<Rightarrow> goerr option) \<Rightarrow> 'x RPCClient \<Rightarrow> goerr option \<times> int list" where
  "sendHeartBeat attempt client = heartbeat_loop attempt 0 (heartbeat_tries client) 1 None []"

text \<open>The options of a heartbeat call.\<close>

definition heartbeat_options :: "BeforeOrAfterCallOption list" where
  "heartbeat_options = [SetCallSerializeType SerializeNone, SetCallHeartBeat]"

text \<open>
  One round of \<open>keepalive\<close> when its timer fires: the seconds until the next one and the client. \<open>hb\<close> is
  the heartbeat together with whatever else happens to the client while it runs.
\<close>

definition keepalive_fail :: "'x RPCClient \<Rightarrow> 'x RPCClient" where
  "keepalive_fail client =
    (if status client = ConnAvailable
     then client\<lparr>suicide := True, status := ConnClose, connClosed := True\<rparr> else client)"

definition keepalive_round ::
  "int \<Rightarrow> ('x RPCClient \<Rightarrow> goerr option \<times> 'x RPCClient) \<Rightarrow> 'x RPCClient \<Rightarrow> int \<times> 'x RPCClient" where
  "keepalive_round now hb client =
    (let nextKaInterval = heartBeatInterval client in
     if status client \<noteq> ConnAvailable then (nextKaInterval, client)
     else if now - lastSend client < heartBeatInterval client then
       (lastSend client + heartBeatInterval client - now, client)
     else (case hb client of
         (None, client) \<Rightarrow> (nextKaInterval, client)
       | (Some err, client) \<Rightarrow> (nextKaInterval, keepalive_fail client)))"

section \<open>The guards of a call\<close>

text \<open>
  \<open>execute b f s\<close> is \<^verbatim>\<open>breaker.Execute(f)\<close>, which may run \<open>f\<close> on the state \<open>s\<close> or refuse; \<open>wait\<close> is
  \<^verbatim>\<open>bucket.Wait(1)\<close>.
\<close>

record ('b, 'k) guards =
  breaker :: "'b option"
  bucket :: "'k option"

definition SetCircuitBreaker :: "('c \<Rightarrow> 'b) \<Rightarrow> 'c option \<Rightarrow> ('b, 'k) guards \<Rightarrow> ('b, 'k) guards" where
  "SetCircuitBreaker NewCircuitBreaker s g =
    (case s of None \<Rightarrow> g | Some s \<Rightarrow> g\<lparr>breaker := Some (NewCircuitBreaker s)\<rparr>)"

definition SetRateLimiter :: "('c \<Rightarrow> 'k) \<Rightarrow> 'c option \<Rightarrow> ('b, 'k) guards \<Rightarrow> ('b, 'k) guards" where
  "SetRateLimiter NewBucketWithQuantum conf g =
    (case conf of None \<Rightarrow> g | Some conf \<Rightarrow> g\<lparr>bucket := Some (NewBucketWithQuantum conf)\<rparr>)"

definition guarded_Call ::
  "('b \<Rightarrow> ('s \<Rightarrow> goerr option \<times> 's) \<Rightarrow> 's \<Rightarrow> goerr option \<times> 'b \<times> 's) \<Rightarrow> ('k \<Rightarrow> 'k) \<Rightarrow> ('b, 'k) guards
     \<Rightarrow> string \<Rightarrow> ('s \<Rightarrow> goerr option \<times> 's) \<Rightarrow> 's \<Rightarrow> goerr option \<times> ('b, 'k) guards \<times> 's" where
  "guarded_Call execute wait g serviceMethod f s =
    (let g = g\<lparr>bucket := map_option wait (bucket g)\<rparr> in
     case breaker g of
       Some b \<Rightarrow> (if length serviceMethod > 0 then
           (case execute b f s of (err, b, s) \<Rightarrow> (err, g\<lparr>breaker := Some b\<rparr>, s))
         else (case f s of (err, s) \<Rightarrow> (err, g, s)))
     | None \<Rightarrow> (case f s of (err, s) \<Rightarrow> (err, g, s)))"

end
