(* ===== verification/ClientSteps.thy ===== *)
theory ClientSteps
  imports ClientLife "HOL-Library.Multiset"
begin

text \<open>
  The goroutines of one RPC client as a state machine: callers, the reading goroutine \<open>input\<close>, the
  keepalive goroutine and \<open>Close\<close>, interleaved at the granularity of the mutex. Each rule is one critical
  section of \<^verbatim>\<open>client/rpcclient.go\<close>, so it needs the mutex; only \<open>input\<close> at its end calls a function that locks while it
  has the mutex, and is modelled with the locking. A write that succeeds does without the mutex.
\<close>

section \<open>Steps\<close>

text \<open>
  The reading goroutine after a failed read: it leaves its loop when the client was closed on purpose
  and begins to reconnect otherwise.
\<close>

definition read_failed :: "'x RPCClient \<Rightarrow> 'x RPCClient" where
  "read_failed client =
    (if suicide client then client\<lparr>phase := Leaving\<rparr>
     else (case reconnect_begin client of
         (False, client) \<Rightarrow> client\<lparr>phase := Leaving\<rparr>
       | (True, client) \<Rightarrow> client))"

definition reconnected :: "(int \<Rightarrow> goerr + conn) \<Rightarrow> 'x RPCClient \<Rightarrow> 'x RPCClient" where
  "reconnected dial client = (case reconnect_dial dial client of
      ((None, c), slept) \<Rightarrow> (reconnect_end None c client)\<lparr>phase := Reading\<rparr>
    | ((Some err, c), slept) \<Rightarrow> (reconnect_end (Some err) c client)\<lparr>phase := Leaving\<rparr>)"

inductive client_step :: "'x client_env \<Rightarrow> 'x RPCClient \<Rightarrow> 'x RPCClient \<Rightarrow> bool" for env :: "'x client_env" where
  chan: "client_step env client (client\<lparr>chans := chans client @ [(capacity, [])]\<rparr>)"
| go: "\<not> mutex client \<Longrightarrow> (\<And>d. doneCh = Some d \<Longrightarrow> d < length (chans client)) \<Longrightarrow>
    Go now c serviceMethod args reply doneCh options client = Some (i, client') \<Longrightarrow>
    client_step env client client'"
| transmit: "(outbox client' = outbox client \<Longrightarrow> \<not> mutex client) \<Longrightarrow> (i, sq) \<in> set (insend client) \<Longrightarrow> clean pooled \<Longrightarrow>
    send_transmit env pooled writeErr i sq client = Some client' \<Longrightarrow> client_step env client client'"
| response: "\<not> mutex client \<Longrightarrow> phase client = Reading \<Longrightarrow> \<not> connClosed client \<Longrightarrow>
    readResponse env (resp client) (cstream client) = Some (m, None, s) \<Longrightarrow>
    handle_response env m (client\<lparr>cstream := s\<rparr>) = Some client' \<Longrightarrow> client_step env client client'"
| read_error: "\<not> mutex client \<Longrightarrow> phase client = Reading \<Longrightarrow>
    connClosed client \<or> (\<exists>e. readResponse env (resp client) (cstream client) = Some (m, Some e, s)) \<Longrightarrow>
    client_step env client (read_failed (client\<lparr>resp := m, cstream := s\<rparr>))"
| reconnect: "\<not> mutex client \<Longrightarrow> phase client = Reconnecting \<Longrightarrow> client_step env client (reconnected dial client)"
| leave: "phase client = Leaving \<Longrightarrow> mutex_Lock client = Some client' \<Longrightarrow> client_step env client (client'\<lparr>phase := Holding\<rparr>)"
| exit: "phase client = Holding \<Longrightarrow> mset order = mset (pending client) \<Longrightarrow> input_exit order err client = Some client' \<Longrightarrow>
    client_step env client client'"
| keepalive: "\<not> mutex client \<Longrightarrow> \<not> doneClosed client \<Longrightarrow> client_step env client (keepalive_fail client)"
| closed: "\<not> mutex client \<Longrightarrow> mset order = mset (pending client) \<Longrightarrow> Close order client = Some client' \<Longrightarrow>
    client_step env client client'"
| await: "call_await False d client = Some (err, client') \<Longrightarrow> client_step env client client'"

inductive_cases client_stepE: "client_step env client client'"

inductive client_reach :: "'x client_env \<Rightarrow> 'x RPCClient \<Rightarrow> 'x RPCClient \<Rightarrow> bool" for env :: "'x client_env" where
  init: "client_reach env client client"
| step: "client_reach env client client1 \<Longrightarrow> client_step env client1 client2 \<Longrightarrow> client_reach env client client2"

section \<open>What the operations change\<close>

lemma call_done_simps [simp]:
  "dones (call_done i client) = dones client @ [i]" "pending (call_done i client) = pending client"
  "calls (call_done i client) = calls client" "status (call_done i client) = status client"
  "suicide (call_done i client) = suicide client" "doneClosed (call_done i client) = doneClosed client"
  "cseq (call_done i client) = cseq client" "length (chans (call_done i client)) = length (chans client)"
  "insend (call_done i client) = insend client" "mutex (call_done i client) = mutex client"
  "phase (call_done i client) = phase client" "connClosed (call_done i client) = connClosed client"
  "outbox (call_done i client) = outbox client" "vars (call_done i client) = vars client"
  by (simp_all add: call_done_def Let_def split: prod.splits)

lemma fail_call_simps [simp]:
  "dones (fail_call e i client) = dones client @ [i]" "pending (fail_call e i client) = pending client"
  "status (fail_call e i client) = status client" "suicide (fail_call e i client) = suicide client"
  "doneClosed (fail_call e i client) = doneClosed client" "cseq (fail_call e i client) = cseq client"
  "length (chans (fail_call e i client)) = length (chans client)"
  "insend (fail_call e i client) = insend client" "mutex (fail_call e i client) = mutex client"
  "phase (fail_call e i client) = phase client" "connClosed (fail_call e i client) = connClosed client"
  "outbox (fail_call e i client) = outbox client"
  "calls (fail_call e i client) = (calls client)[i := (calls client ! i)\<lparr>cError := Some e\<rparr>]"
  by (simp_all add: fail_call_def)

section \<open>At most one completion\<close>

text \<open>
  The calls that are done or pending are different calls, all of them allocated, as long as \<open>Close\<close> has not
  gone through the table.
\<close>

definition once_ids :: "nat list \<Rightarrow> (u64 \<times> nat) list \<Rightarrow> nat \<Rightarrow> bool" where
  "once_ids D P n \<longleftrightarrow> distinct D \<and> distinct (map snd P) \<and> (\<forall>i \<in> set D. i < n) \<and>
     (\<forall>(k, i) \<in> set P. i < n \<and> i \<notin> set D)"

definition once :: "'x RPCClient \<Rightarrow> bool" where
  "once client \<longleftrightarrow> once_ids (dones client) (pending client) (length (calls client))"

lemma snd_unique: "distinct (map snd xs) \<Longrightarrow> (j, i) \<in> set xs \<Longrightarrow> (k, i) \<in> set xs \<Longrightarrow> j = k"
  by (induction xs) (auto simp: rev_image_eqI)

lemma set_delete: "set (AList.delete k xs) = {e \<in> set xs. fst e \<noteq> k}"
  by (auto simp: AList.delete_eq)

lemma distinct_snd_delete: "distinct (map snd xs) \<Longrightarrow> distinct (map snd (AList.delete k xs))"
  by (simp add: AList.delete_eq distinct_map_filter)

lemma distinct_snd_update:
  "distinct (map snd xs) \<Longrightarrow> i \<notin> snd ` set xs \<Longrightarrow>
   distinct (map snd (AList.update k i xs)) \<and> set (AList.update k i xs) \<subseteq> insert (k, i) (set xs)"
  by (induction xs) (auto simp: rev_image_eqI)

lemma once_ids_drop: "once_ids D P n \<Longrightarrow> once_ids D (AList.delete k P) n"
  by (auto simp: once_ids_def set_delete distinct_snd_delete)

lemma once_ids_take:
  assumes "once_ids D P n" "map_of P k = Some i"
  shows "once_ids (D @ [i]) (AList.delete k P) n"
proof -
  have k: "(k, i) \<in> set P" using map_of_SomeD [OF assms(2)] .
  have d: "distinct (map snd P)" using assms(1) by (simp add: once_ids_def)
  have all: "i' < n \<and> i' \<notin> set D" if "(k', i') \<in> set P" for k' i'
    using assms(1) that by (auto simp: once_ids_def)
  have other: "i' \<noteq> i" if "(k', i') \<in> set P" "k' \<noteq> k" for k' i'
    using snd_unique [OF d _ k] that by blast
  have "\<forall>(k', i') \<in> set (AList.delete k P). i' < n \<and> i' \<notin> set (D @ [i])"
    using all other unfolding set_delete by fastforce
  moreover have "distinct (D @ [i]) \<and> (\<forall>j \<in> set (D @ [i]). j < n)"
    using assms(1) all [OF k] by (simp add: once_ids_def)
  ultimately show ?thesis using distinct_snd_delete [OF d, of k] unfolding once_ids_def by blast
qed

lemma once_ids_fail: "once_ids D P n \<Longrightarrow> once_ids (D @ [n]) P (Suc n)"
  by (fastforce simp: once_ids_def)

lemma once_ids_add:
  assumes "once_ids D P n"
  shows "once_ids D (AList.update k n P) (Suc n)"
proof -
  have "n \<notin> snd ` set P" using assms by (auto simp: once_ids_def)
  then show ?thesis using distinct_snd_update [of P n k] assms
    by (fastforce simp: once_ids_def)
qed

lemma once_drop_pending: "once client \<Longrightarrow> once (drop_pending sq e client)"
  by (auto simp: drop_pending_def once_def Let_def once_ids_drop once_ids_take split: option.splits)

lemma new_call_same:
  "new_call c sm args reply doneCh options client = Some (i, client1) \<Longrightarrow>
   i = length (calls client) \<and> dones client1 = dones client \<and> pending client1 = pending client \<and>
   length (calls client1) = Suc (length (calls client)) \<and> doneClosed client1 = doneClosed client"
  by (auto simp: new_call_def Let_def split: option.splits if_splits prod.splits)

lemma doneClosed_Go:
  "Go now c sm args reply doneCh options client = Some (i, client') \<Longrightarrow> doneClosed client' = doneClosed client"
  by (auto simp: Go_def send_register_def Let_def dest!: new_call_same split: option.splits if_splits)

lemma once_Go:
  assumes "Go now c sm args reply doneCh options client = Some (i, client')" "once client"
  shows "once client'"
proof -
  obtain client1 where n: "new_call c sm args reply doneCh options client = Some (i, client1)"
    "client' = send_register now i client1"
    using assms(1) by (auto simp: Go_def split: option.splits)
  show ?thesis using new_call_same [OF n(1)] assms(2) once_ids_add once_ids_fail
    by (auto simp: n(2) send_register_def once_def Let_def)
qed

lemma deliver_same:
  assumes "deliver env m i client = Some client'"
  shows "dones client' = dones client @ [i] \<and> pending client' = pending client \<and>
    length (calls client') = length (calls client) \<and> doneClosed client' = doneClosed client"
  using assms by (auto simp: deliver_def Let_def split: option.splits prod.splits)

lemma handle_response_doneClosed:
  "handle_response env m client = Some client' \<Longrightarrow> doneClosed client' = doneClosed client"
  by (auto simp: handle_response_def Let_def dest!: deliver_same split: if_splits option.splits)

lemma handle_response_once:
  assumes "handle_response env m client = Some client'" "once client"
  shows "once client'"
proof (cases "map_of (pending client) (Seq (mheader m))")
  case None
  then show ?thesis using assms
    by (auto simp: handle_response_def Let_def once_def once_ids_drop split: if_splits)
next
  case (Some i)
  let ?client = "client\<lparr>pending := AList.delete (Seq (mheader m)) (pending client), resp := m\<rparr>"
  have "dones client' = dones client @ [i] \<and> pending client' = pending ?client \<and>
      length (calls client') = length (calls client)"
    using assms(1) Some deliver_same [of env m i ?client client']
    by (auto simp: handle_response_def Let_def split: if_splits)
  then show ?thesis using once_ids_take [OF _ Some] assms(2) by (simp add: once_def)
qed

lemma doneClosed_drop_pending [simp]: "doneClosed (drop_pending sq e c) = doneClosed c"
  by (simp add: drop_pending_def Let_def split: option.splits)

lemma send_transmit_doneClosed:
  "send_transmit env pooled we i sq client = Some client' \<Longrightarrow> doneClosed client' = doneClosed client"
  by (auto simp: send_transmit_def Let_def split: option.splits sum.splits)

lemma send_transmit_once:
  assumes "send_transmit env pooled we i sq client = Some client'" "once client"
  shows "once client'"
proof -
  obtain call res where cr: "createRequest env pooled (calls client ! i) sq = Some (call, res)"
    using assms(1) by (auto simp: send_transmit_def Let_def split: option.splits)
  let ?client = "client\<lparr>insend := remove1 (i, sq) (insend client), calls := (calls client)[i := call]\<rparr>"
  have o: "once ?client" using assms(2) by (simp add: once_def)
  have "(\<exists>out. client' = ?client\<lparr>outbox := out\<rparr>) \<or> (\<exists>e. client' = drop_pending sq e ?client)"
    using assms(1) cr by (auto simp: send_transmit_def Let_def split: sum.splits option.splits)
  then show ?thesis
  proof
    assume "\<exists>out. client' = ?client\<lparr>outbox := out\<rparr>"
    then show ?thesis using o by (auto simp: once_def)
  next
    assume "\<exists>e. client' = drop_pending sq e ?client"
    then show ?thesis using once_drop_pending [OF o] by auto
  qed
qed

text \<open>Every step but \<open>Close\<close> keeps the invariant, and only \<open>Close\<close> closes \<open>doneChan\<close>.\<close>

lemma reconnect_ops_once:
  "once (read_failed client) = once client" "once (reconnected dial client) = once client"
  "once (keepalive_fail client) = once client"
  "doneClosed (read_failed client) = doneClosed client" "doneClosed (reconnected dial client) = doneClosed client"
  "doneClosed (keepalive_fail client) = doneClosed client"
  by (simp_all add: read_failed_def reconnected_def keepalive_fail_def reconnect_begin_def
      reconnect_end_def once_def split: prod.splits option.splits)

lemma close_doneClosed:
  "Close order client = Some client' \<Longrightarrow> status client \<noteq> ConnClose \<Longrightarrow> doneClosed client'"
  by (auto simp: Close_def close_def Let_def split: if_splits)

lemma call_await_once:
  "call_await False d client = Some (err, client') \<Longrightarrow>
   once client' = once client \<and> doneClosed client' = doneClosed client"
  by (cases "chans client ! d"; cases "snd (chans client ! d)") (auto simp: call_await_def once_def)

lemma Close_mono: "Close order client = Some client' \<Longrightarrow> doneClosed client \<Longrightarrow> doneClosed client'"
  by (auto simp: Close_def close_def Let_def split: if_splits)

text \<open>The end of \<open>input\<close> closes \<open>doneChan\<close> where it could close the client, and changes nothing else otherwise.\<close>

lemma input_exit_cases:
  assumes "input_exit order err client = Some client'"
  shows "client' = client\<lparr>mutex := False, phase := Exited\<rparr> \<or> status client = ConnReconnectFail \<and> \<not> mutex client \<and> doneClosed client'"
  using assms
  by (auto simp: input_exit_def locked_close_def mutex_Lock_def mutex_Unlock_def close_def Let_def bind_eq_Some_conv
      split: if_splits)

lemma client_step_doneClosed: "client_step env client client' \<Longrightarrow> doneClosed client \<Longrightarrow> doneClosed client'"
  by (erule client_step.cases)
    (auto simp: reconnect_ops_once doneClosed_Go send_transmit_doneClosed call_await_once
      mutex_Lock_def split: if_splits dest: handle_response_doneClosed Close_mono input_exit_cases)

lemma client_step_once:
  assumes "client_step env client client'" "once client" "\<not> doneClosed client'"
  shows "once client'"
  using assms(1)
proof (cases rule: client_step.cases)
  case (chan capacity)
  then show ?thesis using assms by (simp add: once_def)
next
  case (go doneCh now c sm args reply options i)
  then show ?thesis using assms once_Go by blast
next
  case (transmit i sq pooled we)
  then show ?thesis using assms send_transmit_once by blast
next
  case (response m s)
  have "once (client\<lparr>cstream := s\<rparr>)" using assms(2) by (simp add: once_def)
  then show ?thesis using handle_response_once [OF response(5)] assms(3) by simp
next
  case (read_error m s)
  then show ?thesis using assms by (simp add: reconnect_ops_once) (simp add: once_def)
next
  case (reconnect dial)
  then show ?thesis using assms by (simp add: reconnect_ops_once)
next
  case (leave client1)
  then show ?thesis using assms(2) by (auto simp: mutex_Lock_def once_def split: if_splits)
next
  case (exit order err)
  then show ?thesis using input_exit_cases [OF exit(3)] assms(2,3) by (auto simp: once_def)
next
  case keepalive
  then show ?thesis using assms by (simp add: reconnect_ops_once)
next
  case (closed order)
  then have "status client = ConnClose" using assms(3) close_doneClosed by blast
  then show ?thesis using closed(3) assms by (simp add: Close_def close_def)
next
  case (await d err)
  then show ?thesis using assms call_await_once by blast
qed

lemma client_reach_once:
  "client_reach env client client' \<Longrightarrow> once client \<Longrightarrow> \<not> doneClosed client' \<Longrightarrow> once client'"
proof (induction rule: client_reach.induct)
  case (step client client1 client2)
  then have "\<not> doneClosed client1"
    using step.hyps(2) step.prems client_step_doneClosed by blast
  then show ?case using step client_step_once by blast
qed simp

section \<open>Delivering a response\<close>

lemma apply_option_same:
  "cReply (fst (apply_option opt cv)) = cReply (fst cv) \<and> cError (fst (apply_option opt cv)) = cError (fst cv) \<and>
   cDone (fst (apply_option opt cv)) = cDone (fst cv) \<and> cMetadata (fst (apply_option opt cv)) = cMetadata (fst cv)"
  by (auto simp: apply_option_def split: CallOption.splits prod.splits)

lemma fold_option_same:
  "cReply (fst (fold apply_option opts cv)) = cReply (fst cv) \<and> cError (fst (fold apply_option opts cv)) = cError (fst cv) \<and>
   cDone (fst (fold apply_option opts cv)) = cDone (fst cv) \<and> cMetadata (fst (fold apply_option opts cv)) = cMetadata (fst cv)"
  by (induction opts arbitrary: cv) (simp_all add: apply_option_same)

lemma apply_option_simps:
  "apply_option HeartBeatOption (call, vs) = (call\<lparr>cHeartBeat := True\<rparr>, vs)"
  "apply_option (CompressOption t) (call, vs) = (call\<lparr>cCompressType := t\<rparr>, vs)"
  "apply_option (SerializeOption t) (call, vs) = (call\<lparr>cSerializeType := t\<rparr>, vs)"
  "apply_option (GetMetadata v) (call, vs) = (call, vs(v := cMetadata call))"
  by (simp_all add: apply_option_def)

lemma fold_option_GetMetadata:
  "GetMetadata v \<in> set opts \<Longrightarrow> snd (fold apply_option opts cv) v = cMetadata (fst cv)"
proof (induction opts rule: rev_induct)
  case (snoc opt opts)
  obtain call vs where cv: "fold apply_option opts cv = (call, vs)" by fastforce
  then have "cMetadata call = cMetadata (fst cv)" using fold_option_same [of opts cv] by simp
  moreover have "fold apply_option (opts @ [opt]) cv = apply_option opt (call, vs)" using cv by simp
  moreover have "snd (apply_option opt (call, vs)) v = cMetadata (fst cv)"
    using snoc \<open>cMetadata call = cMetadata (fst cv)\<close> cv by (cases opt) (auto simp: apply_option_simps)
  ultimately show ?case by simp
qed simp

lemma deliver_success:
  assumes i: "i < length (calls client)"
    and ok: "checkReplyError m = None" "ce_codecs env (SerializeType (mheader m)) = Some codec"
    and dec: "codec_Decode (ce_libs env) codec (Payload m) (cReply (calls client ! i)) = Some (None, reply)"
  shows "\<exists>client'. deliver env m i client = Some client' \<and> cReply (calls client' ! i) = reply \<and>
     cError (calls client' ! i) = cError (calls client ! i) \<and>
     (\<forall>j. j \<noteq> i \<longrightarrow> calls client' ! j = calls client ! j) \<and>
     dones client' = dones client @ [i] \<and> pending client' = pending client \<and>
     (\<forall>v. GetMetadata v \<in> set (cAfterCalls (calls client ! i)) \<longrightarrow> Metadata m \<noteq> None \<longrightarrow>
        vars client' v = Metadata m)"
proof -
  let ?call = "(calls client ! i)\<lparr>cReply := reply\<rparr>"
  let ?call1 = "if Metadata m \<noteq> None then ?call\<lparr>cMetadata := Metadata m\<rparr> else ?call"
  obtain call vs where cv: "fold apply_option (cAfterCalls ?call1) (?call1, vars client) = (call, vs)"
    by fastforce
  have same: "cReply call = reply" "cError call = cError (calls client ! i)"
    using fold_option_same [of "cAfterCalls ?call1" "(?call1, vars client)"] cv by (auto split: if_splits)
  have vs: "vs v = Metadata m" if "GetMetadata v \<in> set (cAfterCalls (calls client ! i))" "Metadata m \<noteq> None" for v
    using fold_option_GetMetadata [of v "cAfterCalls ?call1" "(?call1, vars client)"] cv that by simp
  have "deliver env m i client = Some (call_done i (client\<lparr>calls := (calls client)[i := call], vars := vs\<rparr>))"
    using ok dec cv i by (simp add: deliver_def Let_def)
  then show ?thesis using same vs i by simp
qed

section \<open>Reading ahead\<close>

lemma bufio_read_buffered:
  "0 < k \<Longrightarrow> k \<le> length (bbuf b) \<Longrightarrow> bufio_read b k = (take k (bbuf b), None, b\<lparr>bbuf := drop k (bbuf b)\<rparr>)"
  by (auto simp: bufio_read_def)

lemma bufio_readfull_buffered:
  assumes "k \<le> length (bbuf b)"
  shows "bufio_readfull b k = (take k (bbuf b), None, b\<lparr>bbuf := drop k (bbuf b)\<rparr>)"
proof (cases "k = 0")
  case True
  then show ?thesis by (cases b) (simp add: bufio_readfull_def bufio_fill.simps)
next
  case False
  then show ?thesis using assms
    by (simp add: bufio_readfull_def bufio_fill.simps [of b k] bufio_read_buffered
        bufio_fill.simps [of "b\<lparr>bbuf := drop k (bbuf b)\<rparr>" 0] min_def)
qed

text \<open>The first byte asked of a fresh reader brings a whole piece into its buffer.\<close>

lemma bufio_readfull_first:
  assumes "p \<noteq> []" "length p \<le> n" "1 < n"
  shows "bufio_readfull (NewReaderSize \<lparr>pieces = p # ps, cend = e\<rparr> n) 1 =
    ([hd p], None, \<lparr>bbuf = tl p, bsize = n, bconn = \<lparr>pieces = ps, cend = e\<rparr>\<rparr>)"
  using assms
  by (cases p) (simp_all add: bufio_readfull_def bufio_fill.simps NewReaderSize_def bufio_read_def conn_read_def)

section \<open>The request a call sends\<close>

definition request_header :: "header \<Rightarrow> 'x Call \<Rightarrow> u64 \<Rightarrow> header" where
  "request_header h call sq = SetSerializeType (cSerializeType call) (SetSeq sq
     ((if cCompressType call \<noteq> NoCompress then SetCompressType Gzip else (\<lambda>h. h)) (SetHeartbeat (cHeartBeat call) h)))"

definition request_of :: "message \<Rightarrow> 'x Call \<Rightarrow> u64 \<Rightarrow> bytes \<Rightarrow> message" where
  "request_of pooled call sq data = pooled\<lparr>mheader := request_header (mheader pooled) call sq,
     ServicePath := cServicePath call, ServiceMethod := cServiceMethod call,
     Metadata := (let md = extractMdFromClientCtx (cCtx call) in if length md > 0 then Some md else Metadata pooled),
     Payload := data\<rparr>"

lemma hdr_wf_request_header [simp]: "hdr_wf h \<Longrightarrow> hdr_wf (request_header h call sq)"
  by (simp add: request_header_def)

lemma request_header_fields:
  assumes "hdr_wf h" "cSerializeType call AND mask 4 = cSerializeType call"
  shows "SerializeType (request_header h call sq) = cSerializeType call"
    "Seq (request_header h call sq) = sq" "IsHeartbeat (request_header h call sq) = cHeartBeat call"
    "CheckMagicNumber (request_header h call sq) = CheckMagicNumber h"
    "IsOneway (request_header h call sq) = IsOneway h"
    "MessageStatusType (request_header h call sq) = MessageStatusType h"
  using assms by (simp_all add: request_header_def hdr del: protocol_consts)

lemma createRequest_ok:
  assumes "hdr_wf (mheader pooled)" "cSerializeType call AND mask 4 = cSerializeType call"
    and "cSerializeType call \<noteq> SerializeNone" "ce_codecs env (cSerializeType call) = Some codec"
    and "codec_Encode (ce_libs env) codec (cArgs call) = Some (data, None)"
  shows "createRequest env pooled call sq = Some (call\<lparr>cSeq := sq\<rparr>, Inr (request_of pooled call sq data))"
proof -
  have "SerializeType (request_header (mheader pooled) call sq) = cSerializeType call"
    using assms(1,2) by (rule request_header_fields)
  then show ?thesis using assms(3-5)
    by (cases "cCompressType call = NoCompress"; cases "extractMdFromClientCtx (cCtx call) = []")
      (simp_all add: createRequest_def request_of_def request_header_def Let_def del: protocol_consts)
qed

lemma bufio_readfull_keeps:
  "bufio_readfull b k = (bs, e, b') \<Longrightarrow> k \<le> length (bbuf b) \<Longrightarrow>
   length (bbuf b') = length (bbuf b) - k \<and> bconn b' = bconn b"
  using bufio_readfull_buffered [of k b] by auto

end
