(* ===== verification/Service.thy ===== *)
theory Service
  imports Codec MetadataCtx
begin

text \<open>
  Services and their registration: \<^verbatim>\<open>server/service.go\<close>, \<^verbatim>\<open>server/pool.go\<close> and the registration part of
  \<^verbatim>\<open>server/server.go\<close>. What the code reads through \<^verbatim>\<open>reflect\<close> is data here: a type is its
  pointer depth, name and package path, a receiver is its names and method sets, and calling a
  method is the function \<open>mCall\<close>, which may panic. Names are ASCII.
\<close>

section \<open>Types and methods as reflection shows them\<close>

datatype gotype = TPtr gotype | TBase (TypeName: string) (PkgPath: string)

definition typeOfError :: gotype where
  "typeOfError = TBase ''error'' ''''"

text \<open>
  The outcome of a handler: it returns an error value or panics with a value of the given text.
  On the way it may have written to the argument and to the reply and called \<open>SendMetaData\<close> any
  number of times.
\<close>

datatype outcome = Returns "goerr option" | Panics string

record 'x handler_result =
  hOutcome :: outcome
  hArg :: "'x goval"
  hReply :: "'x goval"
  hSent :: "smap option list"

type_synonym 'x handler = "ctx \<Rightarrow> 'x goval \<Rightarrow> 'x goval \<Rightarrow> 'x handler_result"

text \<open>\<^verbatim>\<open>reflect.Method\<close>; \<open>mCall\<close> is \<^verbatim>\<open>Func.Call\<close> on the receiver at hand.\<close>

record 'x rmethod =
  mName :: string
  mPkgPath :: string
  mIn :: "gotype list"
  mOut :: "gotype list"
  mCall :: "'x handler"

record 'x receiver =
  rTypeString :: string
  rName :: string
  rMethods :: "'x rmethod list"
  rPtrMethods :: "'x rmethod list"

record 'x methodType =
  mtMethod :: "'x rmethod"
  ArgType :: gotype
  ReplyType :: gotype

record 'x service =
  svcName :: string
  svcMethod :: "(string \<times> 'x methodType) list"

section \<open>Suitable methods\<close>

definition isExported :: "string \<Rightarrow> bool" where
  "isExported name = (case name of [] \<Rightarrow> False | c # _ \<Rightarrow> (of_char c :: nat) \<in> {65..90})"

fun isExportedOrBuiltinType :: "gotype \<Rightarrow> bool" where
  "isExportedOrBuiltinType (TPtr t) = isExportedOrBuiltinType t"
| "isExportedOrBuiltinType (TBase name pkg) = (isExported name \<or> pkg = '''')"

text \<open>The reasons the code logs, with the method's name.\<close>

datatype reject = WrongIns nat | ContextNotImplemented | ArgNotExported | ReplyNotPointer
  | ReplyNotExported | WrongOuts nat | ReturnNotError

definition is_ptr :: "gotype \<Rightarrow> bool" where
  "is_ptr t = (case t of TPtr _ \<Rightarrow> True | TBase _ _ \<Rightarrow> False)"

text \<open>
  The body of the loop for one method: what is logged and, when no check says \<^verbatim>\<open>continue\<close>, the
  entry of the map. The context check only logs.
\<close>

definition suitableMethod ::
  "(gotype \<Rightarrow> bool) \<Rightarrow> 'x rmethod \<Rightarrow> reject list \<times> 'x methodType option" where
  "suitableMethod implements_ctx m =
    (if mPkgPath m \<noteq> '''' then ([], None)
     else if length (mIn m) \<noteq> 4 then ([WrongIns (length (mIn m))], None)
     else
      (let logged = (if implements_ctx (mIn m ! 1) then [] else [ContextNotImplemented]);
           argType = mIn m ! 2;
           replyType = mIn m ! 3 in
       if \<not> isExportedOrBuiltinType argType then (logged @ [ArgNotExported], None)
       else if \<not> is_ptr replyType then (logged @ [ReplyNotPointer], None)
       else if \<not> isExportedOrBuiltinType replyType then (logged @ [ReplyNotExported], None)
       else if length (mOut m) \<noteq> 1 then (logged @ [WrongOuts (length (mOut m))], None)
       else if mOut m ! 0 \<noteq> typeOfError then (logged @ [ReturnNotError], None)
       else (logged, Some \<lparr>mtMethod = m, ArgType = argType, ReplyType = replyType\<rparr>)))"

fun suitable_loop ::
  "(gotype \<Rightarrow> bool) \<Rightarrow> bool \<Rightarrow> 'x rmethod list \<Rightarrow> (string \<times> 'x methodType) list \<Rightarrow> (string \<times> reject) list
     \<Rightarrow> (string \<times> 'x methodType) list \<times> (string \<times> reject) list" where
  "suitable_loop impl reportErr [] methods log = (methods, log)"
| "suitable_loop impl reportErr (m # ms) methods log = (case suitableMethod impl m of
     (logged, mt) \<Rightarrow>
       (let log = (if reportErr then log @ map (Pair (mName m)) logged else log) in
        (case mt of
           None \<Rightarrow> suitable_loop impl reportErr ms methods log
         | Some t \<Rightarrow> suitable_loop impl reportErr ms
             (AList.update (ToLower (mName m)) t methods) log)))"

definition suitableMethods ::
  "(gotype \<Rightarrow> bool) \<Rightarrow> 'x rmethod list \<Rightarrow> bool \<Rightarrow> (string \<times> 'x methodType) list \<times> (string \<times> reject) list" where
  "suitableMethods impl typ reportErr = suitable_loop impl reportErr typ [] []"

section \<open>The server's table\<close>

record 'x server =
  serviceMap :: "(string \<times> 'x service) list"
  maxConnIdleTime :: int
  doneChan :: "bool option"
  discovery :: bool
  sname :: string
  advertiseUrl :: string
  useGateWay :: bool

text \<open>
  \<open>doneChan\<close> is nil (\<open>None\<close>), open (\<open>Some False\<close>) or closed (\<open>Some True\<close>); \<open>discovery\<close> says whether a
  publisher is set. The server's name is written before anything is checked.
\<close>

definition register ::
  "(gotype \<Rightarrow> bool) \<Rightarrow> 'x receiver \<Rightarrow> string \<Rightarrow> bool \<Rightarrow> 'x server \<Rightarrow> goerr option \<times> 'x server" where
  "register impl rcvr nm useName server =
    (let sn = rName rcvr;
         server = server\<lparr>sname := sn\<rparr>;
         (sn, server) = (if useName then (nm, server\<lparr>sname := nm\<rparr>) else (sn, server)) in
     if sn = '''' then
       (Some (ErrText (''rpc.Register: no service name for type '' @ rTypeString rcvr)), server)
     else if \<not> isExported sn \<and> \<not> useName then
       (Some (ErrText (''rpc.Register: type '' @ sn @ '' is not exported'')), server)
     else
      (let ms = fst (suitableMethods impl (rMethods rcvr) True) in
       if ms = [] then
         (let ptrs = fst (suitableMethods impl (rPtrMethods rcvr) False) in
          (Some (ErrText (if ptrs \<noteq> [] then
               ''rpc.Register: type '' @ sn @ '' has no exported methods of suitable type (hint: pass a pointer to value of that type)''
             else ''rpc.Register: type '' @ sn @ '' has no exported methods of suitable type'')), server))
       else (None, server\<lparr>serviceMap :=
               AList.update (ToLower sn) \<lparr>svcName = sn, svcMethod = ms\<rparr> (serviceMap server)\<rparr>)))"

definition Register :: "(gotype \<Rightarrow> bool) \<Rightarrow> 'x receiver \<Rightarrow> 'x server \<Rightarrow> goerr option \<times> 'x server" where
  "Register impl rcvr server = register impl rcvr '''' False server"

definition RegisterName ::
  "(gotype \<Rightarrow> bool) \<Rightarrow> string \<Rightarrow> 'x receiver \<Rightarrow> 'x server \<Rightarrow> goerr option \<times> 'x server" where
  "RegisterName impl nm rcvr server = register impl rcvr nm True server"

section \<open>Calling a method\<close>

text \<open>
  \<open>service.call\<close>: a panic of the method is recovered into an error that names the method and shows the
  argument; \<open>show_arg\<close> is \<^verbatim>\<open>fmt\<close>'s rendering of the argument.
\<close>

definition call_error :: "string \<Rightarrow> string \<Rightarrow> string \<Rightarrow> goerr" where
  "call_error r m a = ErrText (''[service internal error]: '' @ r @ '', method: '' @ m @ '', argv: '' @ a)"

definition service_call ::
  "('x goval \<Rightarrow> string) \<Rightarrow> 'x methodType \<Rightarrow> ctx \<Rightarrow> 'x goval \<Rightarrow> 'x goval
     \<Rightarrow> goerr option \<times> 'x handler_result" where
  "service_call show_arg mtype c argv replyv =
    (let r = mCall (mtMethod mtype) c argv replyv in
     case hOutcome r of
       Panics p \<Rightarrow> (Some (call_error p (mName (mtMethod mtype)) (show_arg argv)), r)
     | Returns e \<Rightarrow> (e, r))"

section \<open>The pools of arguments and replies\<close>

text \<open>
  \<^verbatim>\<open>typePools\<close>: the released values per type; \<open>rnew\<close> is \<^verbatim>\<open>reflect.New\<close>, and \<open>choice\<close> is what
  \<^verbatim>\<open>sync.Pool\<close> does, to hand out a stored value or make a new one.
\<close>

type_synonym 'x typePools = "gotype \<Rightarrow> 'x goval list option"

definition typePools_New :: "(gotype \<Rightarrow> 'x goval) \<Rightarrow> gotype \<Rightarrow> 'x goval" where
  "typePools_New rnew t = (case t of TPtr e \<Rightarrow> rnew e | TBase _ _ \<Rightarrow> rnew t)"

definition typePools_Init :: "gotype \<Rightarrow> 'x typePools \<Rightarrow> 'x typePools" where
  "typePools_Init t p = p(t \<mapsto> [])"

text \<open>
  \<^verbatim>\<open>Put\<close> resets a value that has a \<^verbatim>\<open>Reset\<close> method (\<open>reset\<close>) and stores it; both operations use
  the pool of the type without asking whether there is one, so a type without \<^verbatim>\<open>Init\<close> panics.
\<close>

definition typePools_Put ::
  "bool \<Rightarrow> ('x goval \<Rightarrow> 'x goval option) \<Rightarrow> gotype \<Rightarrow> 'x goval \<Rightarrow> 'x typePools \<Rightarrow> 'x typePools option" where
  "typePools_Put UsePool reset t x p =
    (if \<not> UsePool then Some p
     else (let x = (case reset x of Some y \<Rightarrow> y | None \<Rightarrow> x) in
       case p t of None \<Rightarrow> None | Some xs \<Rightarrow> Some (p(t \<mapsto> x # xs))))"

definition typePools_Get ::
  "bool \<Rightarrow> (gotype \<Rightarrow> 'x goval) \<Rightarrow> nat option \<Rightarrow> gotype \<Rightarrow> 'x typePools
     \<Rightarrow> ('x goval \<times> 'x typePools) option" where
  "typePools_Get UsePool rnew choice t p =
    (if \<not> UsePool then Some (typePools_New rnew t, p)
     else case p t of
         None \<Rightarrow> None
       | Some xs \<Rightarrow> (case choice of
             None \<Rightarrow> Some (typePools_New rnew t, p)
           | Some i \<Rightarrow> (if i < length xs then Some (xs ! i, p(t \<mapsto> take i xs @ drop (Suc i) xs))
               else Some (typePools_New rnew t, p))))"

section \<open>What registration establishes\<close>

text \<open>
  What the code requires of a method in the table. The comment in \<open>suitableMethods\<close> also wants the first parameter to be a
  \<^verbatim>\<open>context.Context\<close>, which the code does not require.
\<close>

definition suitable_but_ctx :: "'x methodType \<Rightarrow> bool" where
  "suitable_but_ctx mt \<longleftrightarrow> mPkgPath (mtMethod mt) = '''' \<and>
     (\<exists>r c. mIn (mtMethod mt) = [r, c, ArgType mt, ReplyType mt]) \<and>
     isExportedOrBuiltinType (ArgType mt) \<and> is_ptr (ReplyType mt) \<and>
     isExportedOrBuiltinType (ReplyType mt) \<and> mOut (mtMethod mt) = [typeOfError]"

definition methods_ok :: "(string \<times> 'x methodType) list \<Rightarrow> bool" where
  "methods_ok ms \<longleftrightarrow> distinct (map fst ms) \<and>
     (\<forall>(k, mt) \<in> set ms. suitable_but_ctx mt \<and> k = ToLower (mName (mtMethod mt)))"

definition table_ok :: "(string \<times> 'x service) list \<Rightarrow> bool" where
  "table_ok tab \<longleftrightarrow> distinct (map fst tab) \<and>
     (\<forall>(k, s) \<in> set tab. k = ToLower (svcName s) \<and> svcMethod s \<noteq> [] \<and> methods_ok (svcMethod s))"

lemma four_elems: "length xs = 4 \<Longrightarrow> xs = [xs ! 0, xs ! 1, xs ! 2, xs ! 3]"
  by (auto simp: numeral_eq_Suc length_Suc_conv)

lemma suitableMethod_suitable:
  assumes "suitableMethod impl m = (logged, Some mt)"
  shows "suitable_but_ctx mt \<and> mtMethod mt = m"
proof -
  have four: "length (mIn m) = 4" and one: "length (mOut m) = 1"
    and mt: "mt = \<lparr>mtMethod = m, ArgType = mIn m ! 2, ReplyType = mIn m ! 3\<rparr>"
    using assms by (auto simp: suitableMethod_def Let_def split: if_splits)
  have "mOut m = [mOut m ! 0]" using one by (cases "mOut m") auto
  then show ?thesis using assms four_elems [OF four] unfolding mt suitable_but_ctx_def
    by (auto simp: suitableMethod_def Let_def split: if_splits)
qed

text \<open>What is taken into the table does not depend on which types implement \<^verbatim>\<open>context.Context\<close>.\<close>

lemma suitableMethod_any_ctx: "snd (suitableMethod impl m) = snd (suitableMethod impl' m)"
  by (simp add: suitableMethod_def Let_def)

lemma suitable_loop_any_ctx:
  "fst (suitable_loop impl rep meths ms log) = fst (suitable_loop impl' rep meths ms log')"
proof (induction meths arbitrary: ms log log')
  case (Cons m meths)
  obtain l l' mt where "suitableMethod impl m = (l, mt)" "suitableMethod impl' m = (l', mt)"
    using suitableMethod_any_ctx [of impl m impl'] by (metis prod.collapse)
  then show ?case by (cases mt) (simp_all only: suitable_loop.simps prod.case option.case Let_def, (rule Cons.IH)+)
qed simp

lemma suitableMethods_any_ctx: "fst (suitableMethods impl meths rep) = fst (suitableMethods impl' meths rep)"
  unfolding suitableMethods_def by (rule suitable_loop_any_ctx)

lemma register_any_ctx: "register impl rcvr nm u server = register impl' rcvr nm u server"
  by (simp add: register_def Let_def suitableMethods_any_ctx [of impl _ _ impl'])

lemma set_update_subset: "set (AList.update k v xs) \<subseteq> insert (k, v) (set xs)"
  by (induction xs) auto

lemma methods_ok_update:
  "methods_ok ms \<Longrightarrow> suitable_but_ctx mt \<Longrightarrow> k = ToLower (mName (mtMethod mt)) \<Longrightarrow> methods_ok (AList.update k mt ms)"
  using set_update_subset [of k mt ms] by (auto simp: methods_ok_def distinct_update)

lemma suitable_loop_ok:
  "methods_ok ms \<Longrightarrow> methods_ok (fst (suitable_loop impl rep meths ms log))"
proof (induction meths arbitrary: ms log)
  case (Cons m meths)
  obtain logged mt where s: "suitableMethod impl m = (logged, mt)" by fastforce
  show ?case
  proof (cases mt)
    case None
    with s Cons show ?thesis by (simp add: Let_def)
  next
    case (Some t)
    with s suitableMethod_suitable [of impl m logged t] Cons show ?thesis
      by (simp add: Let_def methods_ok_update)
  qed
qed simp

lemma methods_ok_Nil [simp]: "methods_ok []"
  by (simp add: methods_ok_def)

lemma suitableMethods_ok: "methods_ok (fst (suitableMethods impl meths rep))"
  by (simp add: suitableMethods_def suitable_loop_ok)

lemma table_ok_update:
  "table_ok tab \<Longrightarrow> k = ToLower (svcName s) \<Longrightarrow> svcMethod s \<noteq> [] \<Longrightarrow> methods_ok (svcMethod s) \<Longrightarrow>
   table_ok (AList.update k s tab)"
  using set_update_subset [of k s tab] by (auto simp: table_ok_def distinct_update)

text \<open>The parts of the server that registration leaves alone, and the entry it makes.\<close>

lemma register_Error:
  "register impl rcvr nm u server = (Some e, server') \<Longrightarrow> serviceMap server' = serviceMap server"
  by (auto simp: register_def Let_def split: if_splits)

lemma register_Ok:
  "register impl rcvr nm u server = (None, server') \<Longrightarrow>
   serviceMap server' = AList.update (ToLower (if u then nm else rName rcvr))
     \<lparr>svcName = (if u then nm else rName rcvr), svcMethod = fst (suitableMethods impl (rMethods rcvr) True)\<rparr>
     (serviceMap server) \<and> fst (suitableMethods impl (rMethods rcvr) True) \<noteq> []"
  by (auto simp: register_def Let_def split: if_splits)

lemma register_table_ok:
  assumes "table_ok (serviceMap server)" "register impl rcvr nm u server = (e, server')"
  shows "table_ok (serviceMap server')"
proof (cases e)
  case None
  then show ?thesis using register_Ok [of impl rcvr nm u server server'] assms
      suitableMethods_ok [of impl "rMethods rcvr" True] by (auto intro!: table_ok_update)
next
  case (Some err)
  then show ?thesis using register_Error assms by metis
qed

section \<open>Tables\<close>

text \<open>
  The service map, the method maps and the table of codecs are tables: an entry shadows an earlier
  one under the same key and no other.
\<close>

locale keyed_table =
  fixes put :: "'k \<Rightarrow> 'v \<Rightarrow> 't \<Rightarrow> 't" and look :: "'t \<Rightarrow> 'k \<Rightarrow> 'v option"
  assumes look_put: "look (put k v t) j = (if j = k then Some v else look t j)"
begin

lemma look_puts:
  "look (fold (\<lambda>(k, v) t. put k v t) kvs t) j =
     (case map_of (rev kvs) j of Some v \<Rightarrow> Some v | None \<Rightarrow> look t j)"
proof (induction kvs arbitrary: t)
  case (Cons kv kvs)
  obtain k v where "kv = (k, v)" by (cases kv)
  with Cons show ?case by (auto simp: look_put map_add_def split: option.splits)
qed simp

end

interpretation alist: keyed_table AList.update map_of
  by unfold_locales (simp add: update_conv')

interpretation codec_table: keyed_table RegisterCodec "\<lambda>t. t"
  by unfold_locales (simp add: RegisterCodec_def)

end
