(* ===== verification/Dispatch.thy ===== *)
theory Dispatch
  imports Service MsgPool
begin

text \<open>
  A request on the server: \<^verbatim>\<open>handleRequest\<close> and \<^verbatim>\<open>handleError\<close> of \<^verbatim>\<open>server/server.go\<close>,
  \<^verbatim>\<open>SendMetaData\<close> of \<^verbatim>\<open>server/context.go\<close>, \<^verbatim>\<open>writeResponse\<close> and \<^verbatim>\<open>handleTrueRequest\<close> of
  \<^verbatim>\<open>server/easyconn.go\<close>. The global variables they use are the record \<open>server_env\<close>, the pools are
  threaded, \<open>None\<close> is a panic.
\<close>

section \<open>What a request handler uses\<close>

record 'x server_env =
  env_libs :: "'x codec_libs"
  env_codecs :: "'x codecs"
  env_UsePool :: bool
  env_New :: "gotype \<Rightarrow> 'x goval"
  env_Reset :: "'x goval \<Rightarrow> 'x goval option"
  env_Elem :: "'x goval \<Rightarrow> 'x goval"
  env_show :: "'x goval \<Rightarrow> string"
  env_opentracing :: "goerr \<Rightarrow> string"

text \<open>The two pools, and what \<^verbatim>\<open>sync.Pool\<close> chooses at the three calls of \<^verbatim>\<open>Get\<close>.\<close>

record 'x pools =
  msgPool :: "message list"
  argsReplyPools :: "'x typePools"

record choices =
  chMsg :: "nat option"
  chArg :: "nat option"
  chReply :: "nat option"

definition env_Get ::
  "'x server_env \<Rightarrow> nat option \<Rightarrow> gotype \<Rightarrow> 'x typePools \<Rightarrow> ('x goval \<times> 'x typePools) option" where
  "env_Get env = typePools_Get (env_UsePool env) (env_New env)"

definition env_Put ::
  "'x server_env \<Rightarrow> gotype \<Rightarrow> 'x goval \<Rightarrow> 'x typePools \<Rightarrow> 'x typePools option" where
  "env_Put env = typePools_Put (env_UsePool env) (env_Reset env)"

section \<open>Errors and metadata of a response\<close>

definition SendMetaData :: "message \<Rightarrow> smap option \<Rightarrow> message" where
  "SendMetaData replyMessage md = replyMessage\<lparr>Metadata := md\<rparr>"

definition handleError :: "(goerr \<Rightarrow> string) \<Rightarrow> message \<Rightarrow> goerr \<Rightarrow> message \<times> goerr option" where
  "handleError ot res err =
    (let res = res\<lparr>mheader := SetMessageStatusType Error (mheader res)\<rparr>;
         md = (case Metadata res of None \<Rightarrow> [] | Some md \<Rightarrow> md)
     in (res\<lparr>Metadata := Some (smap_put ServiceError (err_text ot err) md)\<rparr>, Some err))"

section \<open>\<open>handleRequest\<close>\<close>

definition cannot_find :: "string \<Rightarrow> string \<Rightarrow> goerr" where
  "cannot_find what nm = ErrText (''easymicro: can'' @ CHR 0x27 # ''t find '' @ what @ '' '' @ nm)"

text \<open>The call, with the argument or what it points to; and the result of the call.\<close>

definition run_method ::
  "'x server_env \<Rightarrow> 'x methodType \<Rightarrow> ctx \<Rightarrow> 'x goval \<Rightarrow> 'x goval \<Rightarrow> goerr option \<times> 'x handler_result" where
  "run_method env mtype c argv replyv =
    (if \<not> is_ptr (ArgType mtype)
     then service_call (env_show env) mtype c (env_Elem env argv) replyv
     else service_call (env_show env) mtype c argv replyv)"

definition answer ::
  "'x server_env \<Rightarrow> 'x codec \<Rightarrow> message \<Rightarrow> message \<Rightarrow> goerr option \<Rightarrow> 'x goval
     \<Rightarrow> (message \<times> goerr option) option" where
  "answer env codec req res err replyv = (case err of
      Some err \<Rightarrow> Some (handleError (env_opentracing env) res err)
    | None \<Rightarrow>
       (if \<not> IsOneway (mheader req) then
         (case codec_Encode (env_libs env) codec replyv of
            None \<Rightarrow> None
          | Some (data, Some err) \<Rightarrow> Some (handleError (env_opentracing env) res err)
          | Some (data, None) \<Rightarrow> Some (res\<lparr>Payload := data\<rparr>, None))
        else Some (res, None)))"

text \<open>
  After the codec is found: decode the argument, call the method, encode the reply. Every exit
  returns the values to their pools.
\<close>

definition invoke ::
  "'x server_env \<Rightarrow> choices \<Rightarrow> 'x codec \<Rightarrow> 'x methodType \<Rightarrow> ctx \<Rightarrow> message \<Rightarrow> message \<Rightarrow> 'x goval
     \<Rightarrow> 'x typePools \<Rightarrow> ((message \<times> goerr option) \<times> 'x typePools) option" where
  "invoke env ch codec mtype c req res argv p = do {
     (err, argv) \<leftarrow> codec_Decode (env_libs env) codec (Payload req) argv;
     case err of
       Some err \<Rightarrow> do {
         p \<leftarrow> env_Put env (ArgType mtype) argv p;
         Some (handleError (env_opentracing env) res err, p)
       }
     | None \<Rightarrow> do {
         (replyv, p) \<leftarrow> env_Get env (chReply ch) (ReplyType mtype) p;
         let r = snd (run_method env mtype c argv replyv);
         out \<leftarrow> answer env codec req (fold (\<lambda>md res. SendMetaData res md) (hSent r) res)
           (fst (run_method env mtype c argv replyv)) (hReply r);
         p \<leftarrow> env_Put env (ArgType mtype) (if is_ptr (ArgType mtype) then hArg r else argv) p;
         p \<leftarrow> env_Put env (ReplyType mtype) (hReply r) p;
         Some (out, p)
       }
   }"

text \<open>
  What \<open>handleRequest\<close> does around it; \<open>step\<close> is the part from the decoding on, which gets the codec, the
  method, the response and the argument.
\<close>

definition handleRequest_in ::
  "('x codec \<Rightarrow> 'x methodType \<Rightarrow> message \<Rightarrow> 'x goval \<Rightarrow> 'x typePools \<Rightarrow> ((message \<times> goerr option) \<times> 'x typePools) option)
     \<Rightarrow> 'x server_env \<Rightarrow> 'x server \<Rightarrow> choices \<Rightarrow> message \<Rightarrow> 'x pools
     \<Rightarrow> ((message \<times> goerr option) \<times> 'x pools) option" where
  "handleRequest_in step env server ch req w =
    (let serviceName = ServicePath req;
         methodName = ServiceMethod req;
         (pooled, mp) = GetPooledMsg (chMsg ch) (msgPool w);
         w = w\<lparr>msgPool := mp\<rparr>;
         res = Clone req pooled;
         res = res\<lparr>mheader := SetMessageType Response (mheader res)\<rparr>;
         ot = env_opentracing env in
     case map_of (serviceMap server) serviceName of
       None \<Rightarrow> Some (handleError ot res (cannot_find ''service'' serviceName), w)
     | Some service \<Rightarrow>
      (case map_of (svcMethod service) methodName of
         None \<Rightarrow> Some (handleError ot res (cannot_find ''method'' methodName), w)
       | Some mtype \<Rightarrow> do {
           (argv, p) \<leftarrow> env_Get env (chArg ch) (ArgType mtype) (argsReplyPools w);
           (out, p) \<leftarrow> (case env_codecs env (SerializeType (mheader req)) of
               None \<Rightarrow> do {
                 p \<leftarrow> env_Put env (ArgType mtype) argv p;
                 Some (handleError ot res (ErrText (''can not find codec for '' @
                   format_nat 10 (unat (SerializeType (mheader req))))), p)
               }
             | Some codec \<Rightarrow> step codec mtype res argv p);
           Some (out, w\<lparr>argsReplyPools := p\<rparr>)
         }))"

definition handleRequest ::
  "'x server_env \<Rightarrow> 'x server \<Rightarrow> choices \<Rightarrow> ctx \<Rightarrow> message \<Rightarrow> 'x pools
     \<Rightarrow> ((message \<times> goerr option) \<times> 'x pools) option" where
  "handleRequest env server ch c req w =
     handleRequest_in (\<lambda>codec mtype res argv p. invoke env ch codec mtype c req res argv p) env server ch req w"

text \<open>
  The same for a nil context, which the gateway passes when a request's metadata are corrupt:
  \<^verbatim>\<open>context.WithValue\<close> panics on a nil parent (since Go 1.15), after the argument was decoded.
\<close>

definition invoke_nil ::
  "'x server_env \<Rightarrow> 'x codec \<Rightarrow> 'x methodType \<Rightarrow> message \<Rightarrow> message \<Rightarrow> 'x goval
     \<Rightarrow> 'x typePools \<Rightarrow> ((message \<times> goerr option) \<times> 'x typePools) option" where
  "invoke_nil env codec mtype req res argv p = do {
     (err, argv) \<leftarrow> codec_Decode (env_libs env) codec (Payload req) argv;
     case err of
       Some err \<Rightarrow> do {
         p \<leftarrow> env_Put env (ArgType mtype) argv p;
         Some (handleError (env_opentracing env) res err, p)
       }
     | None \<Rightarrow> None
   }"

definition handleRequest_nil ::
  "'x server_env \<Rightarrow> 'x server \<Rightarrow> choices \<Rightarrow> message \<Rightarrow> 'x pools \<Rightarrow> ((message \<times> goerr option) \<times> 'x pools) option" where
  "handleRequest_nil env server ch req w =
     handleRequest_in (\<lambda>codec mtype res argv p. invoke_nil env codec mtype req res argv p) env server ch req w"

section \<open>One request of a connection\<close>

text \<open>
  \<open>writeResponse\<close>: the message afterwards and the bytes of the one \<^verbatim>\<open>Write\<close>.
\<close>

definition writeResponse :: "compressors \<Rightarrow> message \<Rightarrow> message \<times> bytes" where
  "writeResponse comps m =
    (let m = (if length (Payload m) > 1024 \<and> CompressType (mheader m) \<noteq> NoCompress
              then m\<lparr>mheader := SetCompressType (CompressType (mheader m)) (mheader m)\<rparr> else m)
     in Encode comps m)"

text \<open>\<open>handleTrueRequest\<close>: what is written to the connection, if anything, and the pools.\<close>

definition handleTrueRequest ::
  "'x server_env \<Rightarrow> compressors \<Rightarrow> 'x server \<Rightarrow> choices \<Rightarrow> ctx \<Rightarrow> message \<Rightarrow> 'x pools
     \<Rightarrow> (bytes option \<times> 'x pools) option" where
  "handleTrueRequest env comps server ch c req w =
    (case extractClientMdContexFromMd c (case Metadata req of None \<Rightarrow> [] | Some md \<Rightarrow> md) of
       Inl err \<Rightarrow> Some (None, w\<lparr>msgPool := FreeMsg (Some req) (msgPool w)\<rparr>)
     | Inr c \<Rightarrow> (case handleRequest env server ch c req w of
           None \<Rightarrow> None
         | Some ((res, Some err), w) \<Rightarrow> Some (None, w\<lparr>msgPool := FreeMsg (Some req) (msgPool w)\<rparr>)
         | Some ((res, None), w) \<Rightarrow>
             (let (res, data) = writeResponse comps res;
                  mp = FreeMsg (Some req) (msgPool w);
                  mp = FreeMsg (Some res) mp
              in Some (Some data, w\<lparr>msgPool := mp\<rparr>))))"

section \<open>The shape of a response\<close>

lemma unpooled [simp]:
  "\<not> env_UsePool env \<Longrightarrow> env_Get env ch t p = Some (typePools_New (env_New env) t, p)"
  "\<not> env_UsePool env \<Longrightarrow> env_Put env t x p = Some p"
  by (simp_all add: env_Get_def env_Put_def typePools_Get_def typePools_Put_def)

text \<open>How an exit changes the response it was given.\<close>

definition exits :: "(goerr \<Rightarrow> string) \<Rightarrow> message \<Rightarrow> goerr option \<Rightarrow> message \<Rightarrow> bool" where
  "exits ot res e res' \<longleftrightarrow>
     mheader res' = (case e of None \<Rightarrow> mheader res | Some _ \<Rightarrow> SetMessageStatusType Error (mheader res)) \<and>
     ServicePath res' = ServicePath res \<and> ServiceMethod res' = ServiceMethod res \<and>
     mdata res' = mdata res \<and>
     (case e of None \<Rightarrow> True
      | Some err \<Rightarrow> \<exists>md. Metadata res' = Some md \<and> map_of md ServiceError = Some (err_text ot err))"

lemma handleError_exits: "handleError ot res err = (res', e) \<Longrightarrow> exits ot res e res' \<and> e = Some err"
  by (auto simp: handleError_def exits_def Let_def update_conv')

lemma exits_SendMetaData: "exits ot (SendMetaData res md) e res' = exits ot res e res'"
  by (cases e) (simp_all add: exits_def SendMetaData_def)

lemma exits_sent: "exits ot (fold (\<lambda>md res. SendMetaData res md) mds res) e res' = exits ot res e res'"
  by (induction mds arbitrary: res) (simp_all add: exits_SendMetaData)

lemma exits_None: "exits ot res None (res\<lparr>Payload := d\<rparr>)" "exits ot res None res"
  by (simp_all add: exits_def)

lemma answer_exits:
  "answer env codec req res err replyv = Some (res', e) \<Longrightarrow> exits (env_opentracing env) res e res'"
  by (auto simp: answer_def exits_None split: option.splits if_splits prod.splits
      dest: handleError_exits)

lemma invoke_exits:
  assumes "invoke env ch codec mtype c req res argv p = Some ((res', e), p')"
  shows "exits (env_opentracing env) res e res'"
proof -
  obtain err argv' where d: "codec_Decode (env_libs env) codec (Payload req) argv = Some (err, argv')"
    using assms by (auto simp: invoke_def bind_eq_Some_conv)
  show ?thesis
  proof (cases err)
    case None
    then show ?thesis using assms d
      by (auto simp: invoke_def bind_eq_Some_conv Let_def exits_sent dest!: answer_exits)
  next
    case (Some er)
    then show ?thesis using assms d
      by (auto simp: invoke_def bind_eq_Some_conv dest: handleError_exits)
  qed
qed

definition response_to :: "(goerr \<Rightarrow> string) \<Rightarrow> message \<Rightarrow> goerr option \<Rightarrow> message \<Rightarrow> bool" where
  "response_to ot req e res \<longleftrightarrow>
     hdr_wf (mheader res) \<and> Seq (mheader res) = Seq (mheader req) \<and>
     SerializeType (mheader res) = SerializeType (mheader req) \<and>
     CompressType (mheader res) = NoCompress \<and> MessageType (mheader res) = Response \<and>
     IsHeartbeat (mheader res) = IsHeartbeat (mheader req) \<and>
     CheckMagicNumber (mheader res) = CheckMagicNumber (mheader req) \<and>
     MessageStatusType (mheader res) =
       (if e = None then MessageStatusType (mheader req) else Error) \<and>
     ServicePath res = ServicePath req \<and> ServiceMethod res = ServiceMethod req \<and>
     (case e of None \<Rightarrow> True
      | Some err \<Rightarrow> \<exists>md. Metadata res = Some md \<and> map_of md ServiceError = Some (err_text ot err))"

lemma MessageType_or_Response: "MessageType h OR (Response AND 1) = Response"
proof -
  have "MessageType h = 0 \<or> MessageType h = 1"
    using of_bool_bit_field [of 7 "h ! 2"] by (simp add: MessageType_field split: if_splits)
      (metis of_bool_eq(1,2))
  then show ?thesis by (auto simp: Response_def)
qed

lemma handleRequest_exits:
  assumes "handleRequest env server ch c req w = Some ((res, e), w')"
  shows "\<exists>pooled mp. GetPooledMsg (chMsg ch) (msgPool w) = (pooled, mp) \<and> msgPool w' = mp \<and>
    exits (env_opentracing env)
      ((Clone req pooled)\<lparr>mheader := SetMessageType Response (mheader (Clone req pooled))\<rparr>) e res"
  using assms
  by (auto simp: handleRequest_def handleRequest_in_def bind_eq_Some_conv Let_def
      split: option.splits if_splits prod.splits
      dest: handleError_exits [THEN conjunct1] invoke_exits)

lemma status_constants: "Error AND mask 2 = Error" "NoCompress AND mask 3 = NoCompress"
  by (simp_all add: mask_eq_exp_minus_1)

lemma handleRequest_response:
  assumes "handleRequest env server ch c req w = Some ((res, e), w')" "hdr_wf (mheader req)"
  shows "response_to (env_opentracing env) req e res"
proof -
  obtain pooled mp where "exits (env_opentracing env)
      ((Clone req pooled)\<lparr>mheader := SetMessageType Response (mheader (Clone req pooled))\<rparr>) e res"
    using handleRequest_exits [OF assms(1)] by blast
  then show ?thesis using assms(2)
    by (auto simp: exits_def response_to_def Clone_def hdr MessageType_or_Response status_constants
        simp del: protocol_consts split: option.splits)
qed

section \<open>The meaning of a request\<close>

text \<open>
  What a request means, without messages and pools: an error, or a reply (none for a oneway request).
\<close>

datatype rpc_result = RpcError goerr | RpcReply "bytes option"

definition rpc_reply :: "'x server_env \<Rightarrow> 'x codec \<Rightarrow> bool \<Rightarrow> goerr option \<Rightarrow> 'x goval \<Rightarrow> rpc_result option" where
  "rpc_reply env codec oneway err replyv = (case err of
      Some err \<Rightarrow> Some (RpcError err)
    | None \<Rightarrow> if oneway then Some (RpcReply None)
        else (case codec_Encode (env_libs env) codec replyv of
            None \<Rightarrow> None
          | Some (data, Some err) \<Rightarrow> Some (RpcError err)
          | Some (data, None) \<Rightarrow> Some (RpcReply (Some data))))"

definition rpc_spec :: "'x server_env \<Rightarrow> 'x server \<Rightarrow> ctx \<Rightarrow> message \<Rightarrow> rpc_result option" where
  "rpc_spec env server c req =
    (case map_of (serviceMap server) (ServicePath req) of
       None \<Rightarrow> Some (RpcError (cannot_find ''service'' (ServicePath req)))
     | Some service \<Rightarrow>
      (case map_of (svcMethod service) (ServiceMethod req) of
         None \<Rightarrow> Some (RpcError (cannot_find ''method'' (ServiceMethod req)))
       | Some mtype \<Rightarrow>
        (case env_codecs env (SerializeType (mheader req)) of
           None \<Rightarrow> Some (RpcError (ErrText (''can not find codec for '' @
             format_nat 10 (unat (SerializeType (mheader req))))))
         | Some codec \<Rightarrow>
          (case codec_Decode (env_libs env) codec (Payload req) (typePools_New (env_New env) (ArgType mtype)) of
             None \<Rightarrow> None
           | Some (Some err, argv) \<Rightarrow> Some (RpcError err)
           | Some (None, argv) \<Rightarrow>
              (case run_method env mtype c argv (typePools_New (env_New env) (ReplyType mtype)) of
                 (err, r) \<Rightarrow> rpc_reply env codec (IsOneway (mheader req)) err (hReply r))))))"

definition result_of :: "message \<Rightarrow> message \<times> goerr option \<Rightarrow> rpc_result" where
  "result_of req out = (case snd out of
      Some err \<Rightarrow> RpcError err
    | None \<Rightarrow> RpcReply (if IsOneway (mheader req) then None else Some (Payload (fst out))))"

text \<open>The value pools are transparent while every type has a pool and the pools hold fresh values.\<close>

definition pools_ok :: "'x server_env \<Rightarrow> gotype set \<Rightarrow> 'x typePools \<Rightarrow> bool" where
  "pools_ok env ts p \<longleftrightarrow> (env_UsePool env \<longrightarrow>
     (\<forall>t \<in> ts. \<exists>xs. p t = Some xs \<and> (\<forall>x \<in> set xs. x = typePools_New (env_New env) t)))"

lemma Get_fresh:
  assumes "pools_ok env ts p" "t \<in> ts"
  shows "\<exists>p'. env_Get env ch t p = Some (typePools_New (env_New env) t, p') \<and> pools_ok env ts p'"
proof (cases "env_UsePool env")
  case False
  then show ?thesis using assms by simp
next
  case True
  then obtain xs where xs: "p t = Some xs" "\<forall>x \<in> set xs. x = typePools_New (env_New env) t"
    using assms by (auto simp: pools_ok_def)
  have "pools_ok env ts (p(t \<mapsto> take i xs @ drop (Suc i) xs))" for i
    using assms(1) xs(2) by (auto simp: pools_ok_def dest: in_set_takeD in_set_dropD)
  then show ?thesis using xs True assms(1)
    by (auto simp: env_Get_def typePools_Get_def split: option.splits)
qed

lemma Put_defined: "pools_ok env ts p \<Longrightarrow> t \<in> ts \<Longrightarrow> \<exists>p'. env_Put env t x p = Some p' \<and> (\<forall>u. p u \<noteq> None \<longrightarrow> p' u \<noteq> None)"
  by (auto simp: pools_ok_def env_Put_def typePools_Put_def Let_def)

lemma Put_Put_defined:
  assumes "pools_ok env ts p" "t \<in> ts" "u \<in> ts"
  shows "\<exists>p1 p2. env_Put env t x p = Some p1 \<and> env_Put env u y p1 = Some p2"
proof (cases "env_UsePool env")
  case False
  then show ?thesis by simp
next
  case True
  obtain p1 where p1: "env_Put env t x p = Some p1" "\<forall>u. p u \<noteq> None \<longrightarrow> p1 u \<noteq> None"
    using Put_defined [OF assms(1,2)] by blast
  have "p u \<noteq> None" using assms(1,3) True by (auto simp: pools_ok_def)
  then have "p1 u \<noteq> None" using p1(2) by blast
  then show ?thesis using p1(1) True by (auto simp: env_Put_def typePools_Put_def Let_def)
qed

lemma answer_result:
  "map_option (result_of req) (answer env codec req res err replyv) =
     rpc_reply env codec (IsOneway (mheader req)) err replyv"
  by (auto simp: answer_def rpc_reply_def result_of_def handleError_def Let_def split: option.splits)

lemma error_result: "result_of req (handleError ot res err) = RpcError err"
  by (simp add: result_of_def handleError_def Let_def)

lemma invoke_result:
  assumes p: "pools_ok env ts p" and t: "ArgType mtype \<in> ts" "ReplyType mtype \<in> ts"
  shows "map_option (\<lambda>(out, p'). result_of req out) (invoke env ch codec mtype c req res argv p) =
    (case codec_Decode (env_libs env) codec (Payload req) argv of
       None \<Rightarrow> None
     | Some (Some err, argv) \<Rightarrow> Some (RpcError err)
     | Some (None, argv) \<Rightarrow>
        (case run_method env mtype c argv (typePools_New (env_New env) (ReplyType mtype)) of
           (err, r) \<Rightarrow> rpc_reply env codec (IsOneway (mheader req)) err (hReply r)))"
proof -
  obtain p1 where p1: "env_Get env (chReply ch) (ReplyType mtype) p =
      Some (typePools_New (env_New env) (ReplyType mtype), p1)" "pools_ok env ts p1"
    using Get_fresh [OF p t(2)] by blast
  have put1: "\<exists>p'. env_Put env (ArgType mtype) x p = Some p'" for x
    using Put_defined [OF p t(1)] by blast
  have put2: "map_option (\<lambda>(out, p'). result_of req out)
      (answer env codec req res' err replyv \<bind> (\<lambda>out. env_Put env (ArgType mtype) x p1 \<bind>
        (\<lambda>p. env_Put env (ReplyType mtype) y p \<bind> (\<lambda>p. Some (out, p))))) =
      rpc_reply env codec (IsOneway (mheader req)) err replyv" for res' err replyv x y
    using Put_Put_defined [OF p1(2) t, of x y]       answer_result [where env = env and codec = codec and req = req and res = res' and err = err
        and replyv = replyv, symmetric]
    by (cases "answer env codec req res' err replyv") auto
  show ?thesis
  proof (cases "codec_Decode (env_libs env) codec (Payload req) argv")
    case None
    then show ?thesis by (simp add: invoke_def)
  next
    case (Some d)
    obtain e argv' where d: "d = (e, argv')" by (cases d)
    obtain p' where "env_Put env (ArgType mtype) argv' p = Some p'" using put1 by blast
    moreover obtain err r where
      "run_method env mtype c argv' (typePools_New (env_New env) (ReplyType mtype)) = (err, r)"
      by fastforce
    ultimately show ?thesis using Some p1(1)
      by (cases e) (simp_all add: d invoke_def Let_def put2 error_result)
  qed
qed

definition table_types :: "(string \<times> 'x service) list \<Rightarrow> gotype list" where
  "table_types tab = concat (map (\<lambda>(k, s). concat (map (\<lambda>(n, mt). [ArgType mt, ReplyType mt]) (svcMethod s))) tab)"

lemma table_types_lookup:
  assumes "map_of tab sp = Some s" "map_of (svcMethod s) sm = Some mt"
  shows "ArgType mt \<in> set (table_types tab)" "ReplyType mt \<in> set (table_types tab)"
  using map_of_SomeD [OF assms(1)] map_of_SomeD [OF assms(2)] by (force simp: table_types_def)+

lemma handleRequest_result:
  assumes "pools_ok env (set (table_types (serviceMap server))) (argsReplyPools w)"
  shows "map_option (\<lambda>(out, w'). result_of req out) (handleRequest env server ch c req w) =
    rpc_spec env server c req"
proof -
  obtain pooled mp where get: "GetPooledMsg (chMsg ch) (msgPool w) = (pooled, mp)" by fastforce
  show ?thesis
  proof (cases "map_of (serviceMap server) (ServicePath req)")
    case None
    then show ?thesis by (simp add: handleRequest_def handleRequest_in_def rpc_spec_def get Let_def error_result)
  next
    case (Some svc)
    show ?thesis
    proof (cases "map_of (svcMethod svc) (ServiceMethod req)")
      case None
      with Some show ?thesis by (simp add: handleRequest_def handleRequest_in_def rpc_spec_def get Let_def error_result)
    next
      case (Some mt)
      note types = table_types_lookup [OF \<open>map_of (serviceMap server) (ServicePath req) = Some svc\<close> Some]
      obtain p where p: "env_Get env (chArg ch) (ArgType mt) (argsReplyPools w) =
          Some (typePools_New (env_New env) (ArgType mt), p)"
        "pools_ok env (set (table_types (serviceMap server))) p"
        using Get_fresh [OF assms types(1)] by blast
      obtain p' where p': "env_Put env (ArgType mt) (typePools_New (env_New env) (ArgType mt)) p = Some p'"
        using Put_defined [OF p(2) types(1)] by blast
      have inv: "map_option (\<lambda>(out, w'). result_of req out)
          (invoke env ch codec mt c req res argv p \<bind> (\<lambda>(out, p). Some (out, w2\<lparr>argsReplyPools := p\<rparr>)))
        = map_option (\<lambda>(out, p'). result_of req out) (invoke env ch codec mt c req res argv p)"
        for codec res argv w2
        by (cases "invoke env ch codec mt c req res argv p") auto
      show ?thesis
        using Some \<open>map_of (serviceMap server) (ServicePath req) = Some svc\<close> p(1) p'
        by (cases "env_codecs env (SerializeType (mheader req))")
          (simp_all add: handleRequest_def handleRequest_in_def rpc_spec_def get Let_def error_result inv
            invoke_result [OF p(2) types])
    qed
  qed
qed

section \<open>A small server\<close>

text \<open>
  A server with one service that multiplies, used by the examples below: its objects are lists of
  numbers, and its libraries write a number as one byte.
\<close>

definition demo_marshal :: "nat list goval \<Rightarrow> bytes \<times> goerr option" where
  "demo_marshal i = (case i of GoObj xs \<Rightarrow> (map word_of_nat xs, None) | _ \<Rightarrow> ([], Some (ErrText ''marshal'')))"

definition demo_unmarshal :: "bytes \<Rightarrow> nat list goval \<Rightarrow> goerr option \<times> nat list goval" where
  "demo_unmarshal d i = (case i of GoObj _ \<Rightarrow> (None, GoObj (map unat d)) | _ \<Rightarrow> (Some (ErrText ''unmarshal''), i))"

definition demo_libs :: "nat list codec_libs" where
  "demo_libs = \<lparr>json_Marshal = demo_marshal, json_Unmarshal = demo_unmarshal,
     gogo_Marshal = \<lambda>_. None, gogo_Unmarshal = \<lambda>_ _. None, pb_Marshal = \<lambda>_. None, pb_Unmarshal = \<lambda>_ _. None,
     msgpack_Encode = demo_marshal, msgpack_Decode = demo_unmarshal,
     thrift_Write = \<lambda>_. None, thrift_Read = \<lambda>_ _. None, set_bytes = \<lambda>_ _. None, type_name = \<lambda>_. ''[]int''\<rparr>"

definition demo_env :: "nat list server_env" where
  "demo_env = \<lparr>env_libs = demo_libs, env_codecs = Codecs, env_UsePool = False, env_New = \<lambda>_. GoObj [],
     env_Reset = \<lambda>_. None, env_Elem = \<lambda>v. v, env_show = \<lambda>_. ''args'', env_opentracing = \<lambda>_. ''span''\<rparr>"

definition demo_mul :: "nat list handler" where
  "demo_mul c argv replyv = (case argv of
      GoObj [a, b] \<Rightarrow> \<lparr>hOutcome = Returns None, hArg = argv, hReply = GoObj [a * b], hSent = []\<rparr>
    | _ \<Rightarrow> \<lparr>hOutcome = Panics ''index out of range'', hArg = argv, hReply = replyv, hSent = []\<rparr>)"

definition demo_method :: "nat list rmethod" where
  "demo_method = \<lparr>mName = ''Mul'', mPkgPath = '''',
     mIn = [TPtr (TBase ''Arith'' ''main''), TBase ''Context'' ''context'', TPtr (TBase ''Args'' ''main''),
       TPtr (TBase ''Reply'' ''main'')],
     mOut = [typeOfError], mCall = demo_mul\<rparr>"

definition demo_receiver :: "nat list receiver" where
  "demo_receiver = \<lparr>rTypeString = ''*main.Arith'', rName = ''Arith'', rMethods = [demo_method],
     rPtrMethods = [demo_method]\<rparr>"

definition empty_server :: "nat list server" where
  "empty_server = \<lparr>serviceMap = [], maxConnIdleTime = 10, doneChan = None, discovery = False,
     sname = '''', advertiseUrl = '''', useGateWay = False\<rparr>"

definition demo_server :: "nat list server" where
  "demo_server = snd (Register (\<lambda>_. True) demo_receiver empty_server)"

definition demo_request :: "nat list \<Rightarrow> message" where
  "demo_request xs = NewMessage\<lparr>mheader := SetSerializeType JSON (SetSeq 7 new_header),
     ServicePath := ''arith'', ServiceMethod := ''mul'', Payload := map word_of_nat xs\<rparr>"

definition demo_pools :: "nat list pools" where
  "demo_pools = \<lparr>msgPool = [], argsReplyPools = Map.empty\<rparr>"

definition demo_choices :: choices where
  "demo_choices = \<lparr>chMsg = None, chArg = None, chReply = None\<rparr>"

definition demo_mt :: "nat list methodType" where
  "demo_mt = \<lparr>mtMethod = demo_method, ArgType = TPtr (TBase ''Args'' ''main''), ReplyType = TPtr (TBase ''Reply'' ''main'')\<rparr>"

lemma demo_suitable: "suitableMethods impl [demo_method] True = ([(''mul'', demo_mt)], if impl (TBase ''Context'' ''context'') then [] else [(''Mul'', ContextNotImplemented)])"
  by (simp add: suitableMethods_def suitableMethod_def demo_method_def demo_mt_def Let_def
      typeOfError_def is_ptr_def isExported_def ToLower_def lower_char_def char_of_def bit_0)

lemma demo_serviceMap: "serviceMap demo_server = [(''arith'', \<lparr>svcName = ''Arith'', svcMethod = [(''mul'', demo_mt)]\<rparr>)]"
  by (simp add: demo_server_def Register_def register_def demo_receiver_def empty_server_def Let_def
      demo_suitable isExported_def ToLower_def lower_char_def char_of_def bit_0)

definition demo_header :: header where
  "demo_header = SetSerializeType JSON (SetSeq 7 new_header)"

lemma demo_header_fields:
  "SerializeType demo_header = JSON" "\<not> IsOneway demo_header" "hdr_wf demo_header"
  "CompressType demo_header = NoCompress" "Seq demo_header = 7" "CheckMagicNumber demo_header"
  "\<not> IsHeartbeat demo_header" "MessageStatusType demo_header = Normal"
  by code_simp+

lemma demo_request_fields:
  "SerializeType (mheader (demo_request xs)) = JSON" "IsOneway (mheader (demo_request xs)) = False"
  "ServicePath (demo_request xs) = ''arith''" "ServiceMethod (demo_request xs) = ''mul''"
  "Payload (demo_request xs) = map word_of_nat xs" "Metadata (demo_request xs) = None"
  "mheader (demo_request xs) = demo_header"
  using demo_header_fields(1,2) unfolding demo_request_def demo_header_def [symmetric]
  by (simp_all add: NewMessage_def)

lemma demo_spec:
  "rpc_spec demo_env demo_server c (demo_request [6, 7]) = Some (RpcReply (Some [42]))"
  by (simp add: rpc_spec_def demo_serviceMap demo_request_fields demo_header_fields demo_env_def codec_Decode_def
      codec_Encode_def JSONCodec_Decode_def JSONCodec_Encode_def demo_libs_def demo_unmarshal_def
      demo_marshal_def typePools_New_def demo_mt_def demo_method_def run_method_def is_ptr_def
      service_call_def demo_mul_def rpc_reply_def Let_def del: protocol_consts)

text \<open>Any number of registrations, whatever their outcome.\<close>

fun registrations ::
  "(gotype \<Rightarrow> bool) \<Rightarrow> ('x receiver \<times> string \<times> bool) list \<Rightarrow> 'x server \<Rightarrow> 'x server" where
  "registrations impl [] server = server"
| "registrations impl ((rcvr, nm, u) # rs) server =
     registrations impl rs (snd (register impl rcvr nm u server))"

lemma registrations_table_ok:
  "table_ok (serviceMap server) \<Longrightarrow> table_ok (serviceMap (registrations impl rs server))"
proof (induction rs arbitrary: server)
  case (Cons r rs)
  obtain rcvr nm u where r: "r = (rcvr, nm, u)" by (cases r)
  obtain e server' where s: "register impl rcvr nm u server = (e, server')" by fastforce
  show ?case using Cons.IH [OF register_table_ok [OF Cons.prems s]] by (simp add: r s)
qed simp

lemma registrations_any_ctx: "registrations impl rs server = registrations impl' rs server"
proof (induction rs arbitrary: server)
  case (Cons r rs)
  obtain rcvr nm u where "r = (rcvr, nm, u)" by (cases r)
  then show ?case using Cons.IH register_any_ctx [of impl rcvr nm u server impl'] by simp
qed simp

section \<open>Properties\<close>

text \<open>C4. \<open>handleRequest\<close> implements the meaning of a request: with the pool of messages in any state, and without pooling of
  values or while every type in the table has a pool that holds only values like new ones, what it returns is the error or
  the reply that the table, the codec and the method determine, and it panics exactly where a codec does. (Without a pool
  for a type it panics, see \<open>uninitialised_pool_panics\<close>.)\<close>

theorem handleRequest_refines_spec:
  assumes "pools_ok env (set (table_types (serviceMap server))) (argsReplyPools w)"
  shows "map_option (\<lambda>(out, w'). result_of req out) (handleRequest env server ch c req w) =
    rpc_spec env server c req"
  using assms by (rule handleRequest_result)

theorem handleRequest_refines_spec_witness:
  "map_option (\<lambda>(out, w'). result_of (demo_request [6, 7]) out)
     (handleRequest demo_env demo_server demo_choices Background (demo_request [6, 7]) demo_pools) =
   Some (RpcReply (Some [42]))"
proof -
  have "pools_ok demo_env (set (table_types (serviceMap demo_server))) (argsReplyPools demo_pools)"
    by (simp add: pools_ok_def demo_env_def)
  from handleRequest_refines_spec [OF this] demo_spec show ?thesis by simp
qed

text \<open>C23. A response always belongs to its request: it carries the request's sequence number, names and
  serialization type, is marked as a response and is never compressed. Its status is \<open>Error\<close> when there was an error, and then
  its metadata holds the error's text; when there was none it is the status that the request had, so that a request marked
  as an error gets its reply marked as one.\<close>

theorem response_belongs_to_request:
  assumes "handleRequest env server ch c req w = Some ((res, e), w')" "hdr_wf (mheader req)"
  shows "Seq (mheader res) = Seq (mheader req) \<and> SerializeType (mheader res) = SerializeType (mheader req) \<and>
    MessageType (mheader res) = Response \<and> CompressType (mheader res) = NoCompress \<and>
    MessageStatusType (mheader res) = (if e = None then MessageStatusType (mheader req) else Error) \<and>
    ServicePath res = ServicePath req \<and> ServiceMethod res = ServiceMethod req \<and>
    (case e of None \<Rightarrow> True
     | Some err \<Rightarrow> \<exists>md. Metadata res = Some md \<and> map_of md ServiceError = Some (err_text (env_opentracing env) err))"
  using handleRequest_response [OF assms] by (simp add: response_to_def)

theorem response_belongs_to_request_witness:
  "\<exists>res w'. handleRequest demo_env demo_server demo_choices Background (demo_request [6]) demo_pools =
     Some ((res, Some (call_error ''index out of range'' ''Mul'' ''args'')), w') \<and>
     Seq (mheader res) = 7 \<and> MessageStatusType (mheader res) = Error"
proof -
  have "rpc_spec demo_env demo_server Background (demo_request [6]) =
      Some (RpcError (call_error ''index out of range'' ''Mul'' ''args''))"
    by (simp add: rpc_spec_def demo_serviceMap demo_request_fields demo_header_fields demo_env_def codec_Decode_def
        JSONCodec_Decode_def demo_libs_def demo_unmarshal_def typePools_New_def demo_mt_def
        demo_method_def run_method_def is_ptr_def service_call_def demo_mul_def rpc_reply_def Let_def
        del: protocol_consts)
  moreover have "pools_ok demo_env (set (table_types (serviceMap demo_server))) (argsReplyPools demo_pools)"
    by (simp add: pools_ok_def demo_env_def)
  ultimately obtain res w' where h: "handleRequest demo_env demo_server demo_choices Background
      (demo_request [6]) demo_pools =
      Some ((res, Some (call_error ''index out of range'' ''Mul'' ''args'')), w')"
    using handleRequest_result [of demo_env demo_server demo_pools "demo_request [6]" demo_choices Background]
    by (auto simp: result_of_def split: option.splits)
  then show ?thesis
    using response_belongs_to_request [OF h] by (simp add: demo_request_fields demo_header_fields)
qed



text \<open>With \<open>UsePool\<close> switched on, a type whose pool was never made with \<open>Init\<close> brings the handler down:
  every request to a method with such an argument type panics.\<close>

theorem uninitialised_pool_panics:
  assumes "env_UsePool env" "argsReplyPools w (ArgType mt) = None"
    and "map_of (serviceMap server) (ServicePath req) = Some svc"
    and "map_of (svcMethod svc) (ServiceMethod req) = Some mt"
  shows "handleRequest env server ch c req w = None"
proof -
  obtain pooled mp where "GetPooledMsg (chMsg ch) (msgPool w) = (pooled, mp)" by fastforce
  then show ?thesis using assms
    by (simp add: handleRequest_def handleRequest_in_def Let_def env_Get_def typePools_Get_def)
qed

theorem uninitialised_pool_panics_witness:
  "handleRequest (demo_env\<lparr>env_UsePool := True\<rparr>) demo_server demo_choices Background
     (demo_request [6, 7]) demo_pools = None"
  by (rule uninitialised_pool_panics [where mt = demo_mt and svc = "\<lparr>svcName = ''Arith'', svcMethod = [(''mul'', demo_mt)]\<rparr>"])
    (simp_all add: demo_pools_def demo_serviceMap demo_request_fields)

text \<open>C24. What registration installs: after any registrations, failed ones included, every method in the table is exported,
  takes four parameters of which the third has an exported or builtin type and the last is a pointer to one, and returns one
  error, and every service and method is found under its name in lower case. The remaining rule, that the second parameter
  is a \<^verbatim>\<open>context.Context\<close>, plays no part: the table is the same whatever types implement it.\<close>

theorem registered_methods_suitable:
  assumes "map_of (serviceMap (registrations impl rs empty_server)) sp = Some svc"
    and "map_of (svcMethod svc) sm = Some mt"
  shows "suitable_but_ctx mt \<and> sm = ToLower (mName (mtMethod mt)) \<and> sp = ToLower (svcName svc) \<and>
    registrations impl' rs empty_server = registrations impl rs empty_server"
proof -
  have "table_ok (serviceMap empty_server)" by (simp add: table_ok_def empty_server_def)
  then have "table_ok (serviceMap (registrations impl rs empty_server))"
    by (rule registrations_table_ok)
  then show ?thesis
    using map_of_SomeD [OF assms(1)] map_of_SomeD [OF assms(2)] registrations_any_ctx [of impl' rs empty_server impl]
    by (force simp: table_ok_def methods_ok_def)
qed

text \<open>The witness: no type implements \<^verbatim>\<open>context.Context\<close>, and the method is installed all the same.\<close>

theorem registered_methods_suitable_witness:
  "suitable_but_ctx demo_mt \<and>
   map_of (serviceMap (registrations (\<lambda>_. False) [(demo_receiver, '''', False)] empty_server)) ''arith'' =
     Some \<lparr>svcName = ''Arith'', svcMethod = [(''mul'', demo_mt)]\<rparr>"
proof -
  have m: "map_of (serviceMap (registrations (\<lambda>_. True) [(demo_receiver, '''', False)] empty_server)) ''arith'' =
      Some \<lparr>svcName = ''Arith'', svcMethod = [(''mul'', demo_mt)]\<rparr>"
    using demo_serviceMap by (simp add: demo_server_def Register_def)
  from registered_methods_suitable [OF m, of "''mul''" demo_mt "\<lambda>_. False"] m show ?thesis by simp
qed

text \<open>C25. What a registration does, under the receiver's own name or a given one: it succeeds exactly when the name is not empty,
  exported or given, and some method is installed. Then the service is found under its name in lower case, in place of an
  earlier one, and every other service as before; a refused registration leaves the table alone. In both cases the server's name
  is overwritten and no other field changes.\<close>

theorem register_lookup:
  assumes "register impl rcvr nm useName server = (e, server')"
    and "sn = (if useName then nm else rName rcvr)" "ms = fst (suitableMethods impl (rMethods rcvr) True)"
  shows "(e = None \<longleftrightarrow> sn \<noteq> '''' \<and> (isExported sn \<or> useName) \<and> ms \<noteq> []) \<and>
    map_of (serviceMap server') j =
      (if e = None \<and> j = ToLower sn then Some \<lparr>svcName = sn, svcMethod = ms\<rparr> else map_of (serviceMap server) j) \<and>
    (e \<noteq> None \<longrightarrow> serviceMap server' = serviceMap server) \<and>
    server' = server\<lparr>sname := sn, serviceMap := serviceMap server'\<rparr>"
  using assms by (auto simp: register_def Let_def alist.look_put split: if_splits)

theorem register_lookup_witness:
  "map_of (serviceMap (snd (register (\<lambda>_. True) demo_receiver ''Calc'' True demo_server))) ''calc'' =
     Some \<lparr>svcName = ''Calc'', svcMethod = [(''mul'', demo_mt)]\<rparr>"
proof -
  have ok: "register (\<lambda>_. True) demo_receiver ''Calc'' True demo_server =
      (None, snd (register (\<lambda>_. True) demo_receiver ''Calc'' True demo_server))"
    by (simp add: register_def Let_def demo_receiver_def demo_suitable)
  have "ToLower ''Calc'' = ''calc''" by (simp add: ToLower_def lower_char_def char_of_def bit_0)
  then show ?thesis using register_lookup [OF ok refl refl, of "''calc''"]
    by (simp add: demo_receiver_def demo_suitable)
qed

end
