(* ===== verification/ClientProps.thy ===== *)
theory ClientProps
  imports ClientSteps Dispatch
begin

text \<open>
  The properties of one RPC client: completion of calls, closing, reconnecting, delivery of responses,
  reading ahead, heartbeats.
\<close>

section \<open>Reconnecting\<close>

lemma reconnect_loop_failures:
  assumes "\<And>j. i \<le> j \<Longrightarrow> j \<le> n \<Longrightarrow> dial j = Inl (e j)" "i \<le> n"
  shows "reconnect_loop dial n i t slept err =
    ((Some (e n), None), slept @ map (\<lambda>j. t * 2 ^ j) [0..<nat (n - i)])"
  using assms
proof (induction "nat (n - i)" arbitrary: i t slept err)
  case 0
  then have "i = n" by simp
  then show ?case using 0 by (simp add: reconnect_loop.simps)
next
  case (Suc k)
  have k: "k = nat (n - (i + 1))" and less: "i < n" using Suc.hyps(2) by auto
  have "map (\<lambda>j. t * 2 ^ j) [0..<Suc k] = t # map (\<lambda>j. (2 * t) * 2 ^ j) [0..<k]"
    by (simp only: upt_conv_Cons [OF zero_less_Suc] map_Suc_upt [symmetric] list.map map_map comp_def)
      (simp add: mult_ac)
  then show ?case
    using Suc.hyps(1) [OF k, of "2 * t" "slept @ [t]" "Some (e i)"] Suc.prems less k
    by (simp add: reconnect_loop.simps [of dial n i] Suc.hyps(2) [symmetric] del: upt_Suc)
qed

lemma reconnect_loop_success:
  assumes "\<And>j. i \<le> j \<Longrightarrow> j < k \<Longrightarrow> dial j = Inl (e j)" "dial k = Inr c" "i \<le> k" "k \<le> n"
  shows "reconnect_loop dial n i t slept err =
    ((None, Some c), slept @ map (\<lambda>j. t * 2 ^ j) [0..<nat (k - i)])"
  using assms
proof (induction "nat (k - i)" arbitrary: i t slept err)
  case 0
  then have "i = k" by simp
  then show ?case using 0 by (simp add: reconnect_loop.simps)
next
  case (Suc l)
  have l: "l = nat (k - (i + 1))" and less: "i < k" using Suc.hyps(2) by auto
  have "map (\<lambda>j. t * 2 ^ j) [0..<Suc l] = t # map (\<lambda>j. (2 * t) * 2 ^ j) [0..<l]"
    by (simp only: upt_conv_Cons [OF zero_less_Suc] map_Suc_upt [symmetric] list.map map_map comp_def)
      (simp add: mult_ac)
  then show ?case
    using Suc.hyps(1) [OF l, of "2 * t" "slept @ [t]" "Some (e i)"] Suc.prems less l
    by (simp add: reconnect_loop.simps [of dial n i] Suc.hyps(2) [symmetric] del: upt_Suc)
qed

section \<open>The deadlock of \<open>input\<close>\<close>

text \<open>While \<open>input\<close> holds the mutex and has found that reconnecting failed, it waits for \<open>close\<close>, and nobody else gets the mutex.\<close>

definition deadlocked :: "'x RPCClient \<Rightarrow> bool" where
  "deadlocked client \<longleftrightarrow> mutex client \<and> phase client = Holding \<and> status client = ConnReconnectFail"

lemma transmit_effect:
  assumes "send_transmit env pooled we i sq client = Some client'"
  shows "outbox client' = outbox client \<or> dones client' = dones client \<and> pending client' = pending client"
    "mutex client' = mutex client" "phase client' = phase client" "status client' = status client"
  using assms by (auto simp: send_transmit_def drop_pending_def Let_def split: option.splits sum.splits)

lemma await_effect:
  "call_await False d client = Some (err, client') \<Longrightarrow> \<exists>cs. client' = client\<lparr>chans := cs\<rparr>"
  by (auto simp: call_await_def split: prod.splits list.splits)

lemma deadlocked_step:
  assumes "client_step env client client'" "deadlocked client"
  shows "deadlocked client' \<and> dones client' = dones client \<and> pending client' = pending client"
  using assms(1)
proof (cases rule: client_step.cases)
  case (transmit i sq pooled we)
  then show ?thesis using assms(2) transmit_effect [OF transmit(4)] by (auto simp: deadlocked_def)
next
  case (exit order err)
  then show ?thesis using assms(2) by (simp add: input_exit_def locked_close_def mutex_Lock_def deadlocked_def)
next
  case (await d err)
  then show ?thesis using assms(2) await_effect by (fastforce simp: deadlocked_def)
qed (use assms(2) in \<open>auto simp: deadlocked_def mutex_Lock_def\<close>)

lemma deadlocked_reach:
  "client_reach env client client' \<Longrightarrow> deadlocked client \<Longrightarrow>
   deadlocked client' \<and> dones client' = dones client \<and> pending client' = pending client"
proof (induction rule: client_reach.induct)
  case (step client client1 client2)
  then show ?case using deadlocked_step by metis
qed simp

text \<open>On the way there: reconnecting has failed, and either the client was closed since, or \<open>input\<close> has to take the mutex, or
  has it.\<close>

definition given_up :: "'x RPCClient \<Rightarrow> bool" where
  "given_up client \<longleftrightarrow>
     status client = ConnClose \<and> phase client \<in> {Leaving, Holding, Exited} \<or>
     status client = ConnReconnectFail \<and> phase client = Leaving \<and> \<not> mutex client \<or> deadlocked client"

lemma Go_effect:
  "Go now c sm args reply doneCh options client = Some (i, client') \<Longrightarrow>
   status client' = status client \<and> phase client' = phase client \<and> mutex client' = mutex client"
  by (auto simp: Go_def new_call_def send_register_def Let_def split: option.splits if_splits prod.splits)

lemma Close_effect:
  assumes "Close order client = Some client'"
  shows "status client' = ConnClose" "phase client' = phase client"
proof -
  have "status (fold (\<lambda>(sq, i) client. fail_call e i client) order c) = status c \<and>
      phase (fold (\<lambda>(sq, i) client. fail_call e i client) order c) = phase c" for e and c :: "'a RPCClient"
    by (induction order arbitrary: c) auto
  then show "status client' = ConnClose" "phase client' = phase client"
    using assms by (auto simp: Close_def close_def Let_def case_prod_beta' split: if_splits)
qed

lemma given_up_step:
  assumes "client_step env client client'" "given_up client"
  shows "given_up client'"
  using assms(1)
proof (cases rule: client_step.cases)
  case (go doneCh now c sm args reply options i)
  then show ?thesis using assms(2) Go_effect [OF go(3)] by (auto simp: given_up_def deadlocked_def)
next
  case (transmit i sq pooled we)
  then show ?thesis using assms(2) transmit_effect [OF transmit(4)] by (auto simp: given_up_def deadlocked_def)
next
  case (leave client1)
  then show ?thesis using assms(2) by (auto simp: given_up_def deadlocked_def mutex_Lock_def split: if_splits)
next
  case (exit order err)
  then show ?thesis using assms(2)
    by (auto simp: given_up_def deadlocked_def input_exit_def locked_close_def mutex_Lock_def mutex_Unlock_def split: if_splits)
next
  case (closed order)
  then show ?thesis using assms(2) Close_effect [OF closed(3)] by (auto simp: given_up_def deadlocked_def)
next
  case (await d err)
  then show ?thesis using assms(2) await_effect by (fastforce simp: given_up_def deadlocked_def)
qed (use assms(2) in \<open>auto simp: given_up_def deadlocked_def keepalive_fail_def\<close>)

lemma given_up_reach: "client_reach env client client' \<Longrightarrow> given_up client \<Longrightarrow> given_up client'"
  by (induction rule: client_reach.induct) (auto dest: given_up_step)

section \<open>Closing\<close>

lemma fold_fail_calls:
  "dones (fold (\<lambda>(sq, i) client. fail_call e i client) order client) = dones client @ map snd order \<and>
   pending (fold (\<lambda>(sq, i) client. fail_call e i client) order client) = pending client \<and>
   status (fold (\<lambda>(sq, i) client. fail_call e i client) order client) = status client \<and>
   suicide (fold (\<lambda>(sq, i) client. fail_call e i client) order client) = suicide client \<and>
   doneClosed (fold (\<lambda>(sq, i) client. fail_call e i client) order client) = doneClosed client \<and>
   length (calls (fold (\<lambda>(sq, i) client. fail_call e i client) order client)) = length (calls client) \<and>
   (\<forall>i < length (calls client). cError (calls (fold (\<lambda>(sq, i) client. fail_call e i client) order client) ! i) =
      (if i \<in> snd ` set order then Some e else cError (calls client ! i)))"
proof (induction order arbitrary: client)
  case (Cons x order)
  obtain sq i where x: "x = (sq, i)" by (cases x)
  show ?case using Cons [of "fail_call e i client"] by (auto simp: x nth_list_update)
qed simp

lemma fold_fail_doneClosed:
  "doneClosed (fold (\<lambda>(sq, i). fail_call e i) order client) = doneClosed client"
  using fold_fail_calls [of e order client] by (simp add: case_prod_beta')

lemma Close_available:
  assumes "Close order client = Some client'" "status client \<noteq> ConnClose"
  shows "\<not> doneClosed client \<and> status client' = ConnClose \<and> suicide client' \<and> connClosed client' \<and> doneClosed client' \<and>
    dones client' = dones client @ map snd order \<and> pending client' = pending client \<and>
    length (calls client') = length (calls client) \<and>
    (\<forall>i < length (calls client). i \<in> snd ` set order \<longrightarrow> cError (calls client' ! i) = Some ErrShutdown)"
proof -
  let ?start = "client\<lparr>status := ConnClose, suicide := True\<rparr>"
  have "client' = (fold (\<lambda>(sq, i) client. fail_call ErrShutdown i client) order ?start)\<lparr>connClosed := True, doneClosed := True\<rparr>"
    and "\<not> doneClosed (fold (\<lambda>(sq, i) client. fail_call ErrShutdown i client) order ?start)"
    using assms by (auto simp: Close_def close_def Let_def split: if_splits)
  then show ?thesis using fold_fail_calls [of ErrShutdown order ?start] by simp
qed

section \<open>Properties\<close>

text \<open>C5. Every call is completed at most once: from a new client on, under any interleaving of callers, responses,
  write errors, heartbeat failures and reconnections, no call is signalled twice and none that was signalled
  is still pending, as long as the client has not been closed.\<close>

theorem calls_complete_once:
  assumes "client_reach env (make_client conf c) client" "\<not> doneClosed client"
  shows "distinct (dones client) \<and> set (dones client) \<inter> snd ` set (pending client) = {}"
proof -
  have "once (make_client conf c)" by (simp add: once_def once_ids_def make_client_def)
  then have "once client" using client_reach_once [OF assms(1)] assms(2) by simp
  then show ?thesis by (auto simp: once_def once_ids_def)
qed

definition demo_client_env :: "nat list client_env" where
  "demo_client_env = \<lparr>ce_libs = demo_libs, ce_codecs = Codecs, ce_comps = Map.empty, ce_maxlen = 0\<rparr>"

definition demo_conf :: RPCClientConfig where
  "demo_conf = \<lparr>conf_network = ''tcp'', conf_address = ''a:1'', conf_servicePath = ''Arith'', conf_dialTimeout = 0\<rparr>"

definition demo_client :: "nat list RPCClient" where
  "demo_client = make_client demo_conf \<lparr>pieces = [], cend = EOF\<rparr>"

text \<open>A client after one call, and the same after the call's write failed.\<close>

definition demo_called :: "nat list RPCClient" where
  "demo_called = snd (the (Go 3 Background ''mul'' (GoObj [6, 7]) (GoObj []) None [SetCallSerializeType JSON] demo_client))"

definition demo_failed :: "nat list RPCClient" where
  "demo_failed = the (send_transmit demo_client_env NewMessage (Some EOF) 0 1 demo_called)"

lemma demo_called_fields:
  "pending demo_called = [(1, 0)]" "insend demo_called = [(0, 1)]" "dones demo_called = []"
  "status demo_called = ConnAvailable" "\<not> mutex demo_called" "\<not> doneClosed demo_called"
  "length (calls demo_called) = 1" "phase demo_called = Reading" "cError (calls demo_called ! 0) = None"
  "cReply (calls demo_called ! 0) = GoObj []" "cAfterCalls (calls demo_called ! 0) = []"
  "cSerializeType (calls demo_called ! 0) = JSON" "cArgs (calls demo_called ! 0) = GoObj [6, 7]"
  by (simp_all add: demo_called_def Go_def new_call_def demo_client_def make_client_def send_register_def
      SetCallSerializeType_def add_option_def apply_option_simps)

lemma demo_call_step: "client_step demo_client_env demo_client demo_called"
proof -
  obtain i client' where g: "Go 3 Background ''mul'' (GoObj [6, 7]) (GoObj []) None [SetCallSerializeType JSON] demo_client =
      Some (i, client')"
    by (simp add: Go_def new_call_def demo_client_def make_client_def SetCallSerializeType_def add_option_def
        apply_option_simps)
  moreover have "client' = demo_called" using g by (simp add: demo_called_def)
  ultimately show ?thesis
    by (intro client_step.go [OF _ _ g [unfolded \<open>client' = demo_called\<close>]])
      (simp_all add: demo_client_def make_client_def)
qed

theorem calls_complete_once_witness: "distinct (dones demo_called) \<and> set (dones demo_called) \<inter> {0} = {}"
proof -
  have r: "client_reach demo_client_env (make_client demo_conf \<lparr>pieces = [], cend = EOF\<rparr>) demo_called"
    using demo_call_step client_reach.init client_reach.step unfolding demo_client_def by blast
  show ?thesis using calls_complete_once [OF r] by (simp add: demo_called_fields)
qed

text \<open>C21. \<open>Close\<close> of a client whose status is not \<open>ConnClose\<close> yet completes every pending call with \<^verbatim>\<open>ErrShutdown\<close>, whatever the
  order of the table; of one that has this status, which a failed heartbeat sets too, it changes nothing, and the pending calls
  stay. In both cases the status is \<open>ConnClose\<close> then, and a call made afterwards fails at once with \<^verbatim>\<open>ErrShutdown\<close>.\<close>

theorem close_fails_pending_calls:
  assumes "Close order client = Some client'" "mset order = mset (pending client)"
    and "\<forall>(sq, i) \<in> set (pending client). i < length (calls client)"
  shows "status client' = ConnClose \<and>
    (if status client = ConnClose then client' = client
     else \<forall>(sq, i) \<in> set (pending client). i \<in> set (dones client') \<and> cError (calls client' ! i) = Some ErrShutdown) \<and>
    (\<forall>i now. dones (send_register now i client') = dones client' @ [i] \<and>
       (i < length (calls client') \<longrightarrow> cError (calls (send_register now i client') ! i) = Some ErrShutdown))"
proof -
  have "set order = set (pending client)" using assms(2) by (metis set_mset_mset)
  then have all: "i \<in> snd ` set order" if "(sq, i) \<in> set (pending client)" for sq i
    using that by (force intro: rev_image_eqI)
  show ?thesis
  proof (cases "status client = ConnClose")
    case True
    then show ?thesis using assms(1) by (auto simp: Close_def close_def send_register_def)
  next
    case False
    then show ?thesis using Close_available [OF assms(1) False] assms(3) all
      by (fastforce simp: send_register_def)
  qed
qed

theorem close_fails_pending_calls_witness:
  "\<exists>client'. Close [(1, 0)] demo_called = Some client' \<and> status client' = ConnClose \<and>
     0 \<in> set (dones client') \<and> cError (calls client' ! 0) = Some ErrShutdown"
proof -
  obtain client' where c: "Close [(1, 0)] demo_called = Some client'"
    using demo_called_fields by (simp add: Close_def close_def Let_def)
  from close_fails_pending_calls [OF c] c demo_called_fields show ?thesis by auto
qed

text \<open>A call can be signalled twice after \<open>Close\<close>: the calls stay in the table, and when the write of one of
  them fails it is completed again.\<close>

theorem close_completes_twice:
  "\<exists>client. client_reach demo_client_env demo_client client \<and> \<not> distinct (dones client)"
proof -
  obtain c1 where c1: "Close [(1, 0)] demo_called = Some c1"
    using demo_called_fields by (simp add: Close_def close_def Let_def)
  have f: "dones c1 = [0]" "pending c1 = [(1, 0)]"
    using Close_available [OF c1] demo_called_fields by auto
  have s1: "client_step demo_client_env demo_called c1"
    using c1 demo_called_fields by (intro client_step.closed [of _ "[(1, 0)]"]) auto
  have i1: "insend c1 = [(0, 1)]" "\<not> mutex c1" "length (calls c1) = 1" "cSerializeType (calls c1 ! 0) = JSON"
      "cArgs (calls c1 ! 0) = GoObj [6, 7]"
    using c1 demo_called_fields by (auto simp: Close_def close_def Let_def)
  obtain c2 where c2: "send_transmit demo_client_env NewMessage (Some EOF) 0 1 c1 = Some c2"
    "dones c2 = dones c1 @ [0]"
  proof -
    have "JSON AND mask 4 = JSON" "JSON \<noteq> SerializeNone" by (simp_all add: mask_eq_exp_minus_1)
    then obtain call req where "createRequest demo_client_env NewMessage (calls c1 ! 0) 1 = Some (call, Inr req)"
      using i1(4,5) createRequest_ok [of NewMessage "calls c1 ! 0" demo_client_env JSONCodec "[6, 7]" 1]
      by (simp add: demo_client_env_def codec_Encode_def JSONCodec_Encode_def
          demo_libs_def demo_marshal_def NewMessage_def del: protocol_consts)
    then show thesis using that by (simp add: send_transmit_def Let_def drop_pending_def f(2))
  qed
  have "client_step demo_client_env c1 c2"
    by (rule client_step.transmit [OF i1(2) _ clean_NewMessage c2(1)]) (simp add: i1)
  then have "client_reach demo_client_env demo_client c2"
    using demo_call_step s1 client_reach.init client_reach.step by metis
  then show ?thesis using c2(2) f(1) by (intro exI [of _ c2]) simp
qed

text \<open>\<open>Close\<close> is undone by a reconnect that was under way: when dialling succeeds afterwards, the closed client
  is available again, with its \<open>doneChan\<close> closed, and the next \<open>Close\<close> panics.\<close>

theorem close_during_reconnect_undone:
  assumes "Close order client = Some client1" "status client \<noteq> ConnClose"
    and "dial 1 = Inr s"
  shows "status (reconnected dial client1) = ConnAvailable \<and> \<not> suicide (reconnected dial client1) \<and>
    doneClosed (reconnected dial client1) \<and> Close order' (reconnected dial client1) = None"
proof -
  have d: "doneClosed client1" using Close_available [OF assms(1,2)] by simp
  have "1 \<le> reconnect_tries client1" by (simp add: reconnect_tries_def)
  then have "reconnect_dial dial client1 = ((None, Some s), [])"
    using reconnect_loop_success [of 1 1 dial _ s "reconnect_tries client1"] assms(3)
    by (simp add: reconnect_dial_def)
  then have r: "reconnected dial client1 = (reconnect_end None (Some s) client1)\<lparr>phase := Reading\<rparr>"
    by (simp add: reconnected_def)
  show ?thesis using d
    by (simp add: r reconnect_end_def Close_def close_def Let_def fold_fail_doneClosed)
qed

theorem close_during_reconnect_undone_witness:
  "\<exists>client1. Close [] (demo_client\<lparr>status := ConnReconnect, phase := Reconnecting\<rparr>) = Some client1 \<and>
     Close [] (reconnected (\<lambda>_. Inr \<lparr>pieces = [], cend = EOF\<rparr>) client1) = None"
proof -
  let ?c = "demo_client\<lparr>status := ConnReconnect, phase := Reconnecting\<rparr>"
  obtain client1 where c: "Close [] ?c = Some client1"
    by (simp add: Close_def close_def demo_client_def make_client_def)
  then show ?thesis using close_during_reconnect_undone [OF c, of "\<lambda>_. Inr \<lparr>pieces = [], cend = EOF\<rparr>"] by simp
qed

text \<open>C22. Reconnecting is bounded and backs off exponentially: with \<open>n\<close> attempts allowed (six by default) it makes
  no more, sleeps 1, 2, 4, ... seconds between them and not after the last, gives up with the last error, and
  stops at the first success.\<close>

theorem reconnect_backoff:
  assumes "n = reconnect_tries client"
  shows "((\<forall>j. 1 \<le> j \<and> j \<le> n \<longrightarrow> dial j = Inl (e j)) \<longrightarrow>
      reconnect_dial dial client = ((Some (e n), None), map (\<lambda>j. 2 ^ j) [0..<nat (n - 1)])) \<and>
    (\<forall>k c. 1 \<le> k \<and> k \<le> n \<and> dial k = Inr c \<and> (\<forall>j. 1 \<le> j \<and> j < k \<longrightarrow> dial j = Inl (e j)) \<longrightarrow>
      reconnect_dial dial client = ((None, Some c), map (\<lambda>j. 2 ^ j) [0..<nat (k - 1)]))"
proof -
  have n: "1 \<le> n" by (simp add: assms reconnect_tries_def)
  then show ?thesis
    using reconnect_loop_failures [of 1 n dial e 1 "[]" None] reconnect_loop_success [of 1 _ dial e _ n 1 "[]" None]
    by (auto simp: reconnect_dial_def assms [symmetric])
qed

theorem reconnect_backoff_witness:
  "reconnect_dial (\<lambda>_. Inl EOF) demo_client = ((Some EOF, None), [1, 2, 4, 8, 16])"
proof -
  have t: "6 = reconnect_tries demo_client" by (simp add: reconnect_tries_def demo_client_def make_client_def)
  have "map (\<lambda>j. 2 ^ j) [0..<nat (6 - 1)] = [1, 2, 4, 8, 16 :: int]" by (simp add: upt_rec)
  then show ?thesis using reconnect_backoff [OF t, of "\<lambda>_. Inl EOF" "\<lambda>_. EOF"] by simp
qed

text \<open>C31. When reconnecting fails the client deadlocks unless somebody closes it before \<open>input\<close> gets the mutex: \<open>input\<close> locks it,
  and \<open>close\<close>, which it calls then, waits for the same mutex. From the moment \<open>input\<close> has the mutex, whatever all goroutines
  try, it never gets further, nobody else gets the mutex, no call is signalled and none leaves the table.\<close>

theorem failed_reconnect_deadlocks:
  assumes "\<forall>j. dial j = Inl (e j)" "\<not> mutex client"
    and "client_reach env (reconnected dial client) client1" "status client1 \<noteq> ConnClose"
  shows "client_reach env client1 (client1\<lparr>mutex := True, phase := Holding\<rparr>) \<and>
    (\<forall>client2. client_reach env (client1\<lparr>mutex := True, phase := Holding\<rparr>) client2 \<longrightarrow>
      phase client2 = Holding \<and> mutex client2 \<and> dones client2 = dones client1 \<and> pending client2 = pending client1)"
proof -
  obtain err s where r: "reconnect_dial dial client = ((Some err, None), s)"
    using reconnect_loop_failures [of 1 "reconnect_tries client" dial e 1 "[]" None] assms(1)
    by (simp add: reconnect_dial_def reconnect_tries_def)
  have "given_up (reconnected dial client)"
    using assms(2) by (simp add: given_up_def reconnected_def r reconnect_end_def)
  then have g: "given_up client1" using given_up_reach [OF assms(3)] by blast
  let ?locked = "client1\<lparr>mutex := True, phase := Holding\<rparr>"
  have d: "deadlocked ?locked" using g assms(4) by (auto simp: given_up_def deadlocked_def)
  have reach: "client_reach env client1 ?locked"
  proof (cases "phase client1 = Holding")
    case True
    then have "?locked = client1" using g assms(4) by (cases client1) (auto simp: given_up_def deadlocked_def)
    then show ?thesis by (simp add: client_reach.init)
  next
    case False
    then have "phase client1 = Leaving" "mutex_Lock client1 = Some (client1\<lparr>mutex := True\<rparr>)"
      using g assms(4) by (auto simp: given_up_def deadlocked_def mutex_Lock_def)
    from client_step.leave [OF this] have "client_step env client1 ?locked" by simp
    then show ?thesis by (rule client_reach.step [OF client_reach.init])
  qed
  have all: "phase client2 = Holding \<and> mutex client2 \<and> dones client2 = dones client1 \<and> pending client2 = pending client1"
    if "client_reach env ?locked client2" for client2
    using deadlocked_reach [OF that d] by (simp add: deadlocked_def)
  show ?thesis by (rule conjI [OF reach]) (intro allI impI, erule all)
qed

theorem failed_reconnect_deadlocks_witness:
  "\<exists>client2. client_reach demo_client_env (reconnected (\<lambda>_. Inl EOF) demo_called) client2 \<and> phase client2 = Holding \<and>
     mutex client2 \<and> dones client2 = [] \<and> pending client2 = [(1, 0)]"
proof -
  let ?c = "reconnected (\<lambda>_. Inl EOF) demo_called"
  have c: "status ?c \<noteq> ConnClose \<and> dones ?c = [] \<and> pending ?c = [(1, 0)]"
    by (simp add: reconnected_def demo_called_fields reconnect_end_def split: prod.split option.split)
  have "\<forall>j :: int. (\<lambda>_. Inl EOF :: goerr + conn) j = Inl ((\<lambda>_. EOF) j)" by simp
  then have "client_reach demo_client_env ?c (?c\<lparr>mutex := True, phase := Holding\<rparr>)"
    by (rule failed_reconnect_deadlocks [OF _ demo_called_fields(5) client_reach.init conjunct1 [OF c], THEN conjunct1])
  then show ?thesis using c by (intro exI [of _ "?c\<lparr>mutex := True, phase := Holding\<rparr>"]) simp
qed

lemma handle_response_delivers:
  assumes "map_of (pending client) (Seq (mheader m)) = Some i" "i < length (calls client)"
    and "\<not> IsHeartbeat (mheader m)" "MessageStatusType (mheader m) = Normal"
    and "ce_codecs env (SerializeType (mheader m)) = Some codec"
    and "codec_Decode (ce_libs env) codec (Payload m) (cReply (calls client ! i)) = Some (None, reply)"
  shows "\<exists>client'. handle_response env m client = Some client' \<and> cReply (calls client' ! i) = reply \<and>
    cError (calls client' ! i) = cError (calls client ! i) \<and>
    (\<forall>j. j \<noteq> i \<longrightarrow> calls client' ! j = calls client ! j) \<and>
    dones client' = dones client @ [i] \<and>
    pending client' = AList.delete (Seq (mheader m)) (pending client) \<and>
    (\<forall>v. GetMetadata v \<in> set (cAfterCalls (calls client ! i)) \<longrightarrow> Metadata m \<noteq> None \<longrightarrow>
       vars client' v = Metadata m)"
proof -
  let ?client = "client\<lparr>pending := AList.delete (Seq (mheader m)) (pending client), resp := m\<rparr>"
  have "checkReplyError m = None" using assms(4) by (simp add: checkReplyError_def)
  then show ?thesis
    using deliver_success [of i ?client m env codec reply] assms
    by (auto simp: handle_response_def Let_def)
qed

text \<open>C9. A response reaches the call with its sequence number and no other: the payload is decoded into that call's
  reply, the call is signalled once and leaves the table, its metadata go to the variables the caller asked
  for, and every other call stays as it was.\<close>

theorem response_reaches_its_call:
  assumes "map_of (pending client) (Seq (mheader m)) = Some i" "i < length (calls client)"
    and "\<not> IsHeartbeat (mheader m)" "MessageStatusType (mheader m) = Normal"
    and "ce_codecs env (SerializeType (mheader m)) = Some codec"
    and "codec_Decode (ce_libs env) codec (Payload m) (cReply (calls client ! i)) = Some (None, reply)"
  shows "\<exists>client'. handle_response env m client = Some client' \<and> cReply (calls client' ! i) = reply \<and>
    cError (calls client' ! i) = cError (calls client ! i) \<and>
    (\<forall>j. j \<noteq> i \<longrightarrow> calls client' ! j = calls client ! j) \<and>
    dones client' = dones client @ [i] \<and>
    pending client' = AList.delete (Seq (mheader m)) (pending client) \<and>
    (\<forall>v. GetMetadata v \<in> set (cAfterCalls (calls client ! i)) \<longrightarrow> Metadata m \<noteq> None \<longrightarrow>
       vars client' v = Metadata m)"
  using assms by (rule handle_response_delivers)

definition demo_response :: message where
  "demo_response = NewMessage\<lparr>mheader := SetSerializeType JSON (SetSeq 1 (SetMessageType Response new_header)), Payload := [42]\<rparr>"

lemma demo_response_fields:
  "Seq (mheader demo_response) = 1" "SerializeType (mheader demo_response) = JSON"
  "\<not> IsHeartbeat (mheader demo_response)" "MessageStatusType (mheader demo_response) = Normal"
  "Payload demo_response = [42]" "Metadata demo_response = None"
       apply (code_simp, code_simp, code_simp, code_simp)
   apply (simp_all add: demo_response_def NewMessage_def)
  done

theorem response_reaches_its_call_witness:
  "\<exists>client'. handle_response demo_client_env demo_response demo_called = Some client' \<and>
     cReply (calls client' ! 0) = GoObj [42] \<and> pending client' = []"
proof -
  have "codec_Decode (ce_libs demo_client_env) JSONCodec (Payload demo_response) (cReply (calls demo_called ! 0)) =
      Some (None, GoObj [42])"
    by (simp add: demo_client_env_def codec_Decode_def JSONCodec_Decode_def demo_libs_def demo_unmarshal_def
        demo_response_fields demo_called_fields)
  then show ?thesis
    using response_reaches_its_call [of demo_called demo_response 0 demo_client_env JSONCodec "GoObj [42]"]
    by (auto simp: demo_called_fields demo_response_fields demo_client_env_def simp del: protocol_consts)
qed

text \<open>C34. Bytes read ahead are lost: when a piece of the stream holds a response and the beginning of what
  follows, \<open>readResponse\<close> returns the response and drops the rest of the piece, because its buffered reader
  is thrown away; a second response in the same piece is never seen.\<close>

theorem read_ahead_lost:
  assumes "sendable m" "receiver t" "compressors_ok (ce_comps env)"
    and "acceptable (ce_maxlen env) (body_size (ce_comps env) m)"
    and "length (snd (Encode (ce_comps env) m) @ tail) \<le> 1024"
  shows "\<exists>t'. readResponse env t \<lparr>pieces = (snd (Encode (ce_comps env) m) @ tail) # ps, cend = e\<rparr> =
      Some (t', None, \<lparr>pieces = ps, cend = e\<rparr>) \<and> Payload t' = Payload m"
proof -
  let ?p = "snd (Encode (ce_comps env) m) @ tail"
  let ?r = "NewReaderSize \<lparr>pieces = ?p # ps, cend = e\<rparr> 1024"
  have rest: "bufio_rest ?r = snd (Encode (ce_comps env) m) @ tail @ concat ps"
    by (simp add: bufio_rest_def NewReaderSize_def)
  obtain t' r' where dec: "Decode bufio_readfull (ce_comps env) (ce_maxlen env) t ?r = Some (t', None, r')"
    "received (ce_comps env) m t t'" "bufio_rest r' = tail @ concat ps"
    using bufio.Decode_Encode [OF assms(1-4) rest] by blast
  obtain b1 r1 b2 r2 b3 r3 b4 where rd: "bufio_readfull ?r 1 = (b1, None, r1)" "bufio_readfull r1 11 = (b2, None, r2)"
    "bufio_readfull r2 4 = (b3, None, r3)" "bufio_readfull r3 (unat (be_get32 b3)) = (b4, None, r')"
    using bufio.Decode_reads [OF dec(1)] by blast
  let ?n = "unat (be_get32 b3)"
  have "length (bufio_rest ?r) = 16 + ?n + length (tail @ concat ps)"
    using bufio.readfull_None [OF rd(1)] bufio.readfull_None [OF rd(2)] bufio.readfull_None [OF rd(3)]
      bufio.readfull_None [OF rd(4)] dec(3) by simp
  then have len: "length ?p = 16 + ?n + length tail" unfolding rest by simp
  then have "?p \<noteq> []" by auto
  then have "r1 = \<lparr>bbuf = tl ?p, bsize = 1024, bconn = \<lparr>pieces = ps, cend = e\<rparr>\<rparr>"
    using bufio_readfull_first [of ?p 1024 ps e] assms(5) rd(1) by simp
  then have 1: "length (bbuf r1) = 15 + ?n + length tail" "bconn r1 = \<lparr>pieces = ps, cend = e\<rparr>"
    using len by simp_all
  have 2: "length (bbuf r2) = 4 + ?n + length tail" "bconn r2 = bconn r1"
    using bufio_readfull_keeps [OF rd(2)] 1(1) by simp_all
  have 3: "length (bbuf r3) = ?n + length tail" "bconn r3 = bconn r2"
    using bufio_readfull_keeps [OF rd(3)] 2(1) by simp_all
  have "bconn r' = bconn r3" using bufio_readfull_keeps [OF rd(4)] 3(1) by simp
  then have "bconn r' = \<lparr>pieces = ps, cend = e\<rparr>" using 1 2 3 by simp
  then show ?thesis using dec by (auto simp: readResponse_def received_def)
qed

theorem read_ahead_lost_witness:
  "\<exists>t'. readResponse (demo_client_env\<lparr>ce_comps := Compressors stored_gzip\<rparr>) NewMessage
      \<lparr>pieces = [sample_wire @ sample_wire], cend = EOF\<rparr> = Some (t', None, \<lparr>pieces = [], cend = EOF\<rparr>)"
proof -
  have len: "length sample_wire \<le> 100"
    using length_frame [of "fst (encode_payload (Compressors stored_gzip) sample_message)"]
      encode_payload_header [OF sample_sendable]
    unfolding sample_wire_def Encode_frame_sendable [OF sample_sendable] sample_payload
    by (simp add: length_frame sample_message_def encodeMetadata_def)
  have "\<exists>t'. readResponse (demo_client_env\<lparr>ce_comps := Compressors stored_gzip\<rparr>) NewMessage
      \<lparr>pieces = (snd (Encode (ce_comps (demo_client_env\<lparr>ce_comps := Compressors stored_gzip\<rparr>)) sample_message) @
         sample_wire) # [], cend = EOF\<rparr> = Some (t', None, \<lparr>pieces = [], cend = EOF\<rparr>) \<and>
      Payload t' = Payload sample_message"
    by (rule read_ahead_lost [OF sample_sendable receiver_NewMessage])
      (use sample_compressors sample_acceptable len in \<open>simp_all add: demo_client_env_def sample_wire_def [symmetric]\<close>)
  then show ?thesis by (simp add: sample_wire_def [symmetric]) blast
qed

text \<open>A heartbeat response that no call waits for crashes the client: the reading goroutine calls \<open>done\<close> on a
  nil call.\<close>

theorem stray_heartbeat_panics:
  assumes "IsHeartbeat (mheader m)" "Seq (mheader m) \<notin> fst ` set (pending client)"
  shows "handle_response env m client = None"
  using assms by (simp add: handle_response_def Let_def map_of_eq_None_iff)

theorem stray_heartbeat_panics_witness:
  "handle_response demo_client_env (NewMessage\<lparr>mheader := SetHeartbeat True new_header\<rparr>) demo_client = None"
proof -
  have "IsHeartbeat (SetHeartbeat True new_header)" by code_simp
  then show ?thesis
    by (intro stray_heartbeat_panics) (simp_all add: demo_client_def make_client_def)
qed

text \<open>The keepalive loop sends a heartbeat only on an available connection that has been idle for the whole
  interval, otherwise it only waits, for at least a second and at most the interval; a failed heartbeat
  closes the connection but completes no pending call, and the later \<open>Close\<close> does nothing.\<close>

theorem keepalive_round_spec:
  assumes "0 < heartBeatInterval client" "lastSend client \<le> now"
  shows "(if status client = ConnAvailable \<and> heartBeatInterval client \<le> now - lastSend client
      then fst (keepalive_round now hb client) = heartBeatInterval (client) \<and>
        snd (keepalive_round now hb client) =
          (case hb client of (None, client') \<Rightarrow> client' | (Some e, client') \<Rightarrow> keepalive_fail client')
      else snd (keepalive_round now hb client) = client \<and>
        1 \<le> fst (keepalive_round now hb client) \<and> fst (keepalive_round now hb client) \<le> heartBeatInterval client) \<and>
    (status client = ConnAvailable \<longrightarrow> dones (keepalive_fail client) = dones client \<and>
       \<not> (doneClosed (keepalive_fail client) \<and> \<not> doneClosed client) \<and>
       Close order (keepalive_fail client) = Some (keepalive_fail client))"
  using assms
  by (auto simp: keepalive_round_def keepalive_fail_def Close_def close_def Let_def split: prod.splits option.splits)

theorem keepalive_round_spec_witness:
  "keepalive_round 3 (\<lambda>c. (Some EOF, c)) (demo_called\<lparr>heartBeatInterval := 5, lastSend := 1\<rparr>) =
     (3, demo_called\<lparr>heartBeatInterval := 5, lastSend := 1\<rparr>)"
proof -
  let ?c = "demo_called\<lparr>heartBeatInterval := 5, lastSend := 1\<rparr>"
  have "fst (keepalive_round 3 (\<lambda>c. (Some EOF, c)) ?c) = 3"
    by (simp add: keepalive_round_def demo_called_fields)
  moreover have "snd (keepalive_round 3 (\<lambda>c. (Some EOF, c)) ?c) = ?c"
    using keepalive_round_spec [of ?c 3 "\<lambda>c. (Some EOF, c)"] by simp
  ultimately show ?thesis by (simp add: prod_eq_iff)
qed

text \<open>
  A call whose context expires returns \<^verbatim>\<open>ErrTimeOut\<close> but stays in the table, and its late response is still decoded into
  the reply, which the caller has back by then.
\<close>

theorem late_response_still_written:
  assumes "call_await True d client = Some (err, client1)"
    and "map_of (pending client) (Seq (mheader m)) = Some i" "i < length (calls client)"
    and "\<not> IsHeartbeat (mheader m)" "MessageStatusType (mheader m) = Normal"
    and "ce_codecs env (SerializeType (mheader m)) = Some codec"
    and "codec_Decode (ce_libs env) codec (Payload m) (cReply (calls client ! i)) = Some (None, reply)"
  shows "err = Some ErrTimeOut \<and> pending client1 = pending client \<and>
    (\<exists>client2. handle_response env m client1 = Some client2 \<and> cReply (calls client2 ! i) = reply)"
  using assms handle_response_delivers [of client m i env codec reply] by (auto simp: call_await_def)

end
