(* ===== verification/EasyConn.thy ===== *)
theory EasyConn
  imports Dispatch "HOL-Library.Multiset"
begin

text \<open>
  A connection of the server, \<^verbatim>\<open>server/easyconn.go\<close>: the loop of \<^verbatim>\<open>serveConn\<close> reads requests,
  answers heartbeats itself and starts a goroutine \<^verbatim>\<open>handleTrueRequest\<close> for every other request. The
  goroutines finish in any order, which makes the connection a state machine.
\<close>

section \<open>State and steps\<close>

text \<open>
  \<open>running\<close> holds the requests whose goroutines have not finished, \<open>written\<close> the arguments of the calls
  of \<^verbatim>\<open>rwc.Write\<close>, \<open>shut\<close> says that \<^verbatim>\<open>serveConn\<close> has returned and closed the connection, \<open>crashed\<close> that
  a goroutine panicked, which ends the process. \<open>arrived\<close> records all messages read, for the
  statements below.
\<close>

record 'x conn_state =
  reader :: bufio
  running :: "message list"
  written :: "bytes list"
  arrived :: "message list"
  shut :: bool
  crashed :: bool
  cpools :: "'x pools"

definition newEasyConn :: "conn \<Rightarrow> 'x pools \<Rightarrow> 'x conn_state" where
  "newEasyConn c w = \<lparr>reader = NewReaderSize c 1024, running = [], written = [], arrived = [],
     shut = False, crashed = False, cpools = w\<rparr>"

definition readRequest ::
  "compressors \<Rightarrow> int \<Rightarrow> nat option \<Rightarrow> message list \<Rightarrow> bufio
     \<Rightarrow> (message \<times> goerr option \<times> bufio) option \<times> message list" where
  "readRequest comps maxlen ch mp r =
    (case GetPooledMsg ch mp of (req, mp) \<Rightarrow> (Decode bufio_readfull comps maxlen req r, mp))"

text \<open>
  One round of the loop. A panic in \<open>Decode\<close> is recovered by the deferred function, which closes
  the connection, as an error does.
\<close>

definition serve_round :: "compressors \<Rightarrow> int \<Rightarrow> nat option \<Rightarrow> 'x conn_state \<Rightarrow> 'x conn_state" where
  "serve_round comps maxlen ch st =
    (case readRequest comps maxlen ch (msgPool (cpools st)) (reader st) of (res, mp) \<Rightarrow>
      (let st = st\<lparr>cpools := (cpools st)\<lparr>msgPool := mp\<rparr>\<rparr> in
       case res of
         None \<Rightarrow> st\<lparr>shut := True\<rparr>
       | Some (req, Some err, r) \<Rightarrow> st\<lparr>reader := r, shut := True\<rparr>
       | Some (req, None, r) \<Rightarrow>
          (let st = st\<lparr>reader := r, arrived := arrived st @ [req]\<rparr> in
           if IsHeartbeat (mheader req) then
             (let req = req\<lparr>mheader := SetMessageType Response (mheader req)\<rparr>;
                  (req, data) = writeResponse comps req
              in st\<lparr>written := written st @ [data],
                    cpools := (cpools st)\<lparr>msgPool := FreeMsg (Some req) (msgPool (cpools st))\<rparr>\<rparr>)
           else st\<lparr>running := running st @ [req]\<rparr>)))"

text \<open>The goroutine of the \<open>i\<close>-th running request runs to its end; a closed connection takes no bytes.\<close>

definition finish ::
  "'x server_env \<Rightarrow> compressors \<Rightarrow> 'x server \<Rightarrow> choices \<Rightarrow> nat \<Rightarrow> 'x conn_state \<Rightarrow> 'x conn_state" where
  "finish env comps server ch i st =
    (case handleTrueRequest env comps server ch Background (running st ! i) (cpools st) of
       None \<Rightarrow> st\<lparr>crashed := True\<rparr>
     | Some (data, w) \<Rightarrow>
         st\<lparr>running := take i (running st) @ drop (Suc i) (running st), cpools := w,
            written := written st @ (case data of Some d \<Rightarrow> (if shut st then [] else [d]) | None \<Rightarrow> [])\<rparr>)"

inductive conn_step ::
  "'x server_env \<Rightarrow> compressors \<Rightarrow> int \<Rightarrow> 'x server \<Rightarrow> 'x conn_state \<Rightarrow> 'x conn_state \<Rightarrow> bool"
  for env :: "'x server_env" and comps :: compressors and maxlen :: int and server :: "'x server" where
  read: "\<not> shut st \<Longrightarrow> \<not> crashed st \<Longrightarrow>
    conn_step env comps maxlen server st (serve_round comps maxlen ch st)"
| done_: "i < length (running st) \<Longrightarrow> \<not> crashed st \<Longrightarrow>
    conn_step env comps maxlen server st (finish env comps server ch i st)"

inductive_cases conn_stepE: "conn_step env comps maxlen server st st'"

inductive conn_reach ::
  "'x server_env \<Rightarrow> compressors \<Rightarrow> int \<Rightarrow> 'x server \<Rightarrow> 'x conn_state \<Rightarrow> 'x conn_state \<Rightarrow> bool"
  for env :: "'x server_env" and comps :: compressors and maxlen :: int and server :: "'x server" where
  init: "conn_reach env comps maxlen server st st"
| step: "conn_reach env comps maxlen server st st1 \<Longrightarrow> conn_step env comps maxlen server st1 st2 \<Longrightarrow>
    conn_reach env comps maxlen server st st2"

section \<open>One request\<close>

text \<open>What a message must satisfy to go back to the pool: its metadata are dropped anyway.\<close>

definition poolable :: "message \<Rightarrow> bool" where
  "poolable m \<longleftrightarrow> hdr_wf (mheader m) \<and> CheckMagicNumber (mheader m) \<and> slice_wf (mdata m) \<and> slo (mdata m) = 0"

lemma sendable_poolable: "sendable m \<Longrightarrow> poolable m"
  by (simp add: sendable_def msg_wf_def poolable_def)

lemma pool_ok_FreeMsg: "pool_ok p \<Longrightarrow> poolable m \<Longrightarrow> pool_ok (FreeMsg (Some m) p)"
  by (auto simp: pool_ok_def FreeMsg_def poolable_def clean_def Reset_def resetHeader_magic slice_wf_def
      slice_len_def)

lemma GetPooledMsg_ok: "pool_ok p \<Longrightarrow> GetPooledMsg ch p = (m, p') \<Longrightarrow> clean m \<and> pool_ok p'"
  by (rule pool.get_clean)

text \<open>Writing a response: its header goes out as it is, apart from the compression flag.\<close>

lemma writeResponse_Encode:
  "hdr_wf (mheader m) \<Longrightarrow> writeResponse comps m = Encode comps m"
proof -
  assume h: "hdr_wf (mheader m)"
  have "m\<lparr>mheader := SetCompressType (CompressType (mheader m)) (mheader m)\<rparr> = m"
    using compress_field.put_get [OF h] by simp
  then show ?thesis by (simp add: writeResponse_def)
qed

lemma Encode_poolable: "poolable m \<Longrightarrow> poolable (fst (Encode comps m))"
  by (cases "zips comps m") (auto simp: Encode_message poolable_def encode_payload_zips
      encode_payload_not_zips SetCompressType_others)

text \<open>A response on the wire for the sequence number \<open>n\<close>.\<close>

definition response_frame :: "compressors \<Rightarrow> u64 \<Rightarrow> bytes \<Rightarrow> bool" where
  "response_frame comps n d \<longleftrightarrow> (\<exists>m. d = snd (Encode comps m) \<and> hdr_wf (mheader m) \<and>
     Seq (mheader m) = n \<and> MessageType (mheader m) = Response \<and> CheckMagicNumber (mheader m))"

lemma handleRequest_poolable:
  assumes "handleRequest env server ch c req w = Some ((res, e), w')" "poolable req" "pool_ok (msgPool w)"
  shows "poolable res \<and> pool_ok (msgPool w')"
proof -
  obtain pooled mp where get: "GetPooledMsg (chMsg ch) (msgPool w) = (pooled, mp)" "msgPool w' = mp"
    and ex: "exits (env_opentracing env)
      ((Clone req pooled)\<lparr>mheader := SetMessageType Response (mheader (Clone req pooled))\<rparr>) e res"
    using handleRequest_exits [OF assms(1)] by blast
  have "clean pooled" "pool_ok mp" using GetPooledMsg_ok [OF assms(3) get(1)] by auto
  moreover have "mdata res = mdata pooled" using ex by (simp add: exits_def Clone_def)
  moreover have "hdr_wf (mheader res) \<and> CheckMagicNumber (mheader res) = CheckMagicNumber (mheader req)"
    using handleRequest_response [OF assms(1)] assms(2) by (simp add: response_to_def poolable_def)
  ultimately show ?thesis using assms(2) get(2) by (simp add: poolable_def clean_def)
qed

lemma handleTrueRequest_ok:
  assumes h: "handleTrueRequest env comps server ch c req w = Some (data, w')"
    and req: "poolable req" and w: "pool_ok (msgPool w)"
  shows "pool_ok (msgPool w') \<and> (\<forall>d. data = Some d \<longrightarrow> response_frame comps (Seq (mheader req)) d)"
proof (cases "extractClientMdContexFromMd c (case Metadata req of None \<Rightarrow> [] | Some md \<Rightarrow> md)")
  case (Inl e)
  then show ?thesis using h req w by (auto simp: handleTrueRequest_def pool_ok_FreeMsg)
next
  case (Inr c')
  obtain res e w1 where r: "handleRequest env server ch c' req w = Some ((res, e), w1)"
    using h Inr by (auto simp: handleTrueRequest_def split: option.splits)
  note ok = handleRequest_poolable [OF r req w]
  have hd: "hdr_wf (mheader req)" using req by (simp add: poolable_def)
  note resp = handleRequest_response [OF r hd, unfolded response_to_def]
  show ?thesis
  proof (cases e)
    case (Some err)
    then show ?thesis using h Inr r ok req by (auto simp: handleTrueRequest_def pool_ok_FreeMsg)
  next
    case None
    have "writeResponse comps res = Encode comps res" using ok by (simp add: writeResponse_Encode poolable_def)
    then have out: "data = Some (snd (Encode comps res))"
      "msgPool w' = FreeMsg (Some (fst (Encode comps res))) (FreeMsg (Some req) (msgPool w1))"
      using h Inr r None by (auto simp: handleTrueRequest_def Let_def split: prod.splits)
    have "response_frame comps (Seq (mheader req)) (snd (Encode comps res))"
      using resp ok by (auto simp: response_frame_def poolable_def)
    moreover have "pool_ok (msgPool w')"
      unfolding out(2) using ok req by (intro pool_ok_FreeMsg Encode_poolable) auto
    ultimately show ?thesis using out(1) by simp
  qed
qed

text \<open>A request that fails is not answered.\<close>

lemma handleTrueRequest_error:
  assumes "extractClientMdContexFromMd c (case Metadata req of None \<Rightarrow> [] | Some md \<Rightarrow> md) = Inr c'"
    and "rpc_spec env server c' req = Some (RpcError err)"
    and "pools_ok env (set (table_types (serviceMap server))) (argsReplyPools w)"
  shows "\<exists>w'. handleTrueRequest env comps server ch c req w = Some (None, w')"
proof -
  obtain res e w' where h: "handleRequest env server ch c' req w = Some ((res, e), w')"
    "result_of req (res, e) = RpcError err"
    using handleRequest_result [OF assms(3), of req ch c'] assms(2) by auto
  then have "e = Some err" by (auto simp: result_of_def split: option.splits)
  then show ?thesis using assms(1) h(1) by (simp add: handleTrueRequest_def)
qed

section \<open>The invariant of a connection\<close>

definition seqs :: "message list \<Rightarrow> u64 multiset" where
  "seqs ms = mset (map (\<lambda>m. Seq (mheader m)) ms)"

text \<open>
  Every frame written answers a message that arrived, and no message is answered twice or answered
  while its goroutine still runs.
\<close>

definition conn_inv :: "compressors \<Rightarrow> 'x conn_state \<Rightarrow> bool" where
  "conn_inv comps st \<longleftrightarrow> pool_ok (msgPool (cpools st)) \<and> (\<forall>m \<in> set (running st). poolable m) \<and>
     (\<exists>ns. list_all2 (response_frame comps) ns (written st) \<and>
       mset ns + seqs (running st) \<subseteq># seqs (arrived st))"

lemma conn_inv_start: "pool_ok (msgPool w) \<Longrightarrow> conn_inv comps (newEasyConn c w)"
  by (simp add: conn_inv_def newEasyConn_def seqs_def)

lemma heartbeat_frame:
  assumes "hdr_wf (mheader req)" "CheckMagicNumber (mheader req)"
  shows "response_frame comps (Seq (mheader req))
    (snd (Encode comps (req\<lparr>mheader := SetMessageType Response (mheader req)\<rparr>)))"
proof -
  have "MessageType (SetMessageType Response (mheader req)) = Response"
    using assms(1) by (simp only: MessageType_SetMessageType MessageType_or_Response)
  then show ?thesis unfolding response_frame_def
    by (intro exI [of _ "req\<lparr>mheader := SetMessageType Response (mheader req)\<rparr>"])
      (use assms in \<open>simp add: hdr del: protocol_consts\<close>)
qed

lemma serve_round_inv:
  assumes inv: "conn_inv comps st"
  shows "conn_inv comps (serve_round comps maxlen ch st)"
proof -
  obtain req0 mp where get: "GetPooledMsg ch (msgPool (cpools st)) = (req0, mp)" by fastforce
  have ok: "clean req0" "pool_ok mp" using GetPooledMsg_ok [OF _ get] inv by (auto simp: conn_inv_def)
  have base: "conn_inv comps (st\<lparr>cpools := (cpools st)\<lparr>msgPool := mp\<rparr>\<rparr>)"
    using inv ok by (simp add: conn_inv_def)
  obtain dec where dec: "Decode bufio_readfull comps maxlen req0 (reader st) = dec" by blast
  show ?thesis
  proof (cases "\<exists>req r. dec = Some (req, None, r)")
    case False
    then show ?thesis using base dec
      by (auto simp: serve_round_def readRequest_def get conn_inv_def Let_def split: option.splits)
  next
    case True
    then obtain req r where d: "Decode bufio_readfull comps maxlen req0 (reader st) = Some (req, None, r)"
      using dec by blast
    have "poolable req"
      using bufio.Decode_ok [OF d] ok(1) by (intro sendable_poolable) (simp add: clean_def md_wf_def)
    then have h: "hdr_wf (mheader req)" "CheckMagicNumber (mheader req)" "poolable req"
      by (auto simp: poolable_def)
    let ?resp = "req\<lparr>mheader := SetMessageType Response (mheader req)\<rparr>"
    obtain ns where ns: "list_all2 (response_frame comps) ns (written st)"
      "mset ns + seqs (running st) \<subseteq># seqs (arrived st)"
      using inv by (auto simp: conn_inv_def)
    show ?thesis
    proof (cases "IsHeartbeat (mheader req)")
      case True
      have "poolable ?resp" using h by (simp add: poolable_def hdr)
      moreover have "writeResponse comps ?resp = Encode comps ?resp"
        using h(1) by (simp add: writeResponse_Encode)
      moreover have "list_all2 (response_frame comps) (ns @ [Seq (mheader req)])
          (written st @ [snd (Encode comps ?resp)])"
        using ns(1) heartbeat_frame [OF h(1,2)] by (simp add: list_all2_appendI)
      moreover have "mset (ns @ [Seq (mheader req)]) + seqs (running st) \<subseteq># seqs (arrived st @ [req])"
        using ns(2) by (simp add: seqs_def)
      ultimately show ?thesis using True d inv ok(2)
        by (simp add: serve_round_def readRequest_def get conn_inv_def Let_def case_prod_beta
            pool_ok_FreeMsg Encode_poolable del: mset_append protocol_consts) blast
    next
      case False
      moreover have "mset ns + seqs (running st @ [req]) \<subseteq># seqs (arrived st @ [req])"
        using ns(2) by (simp add: seqs_def)
      ultimately show ?thesis using d inv ok(2) ns(1) h(3)
        by (auto simp: serve_round_def readRequest_def get conn_inv_def Let_def)
    qed
  qed
qed

lemma seqs_remove:
  "i < length ms \<Longrightarrow> seqs ms = add_mset (Seq (mheader (ms ! i))) (seqs (take i ms @ drop (Suc i) ms))"
  by (subst id_take_nth_drop [of i ms]) (simp_all add: seqs_def)

lemma finish_inv:
  assumes inv: "conn_inv comps st" and i: "i < length (running st)"
  shows "conn_inv comps (finish env comps server ch i st)"
proof (cases "handleTrueRequest env comps server ch Background (running st ! i) (cpools st)")
  case None
  then show ?thesis using inv by (simp add: finish_def conn_inv_def)
next
  case (Some res)
  obtain data w where res: "res = (data, w)" by (cases res)
  have req: "poolable (running st ! i)" and w: "pool_ok (msgPool (cpools st))"
    using inv i by (auto simp: conn_inv_def)
  note ok = handleTrueRequest_ok [OF Some [unfolded res] req w]
  obtain ns where ns: "list_all2 (response_frame comps) ns (written st)"
    "mset ns + seqs (running st) \<subseteq># seqs (arrived st)"
    using inv by (auto simp: conn_inv_def)
  let ?n = "Seq (mheader (running st ! i))" and ?rest = "take i (running st) @ drop (Suc i) (running st)"
  have sub: "mset ns + {#?n#} + seqs ?rest \<subseteq># seqs (arrived st)"
    using ns(2) unfolding seqs_remove [OF i] by simp
  have pool: "\<forall>m \<in> set ?rest. poolable m"
    using inv by (auto simp: conn_inv_def dest: in_set_takeD in_set_dropD)
  show ?thesis
  proof (cases "\<exists>d. data = Some d \<and> \<not> shut st")
    case True
    then obtain d where d: "data = Some d" "\<not> shut st" by blast
    have "list_all2 (response_frame comps) (ns @ [?n]) (written st @ [d])"
      using ns(1) ok d by (simp add: list_all2_appendI)
    moreover have "mset (ns @ [?n]) + seqs ?rest \<subseteq># seqs (arrived st)" using sub by simp
    ultimately show ?thesis using Some res d ok pool
      by (simp add: finish_def conn_inv_def ball_Un del: mset_append) blast
  next
    case False
    have "mset ns + seqs ?rest \<subseteq># seqs (arrived st)"
      using sub by (meson mset_subset_eq_add_left mset_subset_eq_mono_add subset_mset.order_refl subset_mset.order_trans)
    then show ?thesis using Some res False ok pool ns(1)
      by (auto simp: finish_def conn_inv_def split: option.splits)
  qed
qed

lemma conn_step_inv: "conn_step env comps maxlen server st st' \<Longrightarrow> conn_inv comps st \<Longrightarrow> conn_inv comps st'"
  by (auto elim!: conn_stepE simp: serve_round_inv finish_inv)

lemma conn_reach_inv: "conn_reach env comps maxlen server st st' \<Longrightarrow> conn_inv comps st \<Longrightarrow> conn_inv comps st'"
  by (induction rule: conn_reach.induct) (auto intro: conn_step_inv)

section \<open>The loop ends\<close>

text \<open>A round that leaves the connection open has taken at least sixteen bytes from the stream.\<close>

lemma serve_round_progress:
  assumes "pool_ok (msgPool (cpools st))" "\<not> shut (serve_round comps maxlen ch st)" "\<not> shut st"
  shows "16 + length (bufio_rest (reader (serve_round comps maxlen ch st))) \<le> length (bufio_rest (reader st))"
proof -
  obtain req0 mp where get: "GetPooledMsg ch (msgPool (cpools st)) = (req0, mp)" by fastforce
  have ok: "clean req0" using GetPooledMsg_ok [OF assms(1) get] by simp
  obtain req r where d: "Decode bufio_readfull comps maxlen req0 (reader st) = Some (req, None, r)"
    using assms(2,3) by (auto simp: serve_round_def readRequest_def get Let_def split: option.splits prod.splits)
  have "16 + length (bufio_rest r) \<le> length (bufio_rest (reader st))"
    using bufio.Decode_ok [OF d] ok by (simp add: clean_def md_wf_def)
  moreover have "reader (serve_round comps maxlen ch st) = r"
    using d by (simp add: serve_round_def readRequest_def get Let_def case_prod_beta)
  ultimately show ?thesis by simp
qed

text \<open>The rounds of the loop of \<^verbatim>\<open>serveConn\<close>, with the pool's choices.\<close>

fun serve_rounds :: "compressors \<Rightarrow> int \<Rightarrow> nat option list \<Rightarrow> 'x conn_state \<Rightarrow> 'x conn_state" where
  "serve_rounds comps maxlen [] st = st"
| "serve_rounds comps maxlen (ch # chs) st =
     (if shut st then st else serve_rounds comps maxlen chs (serve_round comps maxlen ch st))"

lemma serve_rounds_bound:
  "conn_inv comps st \<Longrightarrow> \<not> shut st \<Longrightarrow> length (bufio_rest (reader st)) < 16 * length chs \<Longrightarrow>
   shut (serve_rounds comps maxlen chs st)"
proof (induction chs arbitrary: st)
  case (Cons ch chs)
  show ?case
  proof (cases "shut (serve_round comps maxlen ch st)")
    case True
    then show ?thesis using Cons.prems(2) by (cases chs) simp_all
  next
    case False
    then show ?thesis
      using Cons.IH [OF serve_round_inv [OF Cons.prems(1), of maxlen ch] False] Cons.prems
        serve_round_progress [OF _ False] by (auto simp: conn_inv_def)
  qed
qed simp

section \<open>Properties\<close>

text \<open>C6. On a connection, under every interleaving of the reading loop and the handlers, each frame the server
  writes is a response message to a message that arrived: the sequence numbers answered, together with
  those still being handled, are among those that arrived, each at most as often as it arrived.\<close>

theorem responses_match_requests:
  assumes "conn_reach env comps maxlen server (newEasyConn c w) st" "pool_ok (msgPool w)"
  shows "\<exists>ns. list_all2 (response_frame comps) ns (written st) \<and>
    mset ns + seqs (running st) \<subseteq># seqs (arrived st)"
  using conn_reach_inv [OF assms(1) conn_inv_start [OF assms(2)]] by (auto simp: conn_inv_def)

theorem responses_match_requests_witness:
  "\<exists>ns. list_all2 (response_frame Map.empty) ns
      (written (serve_round Map.empty 0 None (newEasyConn \<lparr>pieces = [[8, 0]], cend = EOF\<rparr> demo_pools))) \<and>
    mset ns + seqs [] \<subseteq># seqs []"
proof -
  let ?st = "newEasyConn \<lparr>pieces = [[8, 0]], cend = EOF\<rparr> demo_pools"
  have "conn_step demo_env Map.empty 0 demo_server ?st (serve_round Map.empty 0 None ?st)"
    by (rule conn_step.read) (simp_all add: newEasyConn_def)
  then have r: "conn_reach demo_env Map.empty 0 demo_server ?st (serve_round Map.empty 0 None ?st)"
    using conn_reach.init conn_reach.step by metis
  have "pool_ok (msgPool demo_pools)" by (simp add: demo_pools_def pool_ok_def)
  moreover have "running (serve_round Map.empty 0 None ?st) = [] \<and> arrived (serve_round Map.empty 0 None ?st) = []"
    by code_simp
  ultimately show ?thesis using responses_match_requests [OF r] by simp
qed

text \<open>C11. The loop of \<open>serveConn\<close> ends: on a stream of \<open>n\<close> bytes the connection is closed after at most
  \<open>n div 16 + 1\<close> rounds, whatever the bytes are and whatever messages the pool hands out.\<close>

theorem serveConn_terminates:
  assumes "pool_ok (msgPool w)" "length (concat (pieces c)) < 16 * length chs"
  shows "shut (serve_rounds comps maxlen chs (newEasyConn c w))"
  by (rule serve_rounds_bound [OF conn_inv_start [OF assms(1)]])
    (use assms(2) in \<open>simp_all add: newEasyConn_def NewReaderSize_def bufio_rest_def\<close>)

theorem serveConn_terminates_witness:
  "shut (serve_rounds Map.empty 0 [None] (newEasyConn \<lparr>pieces = [[8, 0], [7]], cend = EOF\<rparr> demo_pools))"
  by (rule serveConn_terminates) (simp_all add: demo_pools_def pool_ok_def)

text \<open>The bytes of a peer cannot crash the server through the reading loop: a round never ends the process,
  also where \<open>Decode\<close> panics; it closes the connection instead.\<close>

theorem reading_never_crashes:
  "crashed (serve_round comps maxlen ch st) = crashed st \<and>
   (readRequest comps maxlen ch (msgPool (cpools st)) (reader st) = (None, mp) \<longrightarrow>
      shut (serve_round comps maxlen ch st))"
  by (auto simp: serve_round_def Let_def split: prod.splits option.splits)

theorem reading_never_crashes_witness:
  "shut (serve_round Map.empty 0 None
     (newEasyConn \<lparr>pieces = [new_header @ [0, 0, 0, 0]], cend = EOF\<rparr> demo_pools))"
proof -
  let ?st = "newEasyConn \<lparr>pieces = [new_header @ [0, 0, 0, 0]], cend = EOF\<rparr> demo_pools"
  have "readRequest Map.empty 0 None (msgPool (cpools ?st)) (reader ?st) = (None, [])" by code_simp
  then show ?thesis using reading_never_crashes [of Map.empty 0 None ?st "[]"] by simp
qed

text \<open>A request that fails is never answered: when the outcome of a request is an error (no such service or
  method, no codec, a payload that does not decode, an error or panic of the method), its goroutine ends
  without writing, and the error response that was built is dropped.\<close>

theorem failed_request_unanswered:
  assumes "i < length (running st)"
    and "extractClientMdContexFromMd Background
      (case Metadata (running st ! i) of None \<Rightarrow> [] | Some md \<Rightarrow> md) = Inr c"
    and "rpc_spec env server c (running st ! i) = Some (RpcError err)"
    and "pools_ok env (set (table_types (serviceMap server))) (argsReplyPools (cpools st))"
  shows "written (finish env comps server ch i st) = written st \<and>
    running (finish env comps server ch i st) = take i (running st) @ drop (Suc i) (running st) \<and>
    crashed (finish env comps server ch i st) = crashed st"
proof -
  obtain w' where "handleTrueRequest env comps server ch Background (running st ! i) (cpools st) = Some (None, w')"
    using handleTrueRequest_error [OF assms(2,3,4)] by blast
  then show ?thesis by (simp add: finish_def)
qed

theorem failed_request_unanswered_witness:
  "written (finish demo_env Map.empty empty_server demo_choices 0
     ((newEasyConn \<lparr>pieces = [], cend = EOF\<rparr> demo_pools)\<lparr>running := [demo_request [6, 7]]\<rparr>)) = []"
proof -
  let ?st = "(newEasyConn \<lparr>pieces = [], cend = EOF\<rparr> demo_pools)\<lparr>running := [demo_request [6, 7]]\<rparr>"
  have "extractClientMdContexFromMd Background
      (case Metadata (running ?st ! 0) of None \<Rightarrow> [] | Some md \<Rightarrow> md) = Inr Background"
    by (simp add: demo_request_fields extractClientMdContexFromMd_def extract_init_def Let_def)
  moreover have "rpc_spec demo_env empty_server Background (running ?st ! 0) =
      Some (RpcError (cannot_find ''service'' ''arith''))"
    by (simp add: rpc_spec_def empty_server_def demo_request_fields)
  moreover have "pools_ok demo_env (set (table_types (serviceMap empty_server))) (argsReplyPools (cpools ?st))"
    by (simp add: pools_ok_def demo_env_def)
  ultimately show ?thesis
    using failed_request_unanswered [of 0 ?st Background demo_env empty_server _ Map.empty demo_choices]
    by (simp add: newEasyConn_def)
qed

end
