(* ===== verification/EndToEnd.thy ===== *)
theory EndToEnd
  imports ClientProps EasyConn
begin

text \<open>
  A whole remote call: the client's request crosses the wire, the server decodes it, dispatches it to the
  registered method, encodes the reply, and the client delivers it to the caller. The parts are those of
  the other theories; here they are put together.
\<close>

section \<open>The request arrives\<close>

lemma encode_header_fields:
  assumes "hdr_wf (mheader m)"
  shows "Seq (mheader (fst (Encode comps m))) = Seq (mheader m)"
    "SerializeType (mheader (fst (Encode comps m))) = SerializeType (mheader m)"
    "IsHeartbeat (mheader (fst (Encode comps m))) = IsHeartbeat (mheader m)"
    "IsOneway (mheader (fst (Encode comps m))) = IsOneway (mheader m)"
    "MessageStatusType (mheader (fst (Encode comps m))) = MessageStatusType (mheader m)"
  using assms
  by (cases "zips comps m"; simp add: Encode_message encode_payload_zips encode_payload_not_zips
      SetCompressType_others)+

lemma new_header_fields:
  "\<not> IsOneway new_header" "MessageStatusType new_header = Normal" "CheckMagicNumber new_header" "hdr_wf new_header"
  by code_simp+

definition sent_md :: "'x Call \<Rightarrow> smap option" where
  "sent_md call = (let md = extractMdFromClientCtx (cCtx call) in if md = [] then None else Some md)"

lemma request_of_clean:
  assumes "clean pooled" "cSerializeType call AND mask 4 = cSerializeType call"
    and "smap_wf (extractMdFromClientCtx (cCtx call))"
  shows "sendable (request_of pooled call sq data)" "Metadata (request_of pooled call sq data) = sent_md call"
    "Payload (request_of pooled call sq data) = data"
    "ServicePath (request_of pooled call sq data) = cServicePath call"
    "ServiceMethod (request_of pooled call sq data) = cServiceMethod call"
    "mheader (request_of pooled call sq data) = request_header new_header call sq"
  using assms request_header_fields [OF new_header_fields(4) assms(2), of sq] new_header_fields
  by (auto simp: sendable_def msg_wf_def clean_def request_of_def sent_md_def Let_def)

lemma request_arrives:
  assumes p: "clean pooled" "cSerializeType call AND mask 4 = cSerializeType call"
      "smap_wf (extractMdFromClientCtx (cCtx call))"
    and t: "clean t" and comps: "compressors_ok comps"
    and ok: "acceptable maxlen (body_size comps (request_of pooled call sq data))"
    and r: "bufio_rest r = snd (Encode comps (request_of pooled call sq data)) @ tail"
  shows "\<exists>req r'. Decode bufio_readfull comps maxlen t r = Some (req, None, r') \<and> bufio_rest r' = tail \<and>
    hdr_wf (mheader req) \<and> ServicePath req = cServicePath call \<and> ServiceMethod req = cServiceMethod call \<and>
    Payload req = data \<and> Seq (mheader req) = sq \<and> SerializeType (mheader req) = cSerializeType call \<and>
    IsHeartbeat (mheader req) = cHeartBeat call \<and> \<not> IsOneway (mheader req) \<and>
    MessageStatusType (mheader req) = Normal \<and> CheckMagicNumber (mheader req) \<and> Metadata req = sent_md call \<and>
    mheader req = mheader (fst (Encode comps (request_of pooled call sq data)))"
proof -
  let ?m = "request_of pooled call sq data"
  note m = request_of_clean [OF p, of sq data]
  have rt: "receiver t" using t by (rule clean_receiver)
  obtain req r' where d: "Decode bufio_readfull comps maxlen t r = Some (req, None, r')" "received comps ?m t req"
    "receiver req" "bufio_rest r' = tail"
    using bufio.Decode_Encode [OF m(1) rt comps ok r] by blast
  have h: "hdr_wf (mheader ?m)" using m(1) by (rule sendableD)
  note f = request_header_fields [OF new_header_fields(4) p(2), of sq]
  have hdr: "mheader req = mheader (fst (Encode comps ?m))" using d(2) by (simp add: received_def)
  have "Metadata req = sent_md call"
    using d(2) m(2) t by (auto simp: received_def decoded_metadata_def clean_def sent_md_def Let_def)
  moreover have "CheckMagicNumber (mheader req)"
    using encode_payload_header [OF m(1), of comps] by (simp add: hdr Encode_message)
  ultimately show ?thesis
    using d encode_header_fields [OF h, of comps] f new_header_fields(1,2) m
    by (auto simp: hdr received_def receiver_def)
qed

text \<open>A message that is not compressed goes out as it is.\<close>

lemma plain_body_size:
  "CompressType (mheader m) = NoCompress \<Longrightarrow>
   body_size comps m = 16 + length (ServicePath m) + length (ServiceMethod m) + length (encodeMetadata (Metadata m)) + length (Payload m)"
  by (simp add: body_size_def encode_payload_def)

lemma plain_header: "CompressType (mheader m) = NoCompress \<Longrightarrow> mheader (fst (Encode comps m)) = mheader m"
  by (simp add: Encode_message encode_payload_def)

section \<open>The server answers\<close>

lemma handleRequest_success:
  assumes "map_of (serviceMap server) (ServicePath req) = Some svc" "map_of (svcMethod svc) (ServiceMethod req) = Some mt"
    and "env_codecs env (SerializeType (mheader req)) = Some codec" "\<not> env_UsePool env"
    and "codec_Decode (env_libs env) codec (Payload req) (typePools_New (env_New env) (ArgType mt)) = Some (None, argv)"
    and "run_method env mt c argv (typePools_New (env_New env) (ReplyType mt)) = (None, r)"
    and "\<not> IsOneway (mheader req)" "codec_Encode (env_libs env) codec (hReply r) = Some (data, None)"
    and "GetPooledMsg (chMsg ch) (msgPool w) = (pooled, mp)"
  shows "handleRequest env server ch c req w =
    Some (((fold (\<lambda>md res. SendMetaData res md) (hSent r)
        ((Clone req pooled)\<lparr>mheader := SetMessageType Response (mheader (Clone req pooled))\<rparr>))\<lparr>Payload := data\<rparr>, None),
      w\<lparr>msgPool := mp\<rparr>)"
  using assms by (simp add: handleRequest_def handleRequest_in_def invoke_def answer_def Let_def)

lemma fold_SendMetaData:
  "fold (\<lambda>md res. SendMetaData res md) mds res = (if mds = [] then res else res\<lparr>Metadata := last mds\<rparr>)"
  by (induction mds arbitrary: res) (auto simp: SendMetaData_def)

text \<open>The last metadata a handler sent.\<close>

definition sent_back :: "'x handler_result \<Rightarrow> smap option" where
  "sent_back r = (if hSent r = [] then None else last (hSent r))"

definition reply_message :: "message \<Rightarrow> message \<Rightarrow> 'x handler_result \<Rightarrow> bytes \<Rightarrow> message" where
  "reply_message req pooled r data =
     (Clone req pooled)\<lparr>mheader := SetMessageType Response (mheader (Clone req pooled)),
        Metadata := sent_back r, Payload := data\<rparr>"

lemma reply_message_fold:
  "Metadata pooled = None \<Longrightarrow>
   (fold (\<lambda>md res. SendMetaData res md) (hSent r)
      ((Clone req pooled)\<lparr>mheader := SetMessageType Response (mheader (Clone req pooled))\<rparr>))\<lparr>Payload := data\<rparr> =
   reply_message req pooled r data"
  by (simp add: fold_SendMetaData reply_message_def sent_back_def Clone_def)

lemma reply_message_fields:
  assumes "clean pooled" "hdr_wf (mheader req)" "CheckMagicNumber (mheader req)" "md_wf (sent_back r)"
  shows "sendable (reply_message req pooled r data)"
    "Seq (mheader (reply_message req pooled r data)) = Seq (mheader req)"
    "SerializeType (mheader (reply_message req pooled r data)) = SerializeType (mheader req)"
    "IsHeartbeat (mheader (reply_message req pooled r data)) = IsHeartbeat (mheader req)"
    "MessageStatusType (mheader (reply_message req pooled r data)) = MessageStatusType (mheader req)"
    "CompressType (mheader (reply_message req pooled r data)) = NoCompress"
  using assms by (auto simp: reply_message_def Clone_def sendable_def msg_wf_def md_wf_def clean_def hdr
      status_constants simp del: protocol_consts)

lemma reply_body_size:
  "CompressType (mheader (reply_message req pooled r data)) = NoCompress \<Longrightarrow>
   body_size comps (reply_message req pooled r data) =
     16 + length (ServicePath req) + length (ServiceMethod req) + length (encodeMetadata (sent_back r)) + length data"
  by (simp add: plain_body_size) (simp add: reply_message_def Clone_def)

section \<open>The channel of a call\<close>

lemma apply_option_fields:
  "cDone (fst (apply_option opt cv)) = cDone (fst cv)" "cError (fst (apply_option opt cv)) = cError (fst cv)"
  "cReply (fst (apply_option opt cv)) = cReply (fst cv)"
  by (cases cv; cases opt; simp add: apply_option_def)+

lemma apply_option_keeps: "cDone (fst (fold apply_option opts cv)) = cDone (fst cv)"
  by (induction opts arbitrary: cv) (simp_all add: apply_option_fields)

lemma add_option_keeps:
  "cError (fst (fold add_option opts cv)) = cError (fst cv) \<and> cReply (fst (fold add_option opts cv)) = cReply (fst cv)"
proof (induction opts arbitrary: cv)
  case (Cons opt opts)
  have "cError (fst (add_option opt cv)) = cError (fst cv)" "cReply (fst (add_option opt cv)) = cReply (fst cv)"
    by (cases cv; simp add: add_option_def apply_option_fields)+
  with Cons show ?case by simp
qed simp

text \<open>Whatever becomes of a response, its call is put into its channel, if there is room.\<close>

definition queue_signal :: "nat \<Rightarrow> nat \<Rightarrow> (nat \<times> nat list) list \<Rightarrow> (nat \<times> nat list) list" where
  "queue_signal i d chs = (case chs ! d of (capacity, queue) \<Rightarrow>
     if length queue < capacity then chs[d := (capacity, queue @ [i])] else chs)"

lemma call_done_chans: "chans (call_done i client) = queue_signal i (cDone (calls client ! i)) (chans client)"
  by (simp add: call_done_def queue_signal_def Let_def split: prod.splits)

lemma deliver_chans:
  assumes "deliver env m i client = Some client'" "i < length (calls client)"
  shows "chans client' = queue_signal i (cDone (calls client ! i)) (chans client)"
proof -
  have f: "chans (fail_call e i c) = queue_signal i (cDone (calls c ! i)) (chans c)" if "i < length (calls c)" for e and c :: "'a RPCClient"
    using that by (simp add: fail_call_def call_done_chans)
  have o: "cDone call' = cDone call" if "fold apply_option opts (call, vs) = (call', vs')" for opts vs vs' and call call' :: "'a Call"
    using apply_option_keeps [of opts "(call, vs)"] that by simp
  show ?thesis
    using assms by (auto simp: deliver_def Let_def f call_done_chans dest!: o split: option.splits prod.splits if_splits)
qed

lemma handle_response_chans:
  assumes "handle_response env m client = Some client'" "map_of (pending client) (Seq (mheader m)) = Some i"
    and "\<not> IsHeartbeat (mheader m)" "i < length (calls client)"
  shows "chans client' = queue_signal i (cDone (calls client ! i)) (chans client)"
  using assms by (auto simp: handle_response_def Let_def dest: deliver_chans)

text \<open>A response leaves the rest of the client alone.\<close>

lemma handle_response_keeps:
  assumes "handle_response cenv m client = Some client'"
  shows "resp client' = m" "cstream client' = cstream client" "length (calls client') = length (calls client)"
    "status client' = status client" "servicePath client' = servicePath client"
proof -
  have d: "resp (call_done i c) = resp c" "cstream (call_done i c) = cstream c" "status (call_done i c) = status c"
    "servicePath (call_done i c) = servicePath c" for i and c :: "'a RPCClient"
    by (simp_all add: call_done_def Let_def split: prod.splits)
  have f: "resp (fail_call e i c) = resp c" "cstream (fail_call e i c) = cstream c" "status (fail_call e i c) = status c"
    "servicePath (fail_call e i c) = servicePath c" for e i and c :: "'a RPCClient"
    by (simp_all add: fail_call_def d)
  have "resp c' = resp c \<and> cstream c' = cstream c \<and> length (calls c') = length (calls c) \<and> status c' = status c \<and>
      servicePath c' = servicePath c" if "deliver cenv m i c = Some c'" for i c c'
    using that by (auto simp: deliver_def Let_def d f split: option.splits prod.splits)
  with assms show "resp client' = m" "cstream client' = cstream client" "length (calls client') = length (calls client)"
    "status client' = status client" "servicePath client' = servicePath client"
    by (auto simp: handle_response_def Let_def d split: if_splits option.splits)
qed

section \<open>The whole call\<close>

text \<open>A server that offers the method, and what it replies.\<close>

definition offers ::
  "'x server_env \<Rightarrow> 'x server \<Rightarrow> byte \<Rightarrow> string \<Rightarrow> string \<Rightarrow> ctx \<Rightarrow> bytes \<Rightarrow> 'x handler_result \<Rightarrow> bytes \<Rightarrow> bool" where
  "offers env server st sp sm c data r rdata \<longleftrightarrow>
     (\<exists>svc mt codec argv. map_of (serviceMap server) sp = Some svc \<and> map_of (svcMethod svc) sm = Some mt \<and>
        env_codecs env st = Some codec \<and>
        codec_Decode (env_libs env) codec data (typePools_New (env_New env) (ArgType mt)) = Some (None, argv) \<and>
        run_method env mt c argv (typePools_New (env_New env) (ReplyType mt)) = (None, r) \<and>
        codec_Encode (env_libs env) codec (hReply r) = Some (rdata, None))"

lemma server_answers:
  assumes req: "hdr_wf (mheader req)" "\<not> IsOneway (mheader req)" "CheckMagicNumber (mheader req)"
    and off: "offers env server (SerializeType (mheader req)) (ServicePath req) (ServiceMethod req) c (Payload req) r rdata"
    and ctx: "extractClientMdContexFromMd Background (case Metadata req of None \<Rightarrow> [] | Some md \<Rightarrow> md) = Inr c"
    and w: "\<not> env_UsePool env" "pool_ok (msgPool w)" and md: "md_wf (sent_back r)"
  shows "\<exists>pooled w'. clean pooled \<and> handleTrueRequest env comps server ch Background req w =
    Some (Some (snd (Encode comps (reply_message req pooled r rdata))), w')"
proof -
  obtain pooled mp where get: "GetPooledMsg (chMsg ch) (msgPool w) = (pooled, mp)" by fastforce
  have cl: "clean pooled" using GetPooledMsg_ok [OF w(2) get] by simp
  obtain svc mt codec argv where o: "map_of (serviceMap server) (ServicePath req) = Some svc"
    "map_of (svcMethod svc) (ServiceMethod req) = Some mt" "env_codecs env (SerializeType (mheader req)) = Some codec"
    "codec_Decode (env_libs env) codec (Payload req) (typePools_New (env_New env) (ArgType mt)) = Some (None, argv)"
    "run_method env mt c argv (typePools_New (env_New env) (ReplyType mt)) = (None, r)"
    "codec_Encode (env_libs env) codec (hReply r) = Some (rdata, None)"
    using off by (auto simp: offers_def)
  have "handleRequest env server ch c req w = Some ((reply_message req pooled r rdata, None), w\<lparr>msgPool := mp\<rparr>)"
    using handleRequest_success [OF o(1-3) w(1) o(4,5) req(2) o(6) get] reply_message_fold [where pooled = pooled and r = r and req = req and data = rdata] cl
    by (simp add: clean_def)
  moreover have "writeResponse comps (reply_message req pooled r rdata) = Encode comps (reply_message req pooled r rdata)"
    using reply_message_fields(1) [OF cl req(1,3) md] by (intro writeResponse_Encode) (rule sendableD)
  ultimately show ?thesis using cl ctx
    by (auto simp: handleTrueRequest_def Let_def split: prod.splits)
qed

text \<open>The client's side of the exchange.\<close>

lemma client_sends:
  assumes i: "i < length (calls client)" and h: "hdr_wf (mheader pooled)"
    and st: "cSerializeType (calls client ! i) AND mask 4 = cSerializeType (calls client ! i)"
      "cSerializeType (calls client ! i) \<noteq> SerializeNone"
    and codec: "ce_codecs env (cSerializeType (calls client ! i)) = Some codec"
      "codec_Encode (ce_libs env) codec (cArgs (calls client ! i)) = Some (data, None)"
  shows "send_transmit env pooled None i sq client = Some (client\<lparr>insend := remove1 (i, sq) (insend client),
    calls := (calls client)[i := (calls client ! i)\<lparr>cSeq := sq\<rparr>],
    outbox := outbox client @ [snd (Encode (ce_comps env) (request_of pooled (calls client ! i) sq data))]\<rparr>)"
  using createRequest_ok [OF h st codec, of sq] by (simp add: send_transmit_def Let_def)

lemma client_reads:
  assumes m: "sendable m" and t: "receiver t" and comps: "compressors_ok (ce_comps env)"
    and ok: "acceptable (ce_maxlen env) (body_size (ce_comps env) m)"
    and c: "concat (pieces c) = snd (Encode (ce_comps env) m)"
  shows "\<exists>m' c'. readResponse env t c = Some (m', None, c') \<and> received (ce_comps env) m t m' \<and> receiver m'"
proof -
  have "bufio_rest (NewReaderSize c 1024) = snd (Encode (ce_comps env) m) @ []"
    using c by (simp add: bufio_rest_def NewReaderSize_def)
  from bufio.Decode_Encode [OF m t comps ok this] show ?thesis
    by (auto simp: readResponse_def)
qed

text \<open>The server's side: one round of the reading loop starts the handler, which writes the reply.\<close>

lemma server_round:
  assumes get: "GetPooledMsg ch (msgPool w) = (t, mp)"
    and dec: "Decode bufio_readfull comps maxlen t (NewReaderSize c 1024) = Some (req, None, r)"
    and hb: "\<not> IsHeartbeat (mheader req)"
  shows "running (serve_round comps maxlen ch (newEasyConn c w)) = [req] \<and>
    written (serve_round comps maxlen ch (newEasyConn c w)) = [] \<and>
    \<not> shut (serve_round comps maxlen ch (newEasyConn c w)) \<and>
    cpools (serve_round comps maxlen ch (newEasyConn c w)) = w\<lparr>msgPool := mp\<rparr>"
  using assms by (simp add: serve_round_def readRequest_def newEasyConn_def Let_def)

text \<open>
  The exchange: the client transmits call \<open>i\<close>, the server's connection reads it and runs its handler,
  and the client reads and handles the response. \<open>up\<close> and \<open>down\<close> cut the bytes written into the pieces
  in which the network delivers them; \<open>sent\<close> is what the client had written before.
\<close>

definition served_response ::
  "'x client_env \<Rightarrow> 'x server_env \<Rightarrow> 'x server \<Rightarrow> compressors \<Rightarrow> int \<Rightarrow> nat option \<Rightarrow> choices
     \<Rightarrow> (bytes \<Rightarrow> conn) \<Rightarrow> (bytes \<Rightarrow> conn) \<Rightarrow> 'x pools \<Rightarrow> nat \<Rightarrow> 'x RPCClient \<Rightarrow> 'x RPCClient option" where
  "served_response cenv senv server comps maxlen ch1 ch2 up down w sent client =
    (case drop sent (outbox client) of
       [wire] \<Rightarrow>
         (let st = finish senv comps server ch2 0 (serve_round comps maxlen ch1 (newEasyConn (up wire) w)) in
          case written st of
            [bs] \<Rightarrow>
              (case readResponse cenv (resp client) (down bs) of
                 Some (m, None, c) \<Rightarrow> handle_response cenv m client
               | _ \<Rightarrow> None)
          | _ \<Rightarrow> None)
     | _ \<Rightarrow> None)"

definition remote_call ::
  "'x client_env \<Rightarrow> 'x server_env \<Rightarrow> 'x server \<Rightarrow> compressors \<Rightarrow> int \<Rightarrow> message \<Rightarrow> nat option \<Rightarrow> choices
     \<Rightarrow> (bytes \<Rightarrow> conn) \<Rightarrow> (bytes \<Rightarrow> conn) \<Rightarrow> 'x pools \<Rightarrow> nat \<Rightarrow> u64 \<Rightarrow> 'x RPCClient \<Rightarrow> 'x RPCClient option" where
  "remote_call cenv senv server comps maxlen pooled ch1 ch2 up down w i sq client =
    (case send_transmit cenv pooled None i sq client of
       None \<Rightarrow> None
     | Some client1 \<Rightarrow> served_response cenv senv server comps maxlen ch1 ch2 up down w (length (outbox client)) client1)"

definition delivers :: "(bytes \<Rightarrow> conn) \<Rightarrow> bool" where
  "delivers net \<longleftrightarrow> (\<forall>bs. concat (pieces (net bs)) = bs)"

text \<open>What the client needs of a call that it has registered under a sequence number.\<close>

definition callable :: "'x client_env \<Rightarrow> 'x RPCClient \<Rightarrow> nat \<Rightarrow> u64 \<Rightarrow> 'x codec \<Rightarrow> bytes \<Rightarrow> bool" where
  "callable env client i sq codec data \<longleftrightarrow>
     (let call = calls client ! i in
      i < length (calls client) \<and> map_of (pending client) sq = Some i \<and> \<not> cHeartBeat call \<and>
      cSerializeType call AND mask 4 = cSerializeType call \<and> cSerializeType call \<noteq> SerializeNone \<and>
      ce_codecs env (cSerializeType call) = Some codec \<and>
      codec_Encode (ce_libs env) codec (cArgs call) = Some (data, None) \<and>
      smap_wf (extractMdFromClientCtx (cCtx call)))"

lemma round_answers:
  assumes get: "GetPooledMsg ch1 (msgPool w) = (t, mp)"
    and req: "Decode bufio_readfull comps maxlen t (NewReaderSize c 1024) = Some (req, None, rd)" "hdr_wf (mheader req)"
      "\<not> IsHeartbeat (mheader req)" "\<not> IsOneway (mheader req)" "CheckMagicNumber (mheader req)"
      "MessageStatusType (mheader req) = Normal"
    and off: "offers senv server (SerializeType (mheader req)) (ServicePath req) (ServiceMethod req) cx (Payload req) r rdata"
    and cx: "extractClientMdContexFromMd Background (case Metadata req of None \<Rightarrow> [] | Some md \<Rightarrow> md) = Inr cx"
    and w: "\<not> env_UsePool senv" "pool_ok (msgPool w)" and md: "md_wf (sent_back r)"
  shows "\<exists>reply. written (finish senv comps server ch2 0 (serve_round comps maxlen ch1 (newEasyConn c w))) =
      [snd (Encode comps reply)] \<and>
    sendable reply \<and> CompressType (mheader reply) = NoCompress \<and> Seq (mheader reply) = Seq (mheader req) \<and>
    SerializeType (mheader reply) = SerializeType (mheader req) \<and> \<not> IsHeartbeat (mheader reply) \<and>
    MessageStatusType (mheader reply) = Normal \<and> Metadata reply = sent_back r \<and> Payload reply = rdata \<and>
    ServicePath reply = ServicePath req \<and> ServiceMethod reply = ServiceMethod req"
proof -
  have mp: "pool_ok mp" using GetPooledMsg_ok [OF w(2) get] by simp
  note sr = server_round [OF get req(1,3)]
  obtain pd w' where ans: "clean pd" "handleTrueRequest senv comps server ch2 Background req (w\<lparr>msgPool := mp\<rparr>) =
      Some (Some (snd (Encode comps (reply_message req pd r rdata))), w')"
    using server_answers [OF req(2,4,5) off cx, of "w\<lparr>msgPool := mp\<rparr>" comps ch2] w(1) mp md by auto
  have "written (finish senv comps server ch2 0 (serve_round comps maxlen ch1 (newEasyConn c w))) =
      [snd (Encode comps (reply_message req pd r rdata))]"
    using sr ans(2) by (simp add: finish_def)
  then show ?thesis
    using reply_message_fields [OF ans(1) req(2,5) md] req
    by (intro exI [of _ "reply_message req pd r rdata"]) (simp add: reply_message_def Clone_def del: protocol_consts)
qed

lemma server_replies:
  assumes p: "clean pooled" "cSerializeType call AND mask 4 = cSerializeType call" "\<not> cHeartBeat call"
      "smap_wf (extractMdFromClientCtx (cCtx call))"
    and comps: "compressors_ok comps"
    and ok: "acceptable maxlen (body_size comps (request_of pooled call sq data))"
    and up: "concat (pieces c) = snd (Encode comps (request_of pooled call sq data))"
    and off: "offers senv server (cSerializeType call) (cServicePath call) (cServiceMethod call) cx data r rdata"
    and cx: "extractClientMdContexFromMd Background (case sent_md call of None \<Rightarrow> [] | Some md \<Rightarrow> md) = Inr cx"
    and w: "\<not> env_UsePool senv" "pool_ok (msgPool w)" and md: "md_wf (sent_back r)"
  shows "\<exists>reply. written (finish senv comps server ch2 0 (serve_round comps maxlen ch1 (newEasyConn c w))) =
      [snd (Encode comps reply)] \<and>
    sendable reply \<and> CompressType (mheader reply) = NoCompress \<and> Seq (mheader reply) = sq \<and>
    SerializeType (mheader reply) = cSerializeType call \<and> \<not> IsHeartbeat (mheader reply) \<and>
    MessageStatusType (mheader reply) = Normal \<and> Metadata reply = sent_back r \<and> Payload reply = rdata \<and>
    ServicePath reply = cServicePath call \<and> ServiceMethod reply = cServiceMethod call"
proof -
  obtain t mp where get: "GetPooledMsg ch1 (msgPool w) = (t, mp)" by fastforce
  then have t: "clean t" "pool_ok mp" using GetPooledMsg_ok [OF w(2)] by auto
  have "bufio_rest (NewReaderSize c 1024) = snd (Encode comps (request_of pooled call sq data)) @ []"
    using up by (simp add: bufio_rest_def NewReaderSize_def)
  from request_arrives [OF p(1,2,4) t(1) comps ok this]
  obtain req rd where req: "Decode bufio_readfull comps maxlen t (NewReaderSize c 1024) = Some (req, None, rd)"
    "hdr_wf (mheader req)" "ServicePath req = cServicePath call" "ServiceMethod req = cServiceMethod call"
    "Payload req = data" "Seq (mheader req) = sq" "SerializeType (mheader req) = cSerializeType call"
    "\<not> IsHeartbeat (mheader req)" "\<not> IsOneway (mheader req)" "MessageStatusType (mheader req) = Normal"
    "CheckMagicNumber (mheader req)" "Metadata req = sent_md call"
    using p(3) by auto
  show ?thesis
    using round_answers [OF get req(1,2,8,9,11,10) _ _ w md, of server cx rdata ch2] off cx
    by (simp add: req)
qed

text \<open>The exchange: a registered call crosses the wire in any pieces, the server runs the method it
  names with the context rebuilt from its metadata, and the reply crosses back; then the caller's reply is
  what the method computed, decoded, the call is signalled exactly once and leaves the table, no other call is
  touched, and metadata the method sent reach the variables the caller asked for.\<close>

lemma rpc_end_to_end:
  assumes call: "callable cenv client i sq codec data" "clean pooled" "receiver (resp client)"
    and comps: "compressors_ok (ce_comps cenv)"
    and sizes: "acceptable maxlen (body_size (ce_comps cenv) (request_of pooled (calls client ! i) sq data))"
      "acceptable (ce_maxlen cenv) (16 + length (cServicePath (calls client ! i)) +
         length (cServiceMethod (calls client ! i)) + length (encodeMetadata (sent_back r)) + length rdata)"
    and off: "offers senv server (cSerializeType (calls client ! i)) (cServicePath (calls client ! i))
      (cServiceMethod (calls client ! i)) cx data r rdata"
    and cx: "extractClientMdContexFromMd Background
      (case sent_md (calls client ! i) of None \<Rightarrow> [] | Some md \<Rightarrow> md) = Inr cx"
    and srv: "\<not> env_UsePool senv" "pool_ok (msgPool w)" "md_wf (sent_back r)"
    and net: "delivers up" "delivers down"
    and dec: "codec_Decode (ce_libs cenv) codec rdata (cReply (calls client ! i)) = Some (None, reply)"
  shows "\<exists>client'. remote_call cenv senv server (ce_comps cenv) maxlen pooled ch1 ch2 up down w i sq client = Some client' \<and>
    cReply (calls client' ! i) = reply \<and> cError (calls client' ! i) = cError (calls client ! i) \<and>
    (\<forall>j. j \<noteq> i \<longrightarrow> calls client' ! j = calls client ! j) \<and>
    dones client' = dones client @ [i] \<and> pending client' = AList.delete sq (pending client) \<and>
    (\<forall>v md. GetMetadata v \<in> set (cAfterCalls (calls client ! i)) \<longrightarrow> sent_back r = Some md \<longrightarrow> md \<noteq> [] \<longrightarrow>
       vars client' v = Some md) \<and>
    chans client' = queue_signal i (cDone (calls client ! i)) (chans client) \<and>
    status client' = status client \<and> servicePath client' = servicePath client \<and> receiver (resp client')"
proof -
  let ?call = "calls client ! i" and ?comps = "ce_comps cenv"
  have c: "i < length (calls client)" "map_of (pending client) sq = Some i" "\<not> cHeartBeat ?call"
    "cSerializeType ?call AND mask 4 = cSerializeType ?call" "cSerializeType ?call \<noteq> SerializeNone"
    "ce_codecs cenv (cSerializeType ?call) = Some codec" "smap_wf (extractMdFromClientCtx (cCtx ?call))"
    "codec_Encode (ce_libs cenv) codec (cArgs ?call) = Some (data, None)"
    using call(1) by (simp_all add: callable_def Let_def)
  let ?wire = "snd (Encode ?comps (request_of pooled ?call sq data))"
  have h: "hdr_wf (mheader pooled)" using call(2) by (simp add: clean_def new_header_fields)
  obtain client1 where send: "send_transmit cenv pooled None i sq client = Some client1"
    and c1: "outbox client1 = outbox client @ [?wire]" "resp client1 = resp client" "pending client1 = pending client"
      "dones client1 = dones client" "calls client1 = (calls client)[i := ?call\<lparr>cSeq := sq\<rparr>]" "chans client1 = chans client"
      "status client1 = status client" "servicePath client1 = servicePath client"
    using client_sends [OF c(1) h c(4,5,6,8), of sq] by simp
  have up: "concat (pieces (up ?wire)) = ?wire" using net(1) by (simp add: delivers_def)
  obtain m where ans: "written (finish senv ?comps server ch2 0 (serve_round ?comps maxlen ch1 (newEasyConn (up ?wire) w))) =
      [snd (Encode ?comps m)]"
    and m: "sendable m" "CompressType (mheader m) = NoCompress" "Seq (mheader m) = sq"
      "SerializeType (mheader m) = cSerializeType ?call" "\<not> IsHeartbeat (mheader m)"
      "MessageStatusType (mheader m) = Normal" "Metadata m = sent_back r" "Payload m = rdata"
      "ServicePath m = cServicePath ?call" "ServiceMethod m = cServiceMethod ?call"
    using server_replies [OF call(2) c(4,3,7) comps sizes(1) up off cx srv, of ch2 ch1] by blast
  have size: "acceptable (ce_maxlen cenv) (body_size ?comps m)"
    using sizes(2) m by (simp add: body_size_def encode_payload_def add.assoc)
  have "concat (pieces (down (snd (Encode ?comps m)))) = snd (Encode ?comps m)"
    using net(2) by (simp add: delivers_def)
  from client_reads [OF m(1) call(3) comps size this]
  obtain m' s where read: "readResponse cenv (resp client) (down (snd (Encode ?comps m))) = Some (m', None, s)"
    "received ?comps m (resp client) m'" "receiver m'" by blast
  have m': "Seq (mheader m') = sq" "SerializeType (mheader m') = cSerializeType ?call" "\<not> IsHeartbeat (mheader m')"
    "MessageStatusType (mheader m') = Normal" "Payload m' = rdata"
    "Metadata m' = decoded_metadata (sent_back r) (Metadata (resp client))"
    using read(2) encode_header_fields [of m ?comps] sendableD(1) [OF m(1)] m by (simp_all add: received_def)
  have dec1: "codec_Decode (ce_libs cenv) codec (Payload m') (cReply (calls client1 ! i)) = Some (None, reply)"
    using dec c(1) m' c1 by simp
  have "remote_call cenv senv server ?comps maxlen pooled ch1 ch2 up down w i sq client = handle_response cenv m' client1"
    using send c1 ans read(1) by (simp add: remote_call_def served_response_def)
  moreover obtain client' where client': "handle_response cenv m' client1 = Some client'"
    "cReply (calls client' ! i) = reply" "cError (calls client' ! i) = cError (calls client1 ! i)"
    "\<forall>j. j \<noteq> i \<longrightarrow> calls client' ! j = calls client1 ! j" "dones client' = dones client1 @ [i]"
    "pending client' = AList.delete (Seq (mheader m')) (pending client1)"
    "\<forall>v. GetMetadata v \<in> set (cAfterCalls (calls client1 ! i)) \<longrightarrow> Metadata m' \<noteq> None \<longrightarrow> vars client' v = Metadata m'"
    using handle_response_delivers [of client1 m' i cenv codec reply] m' c c1 dec1 by auto
  moreover have "chans client' = queue_signal i (cDone ?call) (chans client)"
    using handle_response_chans [OF client'(1), of i] m' c c1 by simp
  ultimately show ?thesis using m' c c1 read(3) handle_response_keeps [OF client'(1)] by (auto simp: decoded_metadata_def)
qed

section \<open>\<open>Call\<close> as its caller sees it\<close>

text \<open>\<open>Call\<close> from its beginning to its return, when the response comes before the context expires.\<close>

definition remote_Call ::
  "'x client_env \<Rightarrow> 'x server_env \<Rightarrow> 'x server \<Rightarrow> compressors \<Rightarrow> int \<Rightarrow> message \<Rightarrow> nat option \<Rightarrow> choices
     \<Rightarrow> (bytes \<Rightarrow> conn) \<Rightarrow> (bytes \<Rightarrow> conn) \<Rightarrow> 'x pools \<Rightarrow> int \<Rightarrow> ctx \<Rightarrow> string \<Rightarrow> 'x goval \<Rightarrow> 'x goval
     \<Rightarrow> BeforeOrAfterCallOption list \<Rightarrow> 'x RPCClient \<Rightarrow> ((goerr option \<times> 'x goval) \<times> 'x RPCClient) option" where
  "remote_Call cenv senv server comps maxlen pooled ch1 ch2 up down w now c m args reply opts client = do {
     (i, client1) \<leftarrow> call_start now c m args reply opts client;
     client2 \<leftarrow> remote_call cenv senv server comps maxlen pooled ch1 ch2 up down w i (cseq client1) client1;
     (err, client3) \<leftarrow> call_await False (length (chans client)) client2;
     Some ((err, cReply (calls client3 ! i)), client3)
   }"

text \<open>\<open>Call\<close> when the context expires first; the response, read later, is handled as any other.\<close>

definition expired_Call ::
  "'x client_env \<Rightarrow> message \<Rightarrow> int \<Rightarrow> ctx \<Rightarrow> string \<Rightarrow> 'x goval \<Rightarrow> 'x goval \<Rightarrow> BeforeOrAfterCallOption list \<Rightarrow> 'x RPCClient
     \<Rightarrow> ((goerr option \<times> 'x goval) \<times> 'x RPCClient) option" where
  "expired_Call cenv pooled now c m args reply opts client = do {
     (i, client1) \<leftarrow> call_start now c m args reply opts client;
     client2 \<leftarrow> send_transmit cenv pooled None i (cseq client1) client1;
     (err, client3) \<leftarrow> call_await True (length (chans client)) client2;
     Some ((err, cReply (calls client3 ! i)), client3)
   }"

lemma call_start_fields:
  assumes "call_start now c m args reply opts client = Some (i, client1)" "status client = ConnAvailable"
  shows "i = length (calls client)" "cError (calls client1 ! i) = None" "cDone (calls client1 ! i) = length (chans client)"
    "chans client1 = chans client @ [(1, [])]" "dones client1 = dones client" "cReply (calls client1 ! i) = reply"
    "\<forall>j < length (calls client). calls client1 ! j = calls client ! j"
    "status client1 = status client" "servicePath client1 = servicePath client" "resp client1 = resp client"
    "outbox client1 = outbox client"
proof -
  let ?client = "client\<lparr>chans := chans client @ [(1, [])]\<rparr>"
  let ?call = "\<lparr>cCtx = c, cServicePath = servicePath client, cServiceMethod = m, cArgs = args,
           cReply = reply, cError = None, cDone = 0, cMetadata = None, cHeartBeat = False,
           cCompressType = NoCompress, cSerializeType = MsgPack, cSeq = 0, cAfterCalls = []\<rparr>"
  obtain call vs where o: "fold add_option opts (?call, vars client) = (call, vs)" by fastforce
  have "cError call = None" "cReply call = reply" using add_option_keeps [of opts "(?call, vars client)"] o by simp_all
  moreover have "i = length (calls client)" "client1 = send_register now i (?client\<lparr>calls := calls client @
      [call\<lparr>cDone := length (chans client)\<rparr>], vars := vs\<rparr>)"
    using assms(1) o by (auto simp: call_start_def Go_def new_call_def Let_def simp del: protocol_consts split: if_splits)
  ultimately show "i = length (calls client)" "cError (calls client1 ! i) = None" "cDone (calls client1 ! i) = length (chans client)"
    "chans client1 = chans client @ [(1, [])]" "dones client1 = dones client" "cReply (calls client1 ! i) = reply"
    "\<forall>j < length (calls client). calls client1 ! j = calls client ! j"
    "status client1 = status client" "servicePath client1 = servicePath client" "resp client1 = resp client"
    "outbox client1 = outbox client"
    using assms(2) by (simp_all add: nth_append send_register_def Let_def)
qed

lemma Call_returns:
  assumes start: "call_start now c m args reply opts client = Some (i, client1)" "status client = ConnAvailable"
    and call: "callable cenv client1 i (cseq client1) codec data" "clean pooled" "receiver (resp client1)"
    and comps: "compressors_ok (ce_comps cenv)"
    and sizes: "acceptable maxlen (body_size (ce_comps cenv) (request_of pooled (calls client1 ! i) (cseq client1) data))"
      "acceptable (ce_maxlen cenv) (16 + length (cServicePath (calls client1 ! i)) +
         length (cServiceMethod (calls client1 ! i)) + length (encodeMetadata (sent_back r)) + length rdata)"
    and off: "offers senv server (cSerializeType (calls client1 ! i)) (cServicePath (calls client1 ! i))
      (cServiceMethod (calls client1 ! i)) cx data r rdata"
    and cx: "extractClientMdContexFromMd Background
      (case sent_md (calls client1 ! i) of None \<Rightarrow> [] | Some md \<Rightarrow> md) = Inr cx"
    and srv: "\<not> env_UsePool senv" "pool_ok (msgPool w)" "md_wf (sent_back r)"
    and net: "delivers up" "delivers down"
    and dec: "codec_Decode (ce_libs cenv) codec rdata reply = Some (None, reply')"
  shows "\<exists>client'. remote_Call cenv senv server (ce_comps cenv) maxlen pooled ch1 ch2 up down w now c m args reply opts client =
      Some ((None, reply'), client') \<and>
    dones client' = dones client @ [i] \<and> pending client' = AList.delete (cseq client1) (pending client1) \<and>
    (\<forall>j < length (calls client). calls client' ! j = calls client ! j) \<and>
    (\<forall>v md. GetMetadata v \<in> set (cAfterCalls (calls client1 ! i)) \<longrightarrow> sent_back r = Some md \<longrightarrow> md \<noteq> [] \<longrightarrow>
       vars client' v = Some md) \<and>
    status client' = ConnAvailable \<and> servicePath client' = servicePath client \<and> receiver (resp client')"
proof -
  note f = call_start_fields [OF start]
  have dec1: "codec_Decode (ce_libs cenv) codec rdata (cReply (calls client1 ! i)) = Some (None, reply')" using dec f by simp
  obtain client2 where c2: "remote_call cenv senv server (ce_comps cenv) maxlen pooled ch1 ch2 up down w i (cseq client1) client1 = Some client2"
    "cReply (calls client2 ! i) = reply'" "\<forall>j. j \<noteq> i \<longrightarrow> calls client2 ! j = calls client1 ! j" "cError (calls client2 ! i) = cError (calls client1 ! i)"
    "dones client2 = dones client1 @ [i]" "pending client2 = AList.delete (cseq client1) (pending client1)"
    "\<forall>v md. GetMetadata v \<in> set (cAfterCalls (calls client1 ! i)) \<longrightarrow> sent_back r = Some md \<longrightarrow> md \<noteq> [] \<longrightarrow> vars client2 v = Some md"
    "chans client2 = queue_signal i (cDone (calls client1 ! i)) (chans client1)"
    "status client2 = status client1" "servicePath client2 = servicePath client1" "receiver (resp client2)"
    using rpc_end_to_end [OF call comps sizes off cx srv net dec1] by blast
  have "chans client2 ! length (chans client) = (1, [i])" using c2(8) f by (simp add: queue_signal_def)
  then show ?thesis using start c2 f by (simp add: remote_Call_def call_await_def)
qed

text \<open>A call that would return its reply, when the context expires first: what was to be returned is written all the same.\<close>

lemma createRequest_reply: "createRequest env pooled call sq = Some (call', res) \<Longrightarrow> cReply call' = cReply call"
  by (auto simp: createRequest_def Let_def split: if_splits option.splits prod.splits)

lemma update_reply: "cReply call = cReply (cs ! j) \<Longrightarrow> cReply (cs[j := call] ! i) = cReply (cs ! i)"
  by (cases "j < length cs") (auto simp: nth_list_update not_less list_update_beyond)

lemma send_transmit_reply:
  assumes "send_transmit cenv pooled we j sq client = Some client'"
  shows "cReply (calls client' ! i) = cReply (calls client ! i)"
proof -
  have "cReply ((calls client)[j := call] ! i) = cReply (calls client ! i)"
    if "createRequest cenv pooled (calls client ! j) sq = Some (call, res)" for call res i
    using createRequest_reply [OF that] update_reply by blast
  then show ?thesis using assms
    by (auto simp: send_transmit_def drop_pending_def Let_def update_reply split: option.splits prod.splits sum.splits)
qed

lemma expired_then_served:
  assumes ok: "remote_Call cenv senv server comps maxlen pooled ch1 ch2 up down w now c m args reply opts client =
      Some ((None, reply'), client')"
    and avail: "status client = ConnAvailable"
  shows "\<exists>client1 client2. expired_Call cenv pooled now c m args reply opts client = Some ((Some ErrTimeOut, reply), client1) \<and>
    served_response cenv senv server comps maxlen ch1 ch2 up down w (length (outbox client)) client1 = Some client2 \<and>
    cReply (calls client2 ! length (calls client)) = reply' \<and> client' = client2\<lparr>chans := chans client'\<rparr>"
proof -
  obtain i client1 client2 where 1: "call_start now c m args reply opts client = Some (i, client1)"
    "remote_call cenv senv server comps maxlen pooled ch1 ch2 up down w i (cseq client1) client1 = Some client2"
    "call_await False (length (chans client)) client2 = Some (None, client')" "cReply (calls client' ! i) = reply'"
    using ok by (auto simp: remote_Call_def bind_eq_Some_conv)
  note f = call_start_fields [OF 1(1) avail]
  obtain client3 where 3: "send_transmit cenv pooled None i (cseq client1) client1 = Some client3"
    "served_response cenv senv server comps maxlen ch1 ch2 up down w (length (outbox client1)) client3 = Some client2"
    using 1(2) by (auto simp: remote_call_def split: option.splits)
  have "cReply (calls client3 ! i) = reply" using send_transmit_reply [OF 3(1)] f(6) by simp
  then have "expired_Call cenv pooled now c m args reply opts client = Some ((Some ErrTimeOut, reply), client3)"
    using 1(1) 3(1) by (simp add: expired_Call_def call_await_def)
  moreover have "client' = client2\<lparr>chans := chans client'\<rparr>"
    using 1(3) by (auto simp: call_await_def split: prod.splits list.splits)
  moreover have "calls client' = calls client2"
    using 1(3) by (auto simp: call_await_def split: prod.splits list.splits)
  ultimately show ?thesis using 3(2) 1(4) f(1,11) by auto
qed

text \<open>C1. A whole remote call: \<open>Call\<close> on an available client registers the call and sends it, the request crosses the wire in
  any pieces, the server runs the method it names with the context rebuilt from its metadata, the reply crosses back, and
  \<open>Call\<close> returns nil with what the method computed, decoded into the caller's object. The call has left the table, no
  other call is touched, metadata the method sent are in the variables the caller asked for, and the client is ready for
  the next call.\<close>

theorem Call_returns_reply:
  assumes start: "call_start now c m args reply opts client = Some (i, client1)" "status client = ConnAvailable"
    and call: "callable cenv client1 i (cseq client1) codec data" "clean pooled" "receiver (resp client1)"
    and comps: "compressors_ok (ce_comps cenv)"
    and sizes: "acceptable maxlen (body_size (ce_comps cenv) (request_of pooled (calls client1 ! i) (cseq client1) data))"
      "acceptable (ce_maxlen cenv) (16 + length (cServicePath (calls client1 ! i)) +
         length (cServiceMethod (calls client1 ! i)) + length (encodeMetadata (sent_back r)) + length rdata)"
    and off: "offers senv server (cSerializeType (calls client1 ! i)) (cServicePath (calls client1 ! i))
      (cServiceMethod (calls client1 ! i)) cx data r rdata"
    and cx: "extractClientMdContexFromMd Background
      (case sent_md (calls client1 ! i) of None \<Rightarrow> [] | Some md \<Rightarrow> md) = Inr cx"
    and srv: "\<not> env_UsePool senv" "pool_ok (msgPool w)" "md_wf (sent_back r)"
    and net: "delivers up" "delivers down"
    and dec: "codec_Decode (ce_libs cenv) codec rdata reply = Some (None, reply')"
  shows "\<exists>client'. remote_Call cenv senv server (ce_comps cenv) maxlen pooled ch1 ch2 up down w now c m args reply opts client =
      Some ((None, reply'), client') \<and>
    dones client' = dones client @ [i] \<and> pending client' = AList.delete (cseq client1) (pending client1) \<and>
    (\<forall>j < length (calls client). calls client' ! j = calls client ! j) \<and>
    (\<forall>v md. GetMetadata v \<in> set (cAfterCalls (calls client1 ! i)) \<longrightarrow> sent_back r = Some md \<longrightarrow> md \<noteq> [] \<longrightarrow>
       vars client' v = Some md) \<and>
    status client' = ConnAvailable \<and> servicePath client' = servicePath client \<and> receiver (resp client')"
  using assms by (rule Call_returns)

text \<open>The exchange of a small client with a small server, over connections that deliver two pieces each.\<close>

definition halves :: "bytes \<Rightarrow> conn" where
  "halves bs = \<lparr>pieces = [take 5 bs, drop 5 bs], cend = EOF\<rparr>"

lemma demo_offers_values:
  "offers demo_env demo_server JSON ''arith'' ''mul'' cx [a, b]
     \<lparr>hOutcome = Returns None, hArg = GoObj [unat a, unat b], hReply = GoObj [unat a * unat b], hSent = []\<rparr>
     [word_of_nat (unat a * unat b)]"
  by (simp add: offers_def demo_serviceMap demo_env_def codec_Decode_def
      codec_Encode_def JSONCodec_Decode_def JSONCodec_Encode_def demo_libs_def demo_unmarshal_def
      demo_marshal_def typePools_New_def demo_mt_def demo_method_def run_method_def is_ptr_def
      service_call_def demo_mul_def Let_def del: protocol_consts)

lemma demo_offers:
  "offers demo_env demo_server JSON ''arith'' ''mul'' cx [6, 7]
     \<lparr>hOutcome = Returns None, hArg = GoObj [6, 7], hReply = GoObj [42], hSent = []\<rparr> [42]"
  using demo_offers_values [of cx 6 7] by simp

lemma demo_called_names:
  "cServicePath (calls demo_called ! 0) = ''arith''" "cServiceMethod (calls demo_called ! 0) = ''mul''"
  "extractMdFromClientCtx (cCtx (calls demo_called ! 0)) = []" "cHeartBeat (calls demo_called ! 0) = False"
  "resp demo_called = NewMessage" "cCompressType (calls demo_called ! 0) = NoCompress"
  by (simp_all add: demo_called_def Go_def new_call_def demo_client_def make_client_def send_register_def
      SetCallSerializeType_def add_option_def apply_option_simps demo_conf_def ToLower_def lower_char_def
      char_of_def bit_0 extractMdFromClientCtx_def Background_def del: protocol_consts)

lemma demo_extract: "extractClientMdContexFromMd Background [] = Inr Background"
  by (simp add: extractClientMdContexFromMd_def Background_def extract_init_def)

lemma JSON_mask: "(1 :: byte) AND mask 4 = 1"
  by code_simp

lemma demo_start:
  "call_start 3 Background ''mul'' (GoObj [6, 7]) (GoObj []) [SetCallSerializeType JSON] demo_client =
    Some (0, demo_called\<lparr>chans := [(1, [])]\<rparr>)"
  by (simp add: call_start_def demo_called_def Go_def new_call_def demo_client_def make_client_def send_register_def
      SetCallSerializeType_def add_option_def apply_option_simps del: protocol_consts)

theorem Call_returns_reply_witness:
  "\<exists>client'. remote_Call demo_client_env demo_env demo_server Map.empty 0 NewMessage None demo_choices halves halves demo_pools
      3 Background ''mul'' (GoObj [6, 7]) (GoObj []) [SetCallSerializeType JSON] demo_client =
      Some ((None, GoObj [42]), client') \<and> dones client' = [0] \<and> pending client' = []"
proof -
  let ?r = "\<lparr>hOutcome = Returns None, hArg = GoObj [6, 7], hReply = GoObj [42], hSent = []\<rparr> :: nat list handler_result"
  let ?client1 = "demo_called\<lparr>chans := [(1, [])]\<rparr>" and ?call = "calls demo_called ! 0"
  have sq: "cseq demo_called = 1" "status demo_client = ConnAvailable" "dones demo_client = []"
    by (simp_all add: demo_called_def Go_def new_call_def demo_client_def make_client_def send_register_def
      SetCallSerializeType_def add_option_def apply_option_simps del: protocol_consts)
  have call: "callable demo_client_env ?client1 0 (cseq ?client1) JSONCodec [6, 7]"
    by (simp add: callable_def Let_def demo_called_fields demo_called_names demo_client_env_def codec_Encode_def sq
        JSONCodec_Encode_def demo_libs_def demo_marshal_def smap_wf_def Codecs_def JSON_mask)
  have size: "acceptable 0 (body_size Map.empty (request_of NewMessage ?call 1 [6, 7]))"
    by (simp add: acceptable_def body_size_def request_of_def demo_called_names encode_payload_def NewMessage_def
        encodeMetadata_def split: prod.splits option.splits)
  have off: "offers demo_env demo_server (cSerializeType ?call) (cServicePath ?call) (cServiceMethod ?call)
      Background [6, 7] ?r [42]"
    using demo_offers by (simp add: demo_called_fields demo_called_names del: protocol_consts)
  have dec: "codec_Decode (ce_libs demo_client_env) JSONCodec [42] (GoObj []) = Some (None, GoObj [42])"
    by (simp add: demo_client_env_def codec_Decode_def JSONCodec_Decode_def demo_libs_def demo_unmarshal_def)
  show ?thesis
    using Call_returns_reply [OF demo_start sq(2) call clean_NewMessage, of 0 ?r "[42]" demo_env demo_server Background
        demo_pools halves halves "GoObj [42]" None demo_choices] size off dec
    by (simp add: demo_called_fields demo_called_names sent_md_def sent_back_def demo_extract demo_env_def
        demo_pools_def pool_ok_def md_wf_def delivers_def halves_def demo_client_env_def acceptable_def
        compressors_ok_def encodeMetadata_def sq) blast
qed

end
