(* ===== verification/Balancer.thy ===== *)
theory Balancer
  imports ClientSteps
begin

text \<open>
  The client over several servers: \<^verbatim>\<open>client/selector.go\<close>, \<^verbatim>\<open>client/client.go\<close>, \<^verbatim>\<open>client/client_options.go\<close>,
  \<^verbatim>\<open>client/mode.go\<close>. The cached RPC clients are a list; what a selector
  returns is an index into it.
\<close>

section \<open>Selection\<close>

datatype FailMode = Failover | Failfast | Failtry | Failbackup

datatype SelectMode = RandomSelect | RoundRobin | WeightedRoundRobin | WeightedICMP | ConsistentHash
  | Closest | SelectByUser

text \<open>
  The loop of \<open>Pick\<close>: \<open>k\<close> rounds are left, \<open>lst\<close> is \<^verbatim>\<open>LastIndex\<close>, \<open>cur\<close> the client looked at last. The
  loop never breaks off; it stays on the first available client it meets.
\<close>

fun pick_loop :: "'x RPCClient list \<Rightarrow> nat \<Rightarrow> nat \<Rightarrow> nat \<Rightarrow> nat \<times> nat" where
  "pick_loop clients 0 lst cur = (lst, cur)"
| "pick_loop clients (Suc k) lst cur =
     (if status (clients ! lst) \<noteq> ConnAvailable
      then pick_loop clients k ((lst + 1) mod length clients) lst
      else pick_loop clients k lst lst)"

text \<open>\<open>Pick\<close>: the index of the client, if any, and \<^verbatim>\<open>LastIndex\<close>; on an empty list it divides by zero.\<close>

definition Pick :: "'x RPCClient list \<Rightarrow> nat \<Rightarrow> (nat option \<times> nat) option" where
  "Pick clients lst =
    (if length clients = 0 then None
     else (let lst = (lst + 1) mod length clients in
       case pick_loop clients (length clients) lst lst of
         (lst, cur) \<Rightarrow>
           Some (if status (clients ! cur) \<noteq> ConnAvailable then None else Some cur, lst)))"

definition NewRoundRobinSelector :: nat where
  "NewRoundRobinSelector = 0"

section \<open>The client\<close>

text \<open>
  \<open>selectMode\<close> and \<open>selector\<close> (\<^verbatim>\<open>LastIndex\<close> of the round robin selector, if there is one), the cached
  clients, the default client, and the settings handed to each new RPC client with their guards.
\<close>

record ('x, 'c, 'l) Client =
  cl_network :: string
  cl_address :: string
  cl_servicePath :: string
  selectMode :: SelectMode
  selector :: "nat option"
  cachedClient :: "'x RPCClient list"
  subscriber :: bool
  defaultRPCClient :: "'x RPCClient option"
  cl_DialTimeout :: int
  breakerConfig :: "'c option"
  limiterConfig :: "'l option"

text \<open>The options; \<open>None\<close> is \<^verbatim>\<open>log.Panic\<close>.\<close>

datatype ('c, 'l) ClientOption = DialTimeoutOption int | SelectorOption SelectMode
  | BreakerOption "'c option" | LimiterOption "'l option"

definition apply_client_option ::
  "('c, 'l) ClientOption \<Rightarrow> ('x, 'c, 'l) Client \<Rightarrow> ('x, 'c, 'l) Client option" where
  "apply_client_option opt c = (case opt of
      DialTimeoutOption t \<Rightarrow> Some (c\<lparr>cl_DialTimeout := t\<rparr>)
    | SelectorOption mode \<Rightarrow>
       (let c = c\<lparr>selectMode := mode\<rparr> in
        if mode = RoundRobin then Some (c\<lparr>selector := Some NewRoundRobinSelector\<rparr>) else None)
    | BreakerOption s \<Rightarrow> Some (c\<lparr>breakerConfig := s\<rparr>)
    | LimiterOption conf \<Rightarrow> Some (c\<lparr>limiterConfig := conf\<rparr>))"

fun apply_client_options ::
  "('c, 'l) ClientOption list \<Rightarrow> ('x, 'c, 'l) Client \<Rightarrow> ('x, 'c, 'l) Client option" where
  "apply_client_options [] c = Some c"
| "apply_client_options (opt # opts) c = (case apply_client_option opt c of
      None \<Rightarrow> None | Some c \<Rightarrow> apply_client_options opts c)"

definition SetDialTimeout :: "int \<Rightarrow> ('c, 'l) ClientOption" where
  "SetDialTimeout t = DialTimeoutOption t"

definition SetSelector :: "SelectMode \<Rightarrow> ('c, 'l) ClientOption" where
  "SetSelector mode = SelectorOption mode"

definition SetRandomSelector :: "('c, 'l) ClientOption" where
  "SetRandomSelector = SetSelector RandomSelect"

definition SetRoundRobinSelector :: "('c, 'l) ClientOption" where
  "SetRoundRobinSelector = SetSelector RoundRobin"

text \<open>\<open>NewClient\<close>: the outer option is a panic, the sum is the error of dialling.\<close>

definition NewClient ::
  "net_lib \<Rightarrow> (goerr \<Rightarrow> string) \<Rightarrow> string \<Rightarrow> string \<Rightarrow> string \<Rightarrow> ('c, 'l) ClientOption list
     \<Rightarrow> (goerr + ('x, 'c, 'l) Client) option" where
  "NewClient N txt nw addr sp opts =
    (case apply_client_options opts \<lparr>cl_network = nw, cl_address = addr, cl_servicePath = sp, selectMode = SelectByUser,
         selector = None, cachedClient = [], subscriber = False, defaultRPCClient = None, cl_DialTimeout = 0,
         breakerConfig = None, limiterConfig = None\<rparr> of
       None \<Rightarrow> None
     | Some c \<Rightarrow>
        (case NewRPCClient N txt \<lparr>conf_network = cl_network c, conf_address = cl_address c,
             conf_servicePath = cl_servicePath c, conf_dialTimeout = cl_DialTimeout c\<rparr> of
           Inl err \<Rightarrow> Some (Inl err)
         | Inr rpcClient \<Rightarrow> Some (Inr (c\<lparr>defaultRPCClient := Some rpcClient\<rparr>))))"

section \<open>Selecting an RPC client\<close>

text \<open>Which RPC client a call goes to: the default one or the one at an index.\<close>

datatype target = DefaultTarget | CachedTarget nat

definition no_worker :: goerr where
  "no_worker = ErrText ''not avaliable worker node''"

definition selectRPCClient :: "('x, 'c, 'l) Client \<Rightarrow> ((goerr + target) \<times> ('x, 'c, 'l) Client) option" where
  "selectRPCClient c =
    (if \<not> subscriber c then Some (Inr DefaultTarget, c)
     else (case selector c of
         None \<Rightarrow> None
       | Some lst \<Rightarrow>
          (case Pick (cachedClient c) lst of
             None \<Rightarrow> None
           | Some (None, lst) \<Rightarrow> Some (Inl no_worker, c\<lparr>selector := Some lst\<rparr>)
           | Some (Some i, lst) \<Rightarrow> Some (Inr (CachedTarget i), c\<lparr>selector := Some lst\<rparr>))))"

text \<open>
  \<open>Call\<close> and \<open>Go\<close> of the client: the RPC client they choose and the method name they pass on; \<open>None\<close> inside
  stands for returning without a call (with a nil error, respectively a nil call).
\<close>

definition Client_Call ::
  "('x, 'c, 'l) Client \<Rightarrow> string \<Rightarrow> ((target \<times> string) option \<times> ('x, 'c, 'l) Client) option" where
  "Client_Call c serviceMethod = (case selectRPCClient c of
      None \<Rightarrow> None
    | Some (Inl err, c) \<Rightarrow> Some (None, c)
    | Some (Inr t, c) \<Rightarrow> Some (Some (t, ToLower serviceMethod), c))"

definition Client_Go ::
  "('x, 'c, 'l) Client \<Rightarrow> string \<Rightarrow> ((target \<times> string) option \<times> ('x, 'c, 'l) Client) option" where
  "Client_Go c serviceMethod = (case selectRPCClient c of
      None \<Rightarrow> None
    | Some (Inl err, c) \<Rightarrow> Some (None, c)
    | Some (Inr t, c) \<Rightarrow> Some (Some (t, serviceMethod), c))"

section \<open>Nodes that come and go\<close>

record ServiceInfo =
  si_Name :: string
  si_Addr :: string
  si_Network :: string

definition same_node :: "ServiceInfo \<Rightarrow> 'x RPCClient \<Rightarrow> bool" where
  "same_node info rCli \<longleftrightarrow> servicePath rCli = si_Name info \<and> address rCli = si_Addr info"

definition addNode ::
  "net_lib \<Rightarrow> (goerr \<Rightarrow> string) \<Rightarrow> ServiceInfo \<Rightarrow> ('x, 'c, 'l) Client \<Rightarrow> goerr option \<times> ('x, 'c, 'l) Client" where
  "addNode N txt info c =
    (let newNode = \<not> list_ex (same_node info) (cachedClient c) in
     if newNode then
       (case NewRPCClient N txt \<lparr>conf_network = si_Network info, conf_address = si_Addr info,
            conf_servicePath = si_Name info, conf_dialTimeout = cl_DialTimeout c\<rparr> of
          Inl err \<Rightarrow> (Some err, c)
        | Inr rCli \<Rightarrow> (None, c\<lparr>cachedClient := cachedClient c @ [rCli]\<rparr>))
     else (None, c))"

text \<open>
  \<open>delNodeFunc\<close> ranges over the slice while it shifts its elements: \<open>arr\<close> is the backing array that the
  range reads, \<open>len\<close> the length of \<^verbatim>\<open>c.cachedClient\<close>. \<open>None\<close> is the panic of \<^verbatim>\<open>cachedClient[i+1:]\<close>.
\<close>

fun del_loop :: "('a \<Rightarrow> bool) \<Rightarrow> nat \<Rightarrow> nat \<Rightarrow> nat \<Rightarrow> 'a list \<Rightarrow> ('a list \<times> nat) option" where
  "del_loop match i 0 len arr = Some (arr, len)"
| "del_loop match i (Suc k) len arr =
     (if match (arr ! i) then
        (if len = i + 1 then del_loop match (i + 1) k i arr
         else if i + 1 \<le> len then
           del_loop match (i + 1) k (len - 1) (take i arr @ drop (i + 1) (take len arr) @ drop (len - 1) arr)
         else None)
      else del_loop match (i + 1) k len arr)"

definition delNode :: "ServiceInfo \<Rightarrow> ('x, 'c, 'l) Client \<Rightarrow> ('x, 'c, 'l) Client option" where
  "delNode info c =
    (let arr = cachedClient c in
     case del_loop (same_node info) 0 (length arr) (length arr) arr of
       None \<Rightarrow> None
     | Some (arr, len) \<Rightarrow> Some (c\<lparr>cachedClient := take len arr\<rparr>))"

text \<open>\<open>Close\<close> closes the default client and every cached one; \<open>orders\<close> are the map orders.\<close>

fun close_all :: "(u64 \<times> nat) list list \<Rightarrow> 'x RPCClient list \<Rightarrow> 'x RPCClient list option" where
  "close_all orders [] = Some []"
| "close_all orders (r # rs) = (case Close (hd (orders @ [[]])) r of
      None \<Rightarrow> None
    | Some r \<Rightarrow> (case close_all (tl orders) rs of None \<Rightarrow> None | Some rs \<Rightarrow> Some (r # rs)))"

definition Client_Close ::
  "(u64 \<times> nat) list \<Rightarrow> (u64 \<times> nat) list list \<Rightarrow> ('x, 'c, 'l) Client \<Rightarrow> ('x, 'c, 'l) Client option" where
  "Client_Close order orders c =
    (case (case defaultRPCClient c of
         None \<Rightarrow> Some None
       | Some d \<Rightarrow> map_option Some (Close order d)) of
       None \<Rightarrow> None
     | Some d \<Rightarrow>
        (case close_all orders (cachedClient c) of
           None \<Rightarrow> None
         | Some cs \<Rightarrow> Some (c\<lparr>defaultRPCClient := d, cachedClient := cs\<rparr>)))"

section \<open>Selection is sound and complete\<close>

text \<open>What a client of a selector relies on.\<close>

locale selection =
  fixes pick :: "'r list \<Rightarrow> 's \<Rightarrow> (nat option \<times> 's) option" and available :: "'r \<Rightarrow> bool"
  assumes pick_total: "rs \<noteq> [] \<Longrightarrow> pick rs s \<noteq> None"
    and pick_available: "pick rs s = Some (Some i, s') \<Longrightarrow> i < length rs \<and> available (rs ! i)"
    and pick_complete: "pick rs s = Some (None, s') \<Longrightarrow> \<not> list_ex available rs"
begin

lemma pick_iff:
  assumes "rs \<noteq> []"
  shows "(\<exists>i s'. pick rs s = Some (Some i, s')) \<longleftrightarrow> list_ex available rs"
proof
  assume "\<exists>i s'. pick rs s = Some (Some i, s')"
  then show "list_ex available rs" using pick_available by (metis list_ex_length)
next
  assume "list_ex available rs"
  moreover obtain o' s' where "pick rs s = Some (o', s')" using pick_total [OF assms, of s] by auto
  ultimately show "\<exists>i s'. pick rs s = Some (Some i, s')" using pick_complete by (cases o') auto
qed

end

text \<open>The first available client in cyclic order from an index.\<close>

definition first_from :: "'x RPCClient list \<Rightarrow> nat \<Rightarrow> nat \<Rightarrow> nat \<Rightarrow> bool" where
  "first_from clients start k i \<longleftrightarrow> i = (start + k) mod length clients \<and> status (clients ! i) = ConnAvailable \<and>
     (\<forall>j < k. status (clients ! ((start + j) mod length clients)) \<noteq> ConnAvailable)"

lemma pick_loop_found:
  assumes "first_from clients start k i" "k < n" "start < length clients"
  shows "pick_loop clients n start cur = (i, i)"
  using assms
proof (induction k arbitrary: n start cur)
  case 0
  then have i: "i = start" "status (clients ! start) = ConnAvailable" by (auto simp: first_from_def)
  have "pick_loop clients m start start = (start, start)" for m
    using i(2) by (induction m) auto
  with 0 i show ?case by (cases n) auto
next
  case (Suc k)
  have na: "status (clients ! start) \<noteq> ConnAvailable" using Suc.prems(1,3) by (auto simp: first_from_def)
  let ?next = "(start + 1) mod length clients"
  have shift: "(?next + j) mod length clients = (start + Suc j) mod length clients" for j
    using mod_add_left_eq [of "start + 1" "length clients" j] by simp
  have "\<forall>j < k. status (clients ! ((?next + j) mod length clients)) \<noteq> ConnAvailable"
    unfolding shift using Suc.prems(1) by (simp add: first_from_def del: add_Suc_right)
  then have "first_from clients ?next k i"
    using Suc.prems(1) unfolding first_from_def shift by blast
  moreover obtain m where "n = Suc m" "k < m" using Suc.prems(2) by (cases n) auto
  moreover have "?next < length clients" using Suc.prems(3) by (intro mod_less_divisor) linarith
  ultimately show ?case using Suc.IH [of ?next m start] na by simp
qed

lemma pick_loop_none:
  assumes "\<forall>r \<in> set clients. status r \<noteq> ConnAvailable" "start < length clients" "cur < length clients"
  shows "\<exists>lst cur'. pick_loop clients n start cur = (lst, cur') \<and> cur' < length clients \<and> lst < length clients"
  using assms
proof (induction n arbitrary: start cur)
  case (Suc n)
  have "(start + 1) mod length clients < length clients" using Suc.prems(2) by (intro mod_less_divisor) linarith
  then show ?case using Suc by simp
qed simp

lemma first_from_exists:
  assumes "list_ex (\<lambda>r. status r = ConnAvailable) clients" "start < length clients"
  shows "\<exists>k i. first_from clients start k i \<and> k < length clients"
proof -
  obtain a where a: "a < length clients" "status (clients ! a) = ConnAvailable"
    using assms(1) by (auto simp: list_ex_length)
  let ?P = "\<lambda>k. status (clients ! ((start + k) mod length clients)) = ConnAvailable"
  define k0 where "k0 = (a + length clients - start) mod length clients"
  have "(start + k0) mod length clients = a"
    using a(1) assms(2) by (simp add: k0_def mod_add_right_eq)
  then have P: "?P k0" using a(2) by simp
  have k0: "k0 < length clients" unfolding k0_def using a(1) by (intro mod_less_divisor) auto
  let ?k = "LEAST k. ?P k"
  have "?P ?k" using P by (rule LeastI)
  moreover have "?k \<le> k0" using P by (rule Least_le)
  moreover have "\<not> ?P j" if "j < ?k" for j using that by (rule not_less_Least)
  ultimately show ?thesis using k0 by (auto simp: first_from_def intro!: exI [of _ ?k])
qed

lemma Pick_found:
  assumes "first_from clients ((lst + 1) mod length clients) k i" "k < length clients"
  shows "Pick clients lst = Some (Some i, i)"
proof -
  have "clients \<noteq> []" using assms(2) by auto
  then have "(lst + 1) mod length clients < length clients" by simp
  then show ?thesis
    using pick_loop_found [OF assms, of "(lst + 1) mod length clients"] assms \<open>clients \<noteq> []\<close>
    by (auto simp: Pick_def Let_def first_from_def)
qed

lemma Pick_none:
  assumes "\<not> list_ex (\<lambda>r. status r = ConnAvailable) clients" "clients \<noteq> []"
  shows "\<exists>lst'. Pick clients lst = Some (None, lst')"
proof -
  have na: "\<forall>r \<in> set clients. status r \<noteq> ConnAvailable" using assms(1) by (auto simp: list_ex_iff)
  have "(lst + 1) mod length clients < length clients" using assms(2) by simp
  then obtain l c where "pick_loop clients (length clients) ((lst + 1) mod length clients)
      ((lst + 1) mod length clients) = (l, c)" "c < length clients"
    using pick_loop_none [OF na] by blast
  then show ?thesis using na assms(2) by (simp add: Pick_def Let_def)
qed

lemma Pick_cases:
  assumes "clients \<noteq> []"
  obtains (found) k i where "first_from clients ((lst + 1) mod length clients) k i" "k < length clients"
      "Pick clients lst = Some (Some i, i)"
    | (none) lst' where "\<not> list_ex (\<lambda>r. status r = ConnAvailable) clients" "Pick clients lst = Some (None, lst')"
proof (cases "list_ex (\<lambda>r. status r = ConnAvailable) clients")
  case True
  have "(lst + 1) mod length clients < length clients" using assms by simp
  from first_from_exists [OF True this] show thesis using Pick_found that(1) by blast
next
  case False
  then show thesis using Pick_none [OF False assms] that(2) by blast
qed

interpretation round_robin: selection Pick "\<lambda>r. status r = ConnAvailable"
proof
  fix rs :: "'x RPCClient list" and s s' i
  show "rs \<noteq> [] \<Longrightarrow> Pick rs s \<noteq> None" by (erule Pick_cases [of rs s]) auto
  show "Pick rs s = Some (Some i, s') \<Longrightarrow> i < length rs \<and> status (rs ! i) = ConnAvailable"
    by (cases "rs = []", simp add: Pick_def, rule Pick_cases [of rs s]) (auto simp: first_from_def)
  show "Pick rs s = Some (None, s') \<Longrightarrow> \<not> list_ex (\<lambda>r. status r = ConnAvailable) rs"
    by (cases "rs = []", simp add: Pick_def, rule Pick_cases [of rs s]) auto
qed

section \<open>Deleting while ranging\<close>

lemma del_loop_skip:
  "\<forall>j. i \<le> j \<and> j < i + d \<longrightarrow> \<not> match (arr ! j) \<Longrightarrow>
   del_loop match i (d + k) len arr = del_loop match (i + d) k len arr"
proof (induction d arbitrary: i)
  case (Suc d)
  then show ?case using Suc.IH [of "i + 1"] by simp
qed simp

lemma del_loop_unique:
  assumes m: "m < length arr" "match (arr ! m)"
    and unique: "\<forall>j < length arr. j \<noteq> m \<longrightarrow> \<not> match (arr ! j)"
  shows "\<exists>arr' len. del_loop match 0 (length arr) (length arr) arr = Some (arr', len) \<and>
    take len arr' = take m arr @ drop (m + 1) arr"
proof -
  let ?n = "length arr"
  have "del_loop match 0 (m + (?n - m)) ?n arr = del_loop match (0 + m) (?n - m) ?n arr"
    using m unique by (intro del_loop_skip) auto
  moreover have "m + (?n - m) = ?n" "Suc (?n - m - 1) = ?n - m" using m(1) by auto
  ultimately have skip: "del_loop match 0 ?n ?n arr = del_loop match m (Suc (?n - m - 1)) ?n arr" by simp
  show ?thesis
  proof (cases "?n = m + 1")
    case True
    then show ?thesis using skip m(2) by simp
  next
    case False
    let ?arr = "take m arr @ drop (m + 1) (take ?n arr) @ drop (?n - 1) arr"
    have nth: "?arr ! j = arr ! (if j + 1 < ?n then j + 1 else ?n - 1)" if "m < j" "j < ?n" for j
      using that m(1) by (auto simp: nth_append min_def)
    have "\<not> match (?arr ! j)" if "m + 1 \<le> j" "j < ?n" for j
      using that nth [of j] unique m(1) False by auto
    then have "del_loop match (m + 1) ((?n - m - 1) + 0) (?n - 1) ?arr = del_loop match (m + 1 + (?n - m - 1)) 0 (?n - 1) ?arr"
      using m(1) by (intro del_loop_skip) auto
    then have "del_loop match 0 ?n ?n arr = Some (?arr, ?n - 1)"
      using skip m False by simp
    moreover have "take (?n - 1) ?arr = take m arr @ drop (m + 1) arr"
      using m(1) by simp
    ultimately show ?thesis by blast
  qed
qed

lemma filter_remove_nth:
  "m < length xs \<Longrightarrow> P (xs ! m) \<Longrightarrow> \<forall>j < length xs. j \<noteq> m \<longrightarrow> \<not> P (xs ! j) \<Longrightarrow>
   filter (\<lambda>x. \<not> P x) xs = take m xs @ drop (m + 1) xs"
proof (induction xs arbitrary: m)
  case (Cons x xs)
  show ?case
  proof (cases m)
    case 0
    have "\<not> P (xs ! i)" if "i < length xs" for i using Cons.prems(3) 0 that by (auto dest: spec [of _ "Suc i"])
    then have "\<forall>y \<in> set xs. \<not> P y" by (auto simp: in_set_conv_nth)
    then show ?thesis using 0 Cons.prems by simp
  next
    case (Suc m')
    then have "\<not> P x" using Cons.prems by force
    moreover have "filter (\<lambda>x. \<not> P x) xs = take m' xs @ drop (m' + 1) xs"
      using Cons.prems Suc by (intro Cons.IH) force+
    ultimately show ?thesis using Suc by simp
  qed
qed simp

section \<open>Properties\<close>

text \<open>C13. The round robin selector is sound and complete: on a nonempty list it returns the first available client
  in cyclic order after the last one, and returns none exactly when no client is available; on an empty
  list it panics.\<close>

theorem Pick_first_available:
  "(clients = [] \<longrightarrow> Pick clients lst = None) \<and>
   (clients \<noteq> [] \<longrightarrow> (\<exists>sel lst'. Pick clients lst = Some (sel, lst') \<and>
      (case sel of
         None \<Rightarrow> \<not> list_ex (\<lambda>r. status r = ConnAvailable) clients
       | Some i \<Rightarrow> lst' = i \<and> (\<exists>k. first_from clients ((lst + 1) mod length clients) k i))))"
proof (cases "clients = []")
  case False
  show ?thesis by (rule Pick_cases [OF False, of lst]) (use False in auto)
qed (simp add: Pick_def)

theorem Pick_first_available_witness:
  "Pick [] 3 = None \<and> (\<exists>lst'. Pick [make_client \<lparr>conf_network = '''', conf_address = '''', conf_servicePath = '''',
     conf_dialTimeout = 0\<rparr> \<lparr>pieces = [], cend = EOF\<rparr>] 3 = Some (Some 0, lst'))"
proof -
  let ?c = "make_client \<lparr>conf_network = '''', conf_address = '''', conf_servicePath = '''',
     conf_dialTimeout = 0\<rparr> \<lparr>pieces = [], cend = EOF\<rparr>"
  have "status ?c = ConnAvailable" by (simp add: make_client_def)
  then show ?thesis using Pick_first_available [of "[?c]" 3] Pick_first_available [of "[]" 3]
    by (auto simp: first_from_def split: option.splits)
qed

lemma add_mod_inject_le:
  "b < n \<Longrightarrow> a \<le> b \<Longrightarrow> (s + a) mod n = (s + b) mod (n :: nat) \<Longrightarrow> a = b"
  using mod_eq_dvd_iff_nat [of "s + a" "s + b" n] nat_dvd_not_less [of "b - a" n] by fastforce

lemma add_mod_inject: "a < n \<Longrightarrow> b < n \<Longrightarrow> (s + a) mod n = (s + b) mod (n :: nat) \<Longrightarrow> a = b"
  using add_mod_inject_le [of b n a s] add_mod_inject_le [of a n b s] by (cases "a \<le> b") auto

text \<open>Successive picks from the same list.\<close>

fun picks :: "'x RPCClient list \<Rightarrow> nat \<Rightarrow> nat \<Rightarrow> nat option list option" where
  "picks clients lst 0 = Some []"
| "picks clients lst (Suc k) = (case Pick clients lst of
      None \<Rightarrow> None
    | Some (sel, lst) \<Rightarrow> map_option (Cons sel) (picks clients lst k))"

lemma picks_all_available:
  assumes "\<forall>r \<in> set clients. status r = ConnAvailable" "clients \<noteq> []"
  shows "picks clients lst k = Some (map (\<lambda>j. Some ((lst + 1 + j) mod length clients)) [0..<k])"
proof (induction k arbitrary: lst)
  case (Suc k)
  let ?i = "(lst + 1) mod length clients"
  have "first_from clients ?i 0 ?i" using assms by (simp add: first_from_def)
  then have p: "Pick clients lst = Some (Some ?i, ?i)" using assms(2) by (intro Pick_found) auto
  have "(?i + 1 + j) mod length clients = (lst + 1 + Suc j) mod length clients" for j
    using mod_add_left_eq [of "lst + 1" "length clients" "1 + j"] by simp
  then show ?case using p Suc [of ?i]
    by (simp add: map_upt_Suc del: upt_Suc)
qed simp

text \<open>C14. The round robin is fair: over \<open>n\<close> available clients, any \<open>n\<close> successive picks return every client exactly
  once, in cyclic order.\<close>

theorem round_robin_fair:
  assumes "\<forall>r \<in> set clients. status r = ConnAvailable" "clients \<noteq> []"
  shows "\<exists>is. picks clients lst (length clients) = Some (map Some is) \<and> distinct is \<and>
    set is = {0..<length clients}"
proof -
  let ?n = "length clients"
  let ?is = "map (\<lambda>j. (lst + 1 + j) mod ?n) [0..<?n]"
  have "inj_on (\<lambda>j. (lst + 1 + j) mod ?n) {0..<?n}"
  proof (rule inj_onI)
    fix a b assume ab: "a \<in> {0..<?n}" "b \<in> {0..<?n}" "(lst + 1 + a) mod ?n = (lst + 1 + b) mod ?n"
    then show "a = b" using add_mod_inject [of a ?n b "lst + 1"] by simp
  qed
  then have d: "distinct ?is" by (simp add: distinct_map)
  have "set ?is \<subseteq> {0..<?n}" using assms(2) by auto
  moreover have "card (set ?is) = ?n" using distinct_card [OF d] by simp
  ultimately have "set ?is = {0..<?n}" by (simp add: card_subset_eq)
  moreover have "picks clients lst ?n = Some (map Some ?is)"
    using picks_all_available [OF assms] by (simp add: comp_def)
  ultimately show ?thesis using d by blast
qed

definition three_clients :: "nat RPCClient list" where
  "three_clients = map (\<lambda>a. make_client \<lparr>conf_network = ''tcp'', conf_address = a, conf_servicePath = ''s'',
     conf_dialTimeout = 0\<rparr> \<lparr>pieces = [], cend = EOF\<rparr>) [''a'', ''b'', ''c'']"

theorem round_robin_fair_witness:
  "\<exists>is. picks three_clients 7 3 = Some (map Some is) \<and> distinct is \<and> set is = {0..<3}"
proof -
  have "\<forall>r \<in> set three_clients. status r = ConnAvailable" "three_clients \<noteq> []" "length three_clients = 3"
    by (simp_all add: three_clients_def make_client_def)
  then show ?thesis using round_robin_fair [of three_clients 7] by simp
qed

lemma delNode_distinct:
  assumes "distinct (map (\<lambda>r. (servicePath r, address r)) (cachedClient c))"
  shows "delNode info c = Some (c\<lparr>cachedClient := filter (\<lambda>r. \<not> same_node info r) (cachedClient c)\<rparr>)"
proof (cases "\<exists>m < length (cachedClient c). same_node info (cachedClient c ! m)")
  case True
  then obtain m where m: "m < length (cachedClient c)" "same_node info (cachedClient c ! m)" by blast
  have unique: "\<forall>j < length (cachedClient c). j \<noteq> m \<longrightarrow> \<not> same_node info (cachedClient c ! j)"
    using m nth_eq_iff_index_eq [OF assms, of _ m] by (auto simp: same_node_def)
  show ?thesis
    using del_loop_unique [of m "cachedClient c" "same_node info", OF m unique]
      filter_remove_nth [of m "cachedClient c" "same_node info", OF m unique]
    by (auto simp: delNode_def Let_def)
next
  case False
  then have "del_loop (same_node info) 0 (length (cachedClient c) + 0) (length (cachedClient c)) (cachedClient c) =
      del_loop (same_node info) (0 + length (cachedClient c)) 0 (length (cachedClient c)) (cachedClient c)"
    by (intro del_loop_skip) auto
  moreover have "filter (\<lambda>r. \<not> same_node info r) (cachedClient c) = cachedClient c"
    using False by (auto simp: filter_id_conv in_set_conv_nth)
  ultimately show ?thesis by (simp add: delNode_def Let_def)
qed

text \<open>Deleting a node while ranging over the list removes exactly that node when the nodes are pairwise
  different, and keeps the others in order.\<close>

theorem delNode_removes_node:
  assumes "distinct (map (\<lambda>r. (servicePath r, address r)) (cachedClient c))"
  shows "delNode info c = Some (c\<lparr>cachedClient := filter (\<lambda>r. \<not> same_node info r) (cachedClient c)\<rparr>)"
  using assms by (rule delNode_distinct)

definition demo_balancer :: "(nat, unit, unit) Client" where
  "demo_balancer = \<lparr>cl_network = '''', cl_address = '''', cl_servicePath = ''s'', selectMode = RoundRobin,
     selector = Some 0, cachedClient = three_clients, subscriber = True, defaultRPCClient = None,
     cl_DialTimeout = 0, breakerConfig = None, limiterConfig = None\<rparr>"

theorem delNode_removes_node_witness:
  "map address (cachedClient (the (delNode \<lparr>si_Name = ''s'', si_Addr = ''b'', si_Network = ''tcp''\<rparr> demo_balancer)))
    = [''a'', ''c'']"
proof -
  have "ToLower ''s'' = ''s''" by (simp add: ToLower_def lower_char_def)
  then have "distinct (map (\<lambda>r. (servicePath r, address r)) (cachedClient demo_balancer))"
    by (simp add: demo_balancer_def three_clients_def make_client_def)
  from delNode_removes_node [OF this, of "\<lparr>si_Name = ''s'', si_Addr = ''b'', si_Network = ''tcp''\<rparr>"] show ?thesis
    using \<open>ToLower ''s'' = ''s''\<close>
    by (simp add: demo_balancer_def three_clients_def make_client_def same_node_def)
qed

text \<open>With two equal nodes at the end of the list the same deletion panics: the slice shrinks under the range.\<close>

theorem delNode_panics_on_duplicates:
  assumes "cachedClient c = rs @ [a, b]" "same_node info a" "same_node info b"
    and "\<forall>r \<in> set rs. \<not> same_node info r"
  shows "delNode info c = None"
proof -
  let ?arr = "rs @ [a, b]" and ?i = "length rs"
  have "del_loop (same_node info) 0 (?i + 2) (?i + 2) ?arr = del_loop (same_node info) (0 + ?i) 2 (?i + 2) ?arr"
    using assms(4) by (intro del_loop_skip) (auto simp: nth_append)
  then have "del_loop (same_node info) 0 (length ?arr) (length ?arr) ?arr = del_loop (same_node info) ?i (Suc (Suc 0)) (?i + 2) ?arr"
    by (simp add: numeral_2_eq_2)
  also have "\<dots> = None" using assms(2,3) by (simp add: nth_append)
  finally show ?thesis by (simp add: delNode_def Let_def assms(1))
qed

theorem delNode_panics_on_duplicates_witness:
  "delNode \<lparr>si_Name = ''s'', si_Addr = ''c'', si_Network = ''tcp''\<rparr>
     (demo_balancer\<lparr>cachedClient := take 1 three_clients @ [three_clients ! 2, three_clients ! 2]\<rparr>) = None"
proof -
  have "ToLower ''s'' = ''s''" by (simp add: ToLower_def lower_char_def)
  then show ?thesis
    by (intro delNode_panics_on_duplicates [of _ "take 1 three_clients" "three_clients ! 2" "three_clients ! 2"])
      (simp_all add: three_clients_def make_client_def same_node_def)
qed

end
