(* ===== verification/Discovery.thy ===== *)
theory Discovery
  imports Balancer "HOL-Library.Sublist"
begin

text \<open>
  Service discovery through etcd (\<^verbatim>\<open>discovery/publisher.go\<close>, \<^verbatim>\<open>discovery/subscriber.go\<close>) and the client
  that is built on it (\<^verbatim>\<open>NewDiscoveryClient\<close> of \<^verbatim>\<open>client/client.go\<close>). The etcd client is not part of the
  program: its answers are inputs, and the requests made to it are recorded. The JSON coding of a
  \<open>ServiceInfo\<close> is a parameter.
\<close>

record json_lib =
  info_Marshal :: "ServiceInfo \<Rightarrow> bytes"
  info_Unmarshal :: "bytes \<Rightarrow> goerr + ServiceInfo"

text \<open>What the documentation of \<^verbatim>\<open>encoding/json\<close> says: values come back, and the empty input is an error.\<close>

definition json_documented :: "json_lib \<Rightarrow> bool" where
  "json_documented J \<longleftrightarrow> (\<forall>info. info_Unmarshal J (info_Marshal J info) = Inr info) \<and>
     (\<exists>e. info_Unmarshal J [] = Inl e)"

section \<open>The publisher\<close>

text \<open>
  Requests to etcd: grant a lease, put a key under a lease, keep it alive, revoke it, close. A put and a revocation come with
  the error of their answer and with their fate: whether etcd has carried them out although it answered with an error.
\<close>

datatype etcd_op = GrantOp int | PutOp string bytes int "goerr option" bool | KeepAliveOp int | RevokeOp int "goerr option" bool | CloseOp

record lease_replies =
  grantReply :: "goerr + int"
  putReply :: "goerr option"
  putFate :: bool
  aliveReply :: "goerr option"

text \<open>
  \<open>stopClosed\<close> says whether \<^verbatim>\<open>stopCh\<close> is closed; \<open>ops\<close> are the requests so far. The goroutine of \<open>Register\<close>
  is about to call \<open>keepAlive\<close>, waits in the \<^verbatim>\<open>select\<close>, or has returned.
\<close>

datatype pub_phase = Keeping | Watching | PubReturned

record EtcdPublisher =
  pInfo :: "ServiceInfo option"
  stopClosed :: bool
  leaseid :: int
  ops :: "etcd_op list"
  pubPhase :: pub_phase

definition NewEtcdPublisher :: "goerr option \<Rightarrow> goerr + EtcdPublisher" where
  "NewEtcdPublisher newErr = (case newErr of
      Some err \<Rightarrow> Inl err
    | None \<Rightarrow> Inr \<lparr>pInfo = None, stopClosed = False, leaseid = 0, ops = [], pubPhase = PubReturned\<rparr>)"

definition node_key :: "ServiceInfo \<Rightarrow> string" where
  "node_key info = BaseServicesPath @ si_Name info @ ''/'' @ si_Addr info"

text \<open>\<open>keepAlive\<close>; \<open>None\<close> is the panic on a nil \<^verbatim>\<open>s.Info\<close>.\<close>

definition keepAlive :: "json_lib \<Rightarrow> lease_replies \<Rightarrow> EtcdPublisher \<Rightarrow> (goerr option \<times> EtcdPublisher) option" where
  "keepAlive J k s = (case pInfo s of
      None \<Rightarrow> None
    | Some info \<Rightarrow>
       (let s = s\<lparr>ops := ops s @ [GrantOp 10]\<rparr> in
        case grantReply k of
          Inl err \<Rightarrow> Some (Some err, s)
        | Inr ID \<Rightarrow>
           (let s = s\<lparr>ops := ops s @ [PutOp (node_key info) (info_Marshal J info) ID (putReply k) (putFate k)]\<rparr> in
            case putReply k of
              Some err \<Rightarrow> Some (Some err, s)
            | None \<Rightarrow> Some (aliveReply k, s\<lparr>leaseid := ID, ops := ops s @ [KeepAliveOp ID]\<rparr>))))"

definition revoke :: "goerr option \<Rightarrow> bool \<Rightarrow> EtcdPublisher \<Rightarrow> goerr option \<times> EtcdPublisher" where
  "revoke reply fate s = (reply, s\<lparr>ops := ops s @ [RevokeOp (leaseid s) reply fate]\<rparr>)"

text \<open>\<open>UnRegister\<close>: closing the channel a second time panics.\<close>

definition UnRegister :: "EtcdPublisher \<Rightarrow> EtcdPublisher option" where
  "UnRegister d = (if stopClosed d then None else Some (d\<lparr>stopClosed := True\<rparr>))"

text \<open>
  \<open>Register\<close> starts the loop; its rounds are steps, as \<open>UnRegister\<close> runs in another goroutine. The error of \<open>revoke\<close> is
  dropped.
\<close>

definition Register_start :: "ServiceInfo \<Rightarrow> EtcdPublisher \<Rightarrow> EtcdPublisher" where
  "Register_start info s = s\<lparr>pInfo := Some info, pubPhase := Keeping\<rparr>"

inductive pub_step :: "json_lib \<Rightarrow> EtcdPublisher \<Rightarrow> EtcdPublisher \<Rightarrow> bool" for J :: json_lib where
  keep: "pubPhase s = Keeping \<Longrightarrow> keepAlive J k s = Some (None, s') \<Longrightarrow> pub_step J s (s'\<lparr>pubPhase := Watching\<rparr>)"
| failed: "pubPhase s = Keeping \<Longrightarrow> keepAlive J k s = Some (Some err, s') \<Longrightarrow> pub_step J s (s'\<lparr>pubPhase := PubReturned\<rparr>)"
| alive: "pubPhase s = Watching \<Longrightarrow> pub_step J s s"
| lapsed: "pubPhase s = Watching \<Longrightarrow> pub_step J s (s\<lparr>pubPhase := Keeping\<rparr>)"
| stop: "pubPhase s = Watching \<Longrightarrow> stopClosed s \<Longrightarrow> revoke reply fate s = (err, s') \<Longrightarrow>
    pub_step J s (s'\<lparr>ops := ops s' @ [CloseOp], pubPhase := PubReturned\<rparr>)"
| unregister: "UnRegister s = Some s' \<Longrightarrow> pub_step J s s'"

inductive_cases pub_stepE: "pub_step J s s'"

inductive pub_reach :: "json_lib \<Rightarrow> EtcdPublisher \<Rightarrow> EtcdPublisher \<Rightarrow> bool" for J :: json_lib where
  init: "pub_reach J s s"
| step: "pub_reach J s s1 \<Longrightarrow> pub_step J s1 s2 \<Longrightarrow> pub_reach J s s2"

text \<open>
  What the requests do to the keys in etcd, as its documentation says: \<^verbatim>\<open>Put\<close> binds the key to the lease,
  \<^verbatim>\<open>Revoke\<close> deletes the keys of a lease. A request that was answered without an error was carried out, the others as their
  fate says. Leases that expire only delete more.
\<close>

definition etcd_apply :: "etcd_op \<Rightarrow> (string \<Rightarrow> (bytes \<times> int) option) \<Rightarrow> (string \<Rightarrow> (bytes \<times> int) option)" where
  "etcd_apply op store = (case op of
      PutOp k v ID err fate \<Rightarrow> if err = None \<or> fate then store(k \<mapsto> (v, ID)) else store
    | RevokeOp ID err fate \<Rightarrow>
        if err = None \<or> fate then (\<lambda>k. case store k of Some (v, i) \<Rightarrow> if i = ID then None else Some (v, i) | None \<Rightarrow> None)
        else store
    | _ \<Rightarrow> store)"

definition etcd_store :: "etcd_op list \<Rightarrow> string \<Rightarrow> (bytes \<times> int) option" where
  "etcd_store os = fold etcd_apply os Map.empty"

section \<open>The subscriber\<close>

text \<open>
  The client \<open>c\<close> is the state that \<^verbatim>\<open>addNodeFunc\<close> and \<^verbatim>\<open>delNodeFunc\<close> close over. \<open>reply\<close> is etcd's answer to
  the \<^verbatim>\<open>Get\<close> of the path: an error or the values under it.
\<close>

definition subscriber_path :: "string \<Rightarrow> string" where
  "subscriber_path serviceName = ToLower (BaseServicesPath @ serviceName @ ''/'')"

definition ValueToServiceInfo :: "json_lib \<Rightarrow> bytes \<Rightarrow> goerr + ServiceInfo" where
  "ValueToServiceInfo J v = (case info_Unmarshal J v of Inl err \<Rightarrow> Inl err | Inr info \<Rightarrow> Inr info)"

fun fetch_loop ::
  "json_lib \<Rightarrow> net_lib \<Rightarrow> (goerr \<Rightarrow> string) \<Rightarrow> bytes list \<Rightarrow> ('x, 'c, 'l) Client \<Rightarrow> goerr option \<times> ('x, 'c, 'l) Client" where
  "fetch_loop J N txt [] c = (None, c)"
| "fetch_loop J N txt (v # vs) c = (case ValueToServiceInfo J v of
      Inl err \<Rightarrow> (Some err, c)
    | Inr info \<Rightarrow> (case addNode N txt info c of (err, c) \<Rightarrow> fetch_loop J N txt vs c))"

definition FetchAllNodesInfo ::
  "json_lib \<Rightarrow> net_lib \<Rightarrow> (goerr \<Rightarrow> string) \<Rightarrow> goerr + bytes list \<Rightarrow> ('x, 'c, 'l) Client \<Rightarrow> goerr option \<times> ('x, 'c, 'l) Client" where
  "FetchAllNodesInfo J N txt reply c = (case reply of
      Inl err \<Rightarrow> (Some err, c)
    | Inr vs \<Rightarrow> fetch_loop J N txt vs c)"

text \<open>
  \<open>WatchNodes\<close>: a value that does not parse is logged and skipped; \<open>None\<close> is the panic in \<open>delNodeFunc\<close>. The code takes the
  value of either kind of event, and so does the model; what etcd sends for a deletion, an empty value, is the hypothesis of
  \<open>nodes_never_removed\<close>.
\<close>

datatype node_event = EventTypePut bytes | EventTypeDelete bytes

definition watch_event ::
  "json_lib \<Rightarrow> net_lib \<Rightarrow> (goerr \<Rightarrow> string) \<Rightarrow> node_event \<Rightarrow> ('x, 'c, 'l) Client \<Rightarrow> ('x, 'c, 'l) Client option" where
  "watch_event J N txt ev c = (case ev of
      EventTypePut v \<Rightarrow> (case ValueToServiceInfo J v of
          Inl err \<Rightarrow> Some c
        | Inr info \<Rightarrow> Some (snd (addNode N txt info c)))
    | EventTypeDelete v \<Rightarrow> (case ValueToServiceInfo J v of
          Inl err \<Rightarrow> Some c
        | Inr info \<Rightarrow> delNode info c))"

fun WatchNodes ::
  "json_lib \<Rightarrow> net_lib \<Rightarrow> (goerr \<Rightarrow> string) \<Rightarrow> node_event list \<Rightarrow> ('x, 'c, 'l) Client \<Rightarrow> ('x, 'c, 'l) Client option" where
  "WatchNodes J N txt [] c = Some c"
| "WatchNodes J N txt (ev # evs) c = (case watch_event J N txt ev c of
      None \<Rightarrow> None
    | Some c \<Rightarrow> WatchNodes J N txt evs c)"

text \<open>
  \<open>NewEtcdSubscriber\<close>: \<open>None\<close> is the panic when the etcd client cannot be made, \<open>False\<close> the nil subscriber.
  What it adds to the client stays there also where it fails.
\<close>

definition NewEtcdSubscriber ::
  "json_lib \<Rightarrow> net_lib \<Rightarrow> (goerr \<Rightarrow> string) \<Rightarrow> goerr option \<Rightarrow> goerr + bytes list \<Rightarrow> ('x, 'c, 'l) Client
     \<Rightarrow> (bool \<times> ('x, 'c, 'l) Client) option" where
  "NewEtcdSubscriber J N txt newErr reply c = (case newErr of
      Some err \<Rightarrow> None
    | None \<Rightarrow> (case FetchAllNodesInfo J N txt reply c of
         (Some err, c) \<Rightarrow> Some (False, c)
       | (None, c) \<Rightarrow> Some (True, c)))"

text \<open>The options are applied last, after the nodes were dialled.\<close>

definition NewDiscoveryClient ::
  "json_lib \<Rightarrow> net_lib \<Rightarrow> (goerr \<Rightarrow> string) \<Rightarrow> goerr option \<Rightarrow> goerr + bytes list \<Rightarrow> string
     \<Rightarrow> ('c, 'l) ClientOption list \<Rightarrow> ('x, 'c, 'l) Client option" where
  "NewDiscoveryClient J N txt newErr reply serviceName opts =
    (case NewEtcdSubscriber J N txt newErr reply
         \<lparr>cl_network = '''', cl_address = '''', cl_servicePath = ToLower serviceName,
          selectMode = RoundRobin, selector = Some NewRoundRobinSelector, cachedClient = [], subscriber = False,
          defaultRPCClient = None, cl_DialTimeout = 0, breakerConfig = None, limiterConfig = None\<rparr> of
       None \<Rightarrow> None
     | Some (sub, c) \<Rightarrow>
        (let c = c\<lparr>subscriber := sub\<rparr> in
         if \<not> sub then None else apply_client_options opts c))"

section \<open>The publisher's key\<close>

text \<open>The shape of the publisher's state: the only key it ever binds is the one of its node.\<close>

definition one_key :: "json_lib \<Rightarrow> ServiceInfo \<Rightarrow> int \<Rightarrow> string \<Rightarrow> (bytes \<times> int) option" where
  "one_key J info ID = [node_key info \<mapsto> (info_Marshal J info, ID)]"

definition pub_inv :: "json_lib \<Rightarrow> ServiceInfo \<Rightarrow> EtcdPublisher \<Rightarrow> bool" where
  "pub_inv J info s \<longleftrightarrow> pInfo s = Some info \<and>
     (etcd_store (ops s) = Map.empty \<or> (\<exists>ID. etcd_store (ops s) = one_key J info ID)) \<and>
     (case pubPhase s of
        Watching \<Rightarrow> etcd_store (ops s) = one_key J info (leaseid s) \<and> CloseOp \<notin> set (ops s)
      | Keeping \<Rightarrow> CloseOp \<notin> set (ops s)
      | PubReturned \<Rightarrow> CloseOp \<in> set (ops s) \<longrightarrow>
          (\<exists>os err fate. ops s = os @ [RevokeOp (leaseid s) err fate, CloseOp] \<and>
             etcd_store (ops s) = (if err = None \<or> fate then Map.empty else one_key J info (leaseid s))))"

lemma etcd_store_append [simp]: "etcd_store (os @ xs) = fold etcd_apply xs (etcd_store os)"
  by (simp add: etcd_store_def)

lemma etcd_apply_simps [simp]:
  "etcd_apply (GrantOp t) store = store" "etcd_apply (KeepAliveOp i) store = store" "etcd_apply CloseOp store = store"
  "etcd_apply (PutOp k v i err fate) store = (if err = None \<or> fate then store(k \<mapsto> (v, i)) else store)"
  by (simp_all add: etcd_apply_def)

lemma etcd_put_one [simp]:
  "(one_key J info i)(node_key info \<mapsto> (info_Marshal J info, ID)) = one_key J info ID"
  "Map.empty(node_key info \<mapsto> (info_Marshal J info, ID)) = one_key J info ID"
  by (simp_all add: one_key_def)

lemma etcd_revoke_one [simp]:
  "etcd_apply (RevokeOp ID err fate) (one_key J info ID) = (if err = None \<or> fate then Map.empty else one_key J info ID)"
  by (rule ext) (simp add: etcd_apply_def one_key_def del: etcd_put_one)

lemma keepAlive_inv:
  assumes "pub_inv J info s" "pubPhase s = Keeping" "keepAlive J k s = Some (e, s')"
  shows "pInfo s' = Some info \<and> CloseOp \<notin> set (ops s') \<and>
    (etcd_store (ops s') = Map.empty \<or> (\<exists>ID. etcd_store (ops s') = one_key J info ID)) \<and>
    (e = None \<longrightarrow> etcd_store (ops s') = one_key J info (leaseid s'))"
  using assms
  by (auto simp: pub_inv_def keepAlive_def Let_def split: sum.splits option.splits if_splits)

declare etcd_put_one [simp del]

lemma pub_step_inv: "pub_step J s s' \<Longrightarrow> pub_inv J info s \<Longrightarrow> pub_inv J info s'"
proof (induction rule: pub_step.induct)
  case (keep s k s')
  then show ?case using keepAlive_inv [OF keep.prems keep.hyps] by (auto simp: pub_inv_def)
next
  case (failed s k err s')
  then show ?case using keepAlive_inv [OF failed.prems failed.hyps] by (simp add: pub_inv_def)
next
  case (stop s reply fate err s')
  let ?s = "s'\<lparr>ops := ops s' @ [CloseOp], pubPhase := PubReturned\<rparr>"
  have w: "pInfo s = Some info" "etcd_store (ops s) = one_key J info (leaseid s)"
    using stop.prems stop.hyps(1) by (simp_all add: pub_inv_def)
  have s': "s' = s\<lparr>ops := ops s @ [RevokeOp (leaseid s) reply fate]\<rparr>" using stop.hyps(3) by (auto simp: revoke_def)
  have "ops ?s = ops s @ [RevokeOp (leaseid ?s) reply fate, CloseOp]"
    "etcd_store (ops ?s) = (if reply = None \<or> fate then Map.empty else one_key J info (leaseid ?s))"
    using w by (simp_all add: s')
  moreover from this(2) have "etcd_store (ops ?s) = Map.empty \<or> (\<exists>ID. etcd_store (ops ?s) = one_key J info ID)"
    by (simp only: split: if_split) blast
  moreover have "pInfo ?s = Some info" "pubPhase ?s = PubReturned" using w by (simp_all add: s')
  ultimately show ?case unfolding pub_inv_def by (simp only: pub_phase.case) blast
next
  case (unregister s s')
  then have "s' = s\<lparr>stopClosed := True\<rparr>" by (simp add: UnRegister_def split: if_splits)
  then have "pub_inv J info s' = pub_inv J info s" by (cases s) (simp only: pub_inv_def EtcdPublisher.simps)
  then show ?case using unregister.prems by simp
qed (auto simp: pub_inv_def)

lemma pub_reach_inv: "pub_reach J s s' \<Longrightarrow> pub_inv J info s \<Longrightarrow> pub_inv J info s'"
  by (induction rule: pub_reach.induct) (auto dest: pub_step_inv)

section \<open>What the client knows of the nodes\<close>

lemma NewRPCClient_fields:
  "NewRPCClient N txt conf = Inr r \<Longrightarrow> servicePath r = ToLower (conf_servicePath conf) \<and> address r = conf_address conf"
  by (auto simp: NewRPCClient_def make_client_def split: if_splits sum.splits)

definition node_conf :: "ServiceInfo \<Rightarrow> ('x, 'c, 'l) Client \<Rightarrow> RPCClientConfig" where
  "node_conf info c = \<lparr>conf_network = si_Network info, conf_address = si_Addr info,
     conf_servicePath = si_Name info, conf_dialTimeout = cl_DialTimeout c\<rparr>"

text \<open>Adding a node appends at most one client.\<close>

lemma addNode_cases:
  obtains (same) "snd (addNode N txt info c) = c"
      "list_ex (same_node info) (cachedClient c) \<or> (\<exists>e. NewRPCClient N txt (node_conf info c) = (Inl e :: goerr + 'x RPCClient))"
  | (new) r :: "'x RPCClient" where "snd (addNode N txt info c) = c\<lparr>cachedClient := cachedClient c @ [r]\<rparr>"
      "NewRPCClient N txt (node_conf info c) = Inr r" "\<not> list_ex (same_node info) (cachedClient c)"
  by (cases "list_ex (same_node info) (cachedClient c)";
      cases "NewRPCClient N txt (node_conf info c) :: goerr + 'x RPCClient")
    (auto simp: addNode_def node_conf_def Let_def)

lemma addNode_appends:
  "\<exists>rs. cachedClient (snd (addNode N txt info c)) = cachedClient c @ rs \<and>
     cl_DialTimeout (snd (addNode N txt info c)) = cl_DialTimeout c"
  by (cases rule: addNode_cases [of N "txt" info c]) auto

definition nodes_distinct :: "('x, 'c, 'l) Client \<Rightarrow> bool" where
  "nodes_distinct c \<longleftrightarrow> distinct (map (\<lambda>r. (servicePath r, address r)) (cachedClient c))"

definition lower_named :: "json_lib \<Rightarrow> bytes \<Rightarrow> bool" where
  "lower_named J v \<longleftrightarrow> (\<forall>info. info_Unmarshal J v = Inr info \<longrightarrow> ToLower (si_Name info) = si_Name info)"

lemma addNode_distinct:
  assumes "nodes_distinct c" "ToLower (si_Name info) = si_Name info"
  shows "nodes_distinct (snd (addNode N txt info c))"
proof (cases rule: addNode_cases [of N "txt" info c])
  case (new r)
  have "servicePath r = si_Name info" "address r = si_Addr info"
    using NewRPCClient_fields [OF new(2)] assms(2) by (simp_all add: node_conf_def)
  then show ?thesis using assms(1) new(1,3) by (auto simp: nodes_distinct_def same_node_def list_ex_iff)
qed (use assms in simp)

lemma fetch_loop_distinct:
  "nodes_distinct c \<Longrightarrow> \<forall>v \<in> set vs. lower_named J v \<Longrightarrow> nodes_distinct (snd (fetch_loop J N txt vs c))"
proof (induction vs arbitrary: c)
  case (Cons v vs)
  show ?case
  proof (cases "info_Unmarshal J v")
    case (Inr info)
    obtain e c1 where a: "addNode N txt info c = (e, c1)" by fastforce
    have "nodes_distinct c1" using addNode_distinct [of c info N "txt"] Cons.prems Inr a by (simp add: lower_named_def)
    then show ?thesis using Cons Inr a by (simp add: ValueToServiceInfo_def)
  qed (use Cons.prems in \<open>simp add: ValueToServiceInfo_def\<close>)
qed simp

lemma apply_client_options_nodes:
  "apply_client_options opts c = Some c' \<Longrightarrow> cachedClient c' = cachedClient c"
proof (induction opts arbitrary: c)
  case (Cons opt opts)
  then show ?case
    by (cases opt) (auto simp: apply_client_option_def Let_def split: option.splits if_splits)
qed simp

lemma NewDiscoveryClient_nodes:
  fixes c :: "('x, 'c, 'l) Client"
  assumes "NewDiscoveryClient J N txt newErr (Inr vs) sn opts = Some c" "\<forall>v \<in> set vs. lower_named J v"
  shows "nodes_distinct c"
proof -
  define c0 :: "('x, 'c, 'l) Client" where "c0 = \<lparr>cl_network = '''', cl_address = '''', cl_servicePath = ToLower sn, selectMode = RoundRobin,
    selector = Some NewRoundRobinSelector, cachedClient = [], subscriber = False, defaultRPCClient = None,
    cl_DialTimeout = 0, breakerConfig = None, limiterConfig = None\<rparr>"
  obtain e c1 where f: "fetch_loop J N txt vs c0 = (e, c1)" by fastforce
  have "nodes_distinct c1"
    using fetch_loop_distinct [of c0 vs J N "txt"] assms(2) f by (simp add: nodes_distinct_def c0_def)
  then show ?thesis using assms(1) f
    by (auto simp: c0_def NewDiscoveryClient_def NewEtcdSubscriber_def FetchAllNodesInfo_def Let_def nodes_distinct_def
        split: option.splits if_splits dest!: apply_client_options_nodes)
qed

lemma watch_event_distinct:
  assumes "nodes_distinct c" "\<forall>v. ev = EventTypePut v \<or> ev = EventTypeDelete v \<longrightarrow> lower_named J v"
  shows "\<exists>c'. watch_event J N txt ev c = Some c' \<and> nodes_distinct c'"
proof (cases ev)
  case (EventTypePut v)
  then show ?thesis using assms addNode_distinct [OF assms(1)]
    by (auto simp: watch_event_def ValueToServiceInfo_def lower_named_def split: sum.splits)
next
  case (EventTypeDelete v)
  have "distinct (map (\<lambda>r. (servicePath r, address r)) (filter P (cachedClient c)))" for P
    using assms(1) by (simp add: nodes_distinct_def distinct_map_filter)
  then show ?thesis using EventTypeDelete assms(1) delNode_distinct [of c]
    by (auto simp: watch_event_def ValueToServiceInfo_def nodes_distinct_def split: sum.splits)
qed

lemma WatchNodes_distinct:
  "nodes_distinct c \<Longrightarrow> \<forall>v. EventTypePut v \<in> set evs \<or> EventTypeDelete v \<in> set evs \<longrightarrow> lower_named J v \<Longrightarrow>
   \<exists>c'. WatchNodes J N txt evs c = Some c' \<and> nodes_distinct c'"
proof (induction evs arbitrary: c)
  case (Cons ev evs)
  obtain c1 where c1: "watch_event J N txt ev c = Some c1" "nodes_distinct c1"
    using watch_event_distinct [OF Cons.prems(1), of ev J N "txt"] Cons.prems(2) by auto
  with Cons.IH [OF c1(2)] Cons.prems(2) show ?case by auto
qed simp

section \<open>Finding a published node\<close>

lemma addNode_found:
  fixes c :: "('x, 'c, 'l) Client"
  assumes "ToLower (si_Name info) = si_Name info" "NewRPCClient N txt (node_conf info c) = Inr (r :: 'x RPCClient)"
  shows "list_ex (same_node info) (cachedClient (snd (addNode N txt info c)))"
proof (cases rule: addNode_cases [of N "txt" info c])
  case (new r)
  then show ?thesis using NewRPCClient_fields [OF new(2)] assms(1)
    by (simp add: node_conf_def same_node_def)
qed (use assms(2) in auto)

lemma fetch_loop_keeps:
  "list_ex P (cachedClient c) \<Longrightarrow> list_ex P (cachedClient (snd (fetch_loop J N txt vs c)))"
proof (induction vs arbitrary: c)
  case (Cons v vs)
  show ?case
  proof (cases "info_Unmarshal J v")
    case (Inr info)
    obtain e c1 where a: "addNode N txt info c = (e, c1)" by fastforce
    then have "list_ex P (cachedClient c1)"
      using addNode_appends [of N "txt" info c] Cons.prems by auto
    then show ?thesis using Cons.IH Inr a by (simp add: ValueToServiceInfo_def)
  qed (use Cons.prems in \<open>simp add: ValueToServiceInfo_def\<close>)
qed simp

lemma fetch_loop_finds:
  fixes c :: "('x, 'c, 'l) Client"
  assumes "v \<in> set vs" "info_Unmarshal J v = Inr info" "\<forall>v \<in> set vs. \<exists>i. info_Unmarshal J v = Inr i"
    and "ToLower (si_Name info) = si_Name info" "NewRPCClient N txt (node_conf info c) = Inr (r :: 'x RPCClient)"
  shows "list_ex (same_node info) (cachedClient (snd (fetch_loop J N txt vs c)))"
  using assms
proof (induction vs arbitrary: c)
  case (Cons w vs)
  obtain i where i: "info_Unmarshal J w = Inr i" using Cons.prems(3) by auto
  obtain e c1 where a: "addNode N txt i c = (e, c1)" by fastforce
  show ?case
  proof (cases "v = w")
    case True
    then have "i = info" using i Cons.prems(2) by simp
    then have "list_ex (same_node info) (cachedClient c1)"
      using addNode_found [OF Cons.prems(4,5)] a by simp
    then show ?thesis using i a by (simp add: ValueToServiceInfo_def fetch_loop_keeps)
  next
    case False
    have "cl_DialTimeout c1 = cl_DialTimeout c" using addNode_appends [of N "txt" i c] a by auto
    then have "node_conf info c1 = node_conf info c" by (simp add: node_conf_def)
    then show ?thesis using Cons.IH [of c1] Cons.prems False i a by (simp add: ValueToServiceInfo_def)
  qed
qed simp

lemma fetch_loop_ok:
  "\<forall>v \<in> set vs. \<exists>i. info_Unmarshal J v = Inr i \<Longrightarrow> fst (fetch_loop J N txt vs c) = None"
  by (induction vs arbitrary: c) (auto simp: ValueToServiceInfo_def split: prod.splits)

lemma path_prefix:
  assumes "si_Name info = ToLower sn"
  shows "\<exists>addr. node_key info = subscriber_path sn @ addr"
  using assms by (simp add: node_key_def subscriber_path_def ToLower_append BaseServicesPath_def ToLower_def
      lower_char_def char_of_def bit_0)

section \<open>Properties\<close>

text \<open>C19. The publisher's key lives as long as its registration: in every state of the goroutine, whatever etcd answers and
  whenever \<open>UnRegister\<close> comes, etcd holds nothing of this server but its node's key with the node's description (leases that
  run out, which only take keys away, are left aside). While the goroutine waits in the \<^verbatim>\<open>select\<close> the key is there, under the current lease. When it has stopped because of \<open>UnRegister\<close> its
  last request before closing was to revoke that lease, and the key is gone if etcd has carried this out, which it has if it
  answered without an error; otherwise, as the error is dropped, the key stays until the lease runs out.\<close>

theorem publisher_key_lifetime:
  assumes "NewEtcdPublisher None = Inr p" "pub_reach J (Register_start info p) s"
  shows "(\<forall>k v ID. etcd_store (ops s) k = Some (v, ID) \<longrightarrow> k = node_key info \<and> v = info_Marshal J info) \<and>
    (pubPhase s = Watching \<longrightarrow> etcd_store (ops s) = [node_key info \<mapsto> (info_Marshal J info, leaseid s)]) \<and>
    (CloseOp \<in> set (ops s) \<longrightarrow> pubPhase s = PubReturned \<and>
      (\<exists>os err fate. ops s = os @ [RevokeOp (leaseid s) err fate, CloseOp] \<and>
        etcd_store (ops s) = (if err = None \<or> fate then Map.empty else [node_key info \<mapsto> (info_Marshal J info, leaseid s)])))"
proof -
  have "pub_inv J info (Register_start info p)"
    using assms(1) by (auto simp: NewEtcdPublisher_def Register_start_def pub_inv_def etcd_store_def)
  note inv = pub_reach_inv [OF assms(2) this]
  have "k = node_key info \<and> v = info_Marshal J info" if "etcd_store (ops s) k = Some (v, ID)" for k v ID
    using inv that by (auto simp: pub_inv_def one_key_def split: if_splits)
  moreover have "pubPhase s = Watching \<longrightarrow> etcd_store (ops s) = one_key J info (leaseid s)"
    using inv by (cases "pubPhase s") (simp_all add: pub_inv_def)
  moreover have "CloseOp \<in> set (ops s) \<longrightarrow> pubPhase s = PubReturned \<and>
      (\<exists>os err fate. ops s = os @ [RevokeOp (leaseid s) err fate, CloseOp] \<and>
        etcd_store (ops s) = (if err = None \<or> fate then Map.empty else one_key J info (leaseid s)))"
    using inv by (cases "pubPhase s") (simp_all add: pub_inv_def)
  ultimately show ?thesis unfolding one_key_def by blast
qed

text \<open>A coding of nodes that has the documented laws, for the examples.\<close>

fun demo_put :: "bytes \<Rightarrow> bytes" where
  "demo_put [] = [0]"
| "demo_put (b # bs) = 1 # b # demo_put bs"

fun demo_get :: "bytes \<Rightarrow> (bytes \<times> bytes) option" where
  "demo_get [] = None"
| "demo_get (x # r) = (if x = 0 then Some ([], r) else case r of
      [] \<Rightarrow> None
    | b # r \<Rightarrow> map_option (\<lambda>(bs, r). (b # bs, r)) (demo_get r))"

lemma demo_get_put [simp]: "demo_get (demo_put bs @ r) = Some (bs, r)"
  by (induction bs) auto

definition demo_json :: json_lib where
  "demo_json = \<lparr>info_Marshal = (\<lambda>info. demo_put (StringToSliceByte (si_Name info)) @
       demo_put (StringToSliceByte (si_Addr info)) @ demo_put (StringToSliceByte (si_Network info))),
     info_Unmarshal = (\<lambda>v. case demo_get v of None \<Rightarrow> Inl EOF | Some (n, v) \<Rightarrow>
       (case demo_get v of None \<Rightarrow> Inl EOF | Some (a, v) \<Rightarrow>
         (case demo_get v of None \<Rightarrow> Inl EOF | Some (w, v) \<Rightarrow>
           Inr \<lparr>si_Name = SliceByteToString n, si_Addr = SliceByteToString a, si_Network = SliceByteToString w\<rparr>)))\<rparr>"

lemma demo_json_documented: "json_documented demo_json"
proof -
  have "demo_get (demo_put bs) = Some (bs, [])" for bs using demo_get_put [of bs "[]"] by simp
  then show ?thesis by (simp add: json_documented_def demo_json_def)
qed

text \<open>A network on which dialling works, a node, and its publisher after one round.\<close>

definition demo_net :: net_lib where
  "demo_net = \<lparr>net_DialTimeout = (\<lambda>_ _ _. Inr \<lparr>pieces = [], cend = EOF\<rparr>), net_Dial = (\<lambda>_ _. Inr \<lparr>pieces = [], cend = EOF\<rparr>),
     http_ReadResponse = (\<lambda>_ _. Inl EOF)\<rparr>"

definition demo_node :: ServiceInfo where
  "demo_node = \<lparr>si_Name = ''arith'', si_Addr = ''a:1'', si_Network = ''tcp''\<rparr>"

definition demo_publisher :: EtcdPublisher where
  "demo_publisher = \<lparr>pInfo = Some demo_node, stopClosed = False, leaseid = 5,
     ops = [GrantOp 10, PutOp (node_key demo_node) (info_Marshal demo_json demo_node) 5 None True, KeepAliveOp 5], pubPhase = Watching\<rparr>"

lemma demo_publisher_reach:
  "pub_reach demo_json (Register_start demo_node \<lparr>pInfo = None, stopClosed = False, leaseid = 0, ops = [], pubPhase = PubReturned\<rparr>)
     demo_publisher"
proof -
  let ?s = "Register_start demo_node \<lparr>pInfo = None, stopClosed = False, leaseid = 0, ops = [], pubPhase = PubReturned\<rparr>"
  have "keepAlive demo_json \<lparr>grantReply = Inr 5, putReply = None, putFate = True, aliveReply = None\<rparr> ?s =
      Some (None, demo_publisher\<lparr>pubPhase := Keeping\<rparr>)"
    by (simp add: keepAlive_def Register_start_def demo_publisher_def)
  from pub_step.keep [OF _ this] have "pub_step demo_json ?s demo_publisher"
    by (simp add: Register_start_def demo_publisher_def)
  with pub_reach.init show ?thesis by (rule pub_reach.step)
qed

text \<open>The witness: the server unregisters and etcd does not carry the revocation out.\<close>

definition demo_stopped :: EtcdPublisher where
  "demo_stopped = demo_publisher\<lparr>stopClosed := True, pubPhase := PubReturned,
     ops := ops demo_publisher @ [RevokeOp 5 (Some EOF) False, CloseOp]\<rparr>"

lemma demo_stopped_reach:
  "pub_reach demo_json (Register_start demo_node \<lparr>pInfo = None, stopClosed = False, leaseid = 0, ops = [], pubPhase = PubReturned\<rparr>)
     demo_stopped"
proof -
  let ?s = "demo_publisher\<lparr>stopClosed := True\<rparr>"
  have "UnRegister demo_publisher = Some ?s" by (simp add: UnRegister_def demo_publisher_def)
  then have u: "pub_step demo_json demo_publisher ?s" by (rule pub_step.unregister)
  obtain err s' where r: "revoke (Some EOF) False ?s = (err, s')" by fastforce
  have "pubPhase ?s = Watching" "stopClosed ?s" by (simp_all add: demo_publisher_def)
  from pub_step.stop [OF this r, of demo_json] have "pub_step demo_json ?s demo_stopped"
    using r by (auto simp: revoke_def demo_stopped_def demo_publisher_def)
  then show ?thesis using pub_reach.step [OF pub_reach.step [OF demo_publisher_reach u]] by blast
qed

theorem publisher_key_lifetime_witness:
  "etcd_store (ops demo_stopped) = [''services/arith/a:1'' \<mapsto> (info_Marshal demo_json demo_node, 5)]"
  using publisher_key_lifetime [OF _ demo_stopped_reach]
  by (auto simp: NewEtcdPublisher_def demo_stopped_def demo_publisher_def node_key_def demo_node_def BaseServicesPath_def)

text \<open>C16. Discovery works end to end: while a server's publisher waits, a discovery client of the service, whatever
  the case in which it writes the name, watches a path that contains the server's key, and if etcd's answer holds
  the values under that path, all of them readable, and the node can be dialled, the client knows the node afterwards.\<close>

theorem published_node_discovered:
  fixes c :: "('x, 'c, 'l) Client"
  assumes pub: "NewEtcdPublisher None = Inr p" "pub_reach J (Register_start info p) s" "pubPhase s = Watching"
    and name: "si_Name info = ToLower sn" and json: "json_documented J"
    and etcd: "store (node_key info) = etcd_store (ops s) (node_key info)"
      "set vs = {v. \<exists>k ID. prefix (subscriber_path sn) k \<and> store k = Some (v, ID)}"
    and readable: "\<forall>v \<in> set vs. \<exists>i. info_Unmarshal J v = Inr i"
    and dial: "NewRPCClient N txt \<lparr>conf_network = si_Network info, conf_address = si_Addr info,
      conf_servicePath = si_Name info, conf_dialTimeout = cl_DialTimeout c\<rparr> = Inr (r :: 'x RPCClient)"
  shows "\<exists>c'. FetchAllNodesInfo J N txt (Inr vs) c = (None, c') \<and>
    (\<exists>r \<in> set (cachedClient c'). servicePath r = si_Name info \<and> address r = si_Addr info)"
proof -
  have "pub_inv J info (Register_start info p)"
    using pub(1) by (auto simp: NewEtcdPublisher_def Register_start_def pub_inv_def etcd_store_def)
  with pub_reach_inv [OF pub(2) this] have "store (node_key info) = Some (info_Marshal J info, leaseid s)"
    using pub(3) etcd(1) by (simp add: pub_inv_def one_key_def)
  moreover have "prefix (subscriber_path sn) (node_key info)"
    using path_prefix [OF name] by (auto simp: prefix_def)
  ultimately have v: "info_Marshal J info \<in> set vs" using etcd(2) by auto
  have inv: "info_Unmarshal J (info_Marshal J info) = Inr info" using json by (simp add: json_documented_def)
  have low: "ToLower (si_Name info) = si_Name info" using name by (simp add: ToLower_idem)
  have "NewRPCClient N txt (node_conf info c) = Inr r" using dial by (simp add: node_conf_def)
  then have "list_ex (same_node info) (cachedClient (snd (fetch_loop J N txt vs c)))"
    by (rule fetch_loop_finds [OF v inv readable low])
  moreover have "fst (fetch_loop J N txt vs c) = None" using readable fetch_loop_ok by blast
  ultimately show ?thesis
    by (cases "fetch_loop J N txt vs c") (auto simp: FetchAllNodesInfo_def list_ex_iff same_node_def)
qed

definition demo_store :: "string \<Rightarrow> (bytes \<times> int) option" where
  "demo_store = [''services/arith/a:1'' \<mapsto> (info_Marshal demo_json demo_node, 5)]"

definition demo_discovery :: "(nat, unit, unit) Client" where
  "demo_discovery = demo_balancer\<lparr>cachedClient := []\<rparr>"

lemma demo_node_key: "node_key demo_node = ''services/arith/a:1''"
  by (simp add: node_key_def demo_node_def BaseServicesPath_def)

lemma demo_path: "subscriber_path ''Arith'' = ''services/arith/''" "ToLower ''Arith'' = ''arith''"
  by (simp_all add: subscriber_path_def ToLower_def lower_char_def BaseServicesPath_def char_of_def bit_0)

theorem published_node_discovered_witness:
  "\<exists>c'. FetchAllNodesInfo demo_json demo_net (\<lambda>_. '''') (Inr [info_Marshal demo_json demo_node]) demo_discovery = (None, c') \<and>
    (\<exists>r \<in> set (cachedClient c'). servicePath r = ''arith'' \<and> address r = ''a:1'')"
proof -
  let ?r = "make_client \<lparr>conf_network = ''tcp'', conf_address = ''a:1'', conf_servicePath = ''arith'', conf_dialTimeout = 0\<rparr>
    \<lparr>pieces = [], cend = EOF\<rparr> :: nat RPCClient"
  have vs: "set [info_Marshal demo_json demo_node] =
      {v. \<exists>k ID. prefix (subscriber_path ''Arith'') k \<and> demo_store k = Some (v, ID)}"
    by (auto simp: demo_store_def demo_path split: if_splits)
  have read: "\<forall>v \<in> set [info_Marshal demo_json demo_node]. \<exists>i. info_Unmarshal demo_json v = Inr i"
    using demo_json_documented by (simp add: json_documented_def)
  have dial: "NewRPCClient demo_net (\<lambda>_. '''') \<lparr>conf_network = si_Network demo_node, conf_address = si_Addr demo_node,
      conf_servicePath = si_Name demo_node, conf_dialTimeout = cl_DialTimeout demo_discovery\<rparr> = Inr ?r"
    by (simp add: NewRPCClient_def demo_node_def demo_discovery_def demo_balancer_def Dial_def demo_net_def)
  have "demo_store (node_key demo_node) = etcd_store (ops demo_publisher) (node_key demo_node)"
    by (simp add: demo_store_def demo_node_key demo_publisher_def etcd_store_def)
  from published_node_discovered [OF _ demo_publisher_reach _ _ demo_json_documented this vs read dial] show ?thesis
    by (simp add: NewEtcdPublisher_def demo_publisher_def demo_node_def demo_path)
qed

text \<open>As long as nodes are registered under names in lower case, as servers do, the discovery client never holds
  a node twice, whatever it is told and in whatever order, and its watching goroutine never panics.\<close>

theorem discovered_nodes_distinct:
  assumes "NewDiscoveryClient J N txt newErr (Inr vs) sn opts = Some c"
    and "\<forall>v. v \<in> set vs \<or> EventTypePut v \<in> set evs \<or> EventTypeDelete v \<in> set evs \<longrightarrow>
      (\<forall>info. info_Unmarshal J v = Inr info \<longrightarrow> ToLower (si_Name info) = si_Name info)"
  shows "\<exists>c'. WatchNodes J N txt evs c = Some c' \<and> distinct (map (\<lambda>r. (servicePath r, address r)) (cachedClient c'))"
proof -
  have "nodes_distinct c" using NewDiscoveryClient_nodes [OF assms(1)] assms(2) by (simp add: lower_named_def)
  from WatchNodes_distinct [OF this, of evs J N "txt"] assms(2) show ?thesis
    by (auto simp: lower_named_def nodes_distinct_def)
qed

lemma demo_NewDiscoveryClient:
  "NewDiscoveryClient demo_json demo_net (\<lambda>_. '''') None (Inr []) ''Arith'' [] =
   Some (demo_discovery\<lparr>cl_servicePath := ''arith''\<rparr>)"
  by (simp add: NewDiscoveryClient_def NewEtcdSubscriber_def FetchAllNodesInfo_def demo_path demo_discovery_def
      demo_balancer_def NewRoundRobinSelector_def)

theorem discovered_nodes_distinct_witness:
  "\<exists>c'. WatchNodes demo_json demo_net (\<lambda>_. '''') [EventTypeDelete []] (demo_discovery\<lparr>cl_servicePath := ''arith''\<rparr>) = Some c' \<and>
     distinct (map (\<lambda>r. (servicePath r, address r)) (cachedClient c'))"
  by (rule discovered_nodes_distinct [OF demo_NewDiscoveryClient]) (simp add: demo_json_def)

text \<open>C39. A node that disappears stays in the list: etcd reports a deletion with an empty value, which is no JSON, and the
  event is dropped. So after any puts and deletions the client is the one before with further connections at the end, each to
  the address in a value that was put; whatever was deleted, every connection it had is still there to be picked.\<close>

theorem nodes_never_removed:
  fixes c :: "('x, 'c, 'l) Client"
  assumes "\<exists>e. info_Unmarshal J [] = Inl e" "\<forall>v. EventTypeDelete v \<in> set evs \<longrightarrow> v = []"
  shows "\<exists>c' rs. WatchNodes J N txt evs c = Some c' \<and> c' = c\<lparr>cachedClient := cachedClient c @ rs\<rparr> \<and>
    (\<forall>r \<in> set rs. \<exists>v info. EventTypePut v \<in> set evs \<and> info_Unmarshal J v = Inr info \<and> address r = si_Addr info)"
  using assms
proof (induction evs arbitrary: c)
  case (Cons ev evs)
  have unchanged: "\<exists>c1 rs. watch_event J N txt ev c = Some c1 \<and> c1 = c\<lparr>cachedClient := cachedClient c @ rs\<rparr> \<and> (\<forall>r \<in> set rs. P r)"
    if "watch_event J N txt ev c = Some c" for P
  proof (rule exI [of _ c], rule exI [of _ "[]"], intro conjI)
    show "c = c\<lparr>cachedClient := cachedClient c @ []\<rparr>" by (cases c) simp
  qed (use that in simp_all)
  have "\<exists>c1 rs. watch_event J N txt ev c = Some c1 \<and> c1 = c\<lparr>cachedClient := cachedClient c @ rs\<rparr> \<and>
    (\<forall>r \<in> set rs. \<exists>v info. EventTypePut v \<in> set (ev # evs) \<and> info_Unmarshal J v = Inr info \<and> address r = si_Addr info)"
  proof (cases ev)
    case (EventTypePut v)
    show ?thesis
    proof (cases "info_Unmarshal J v")
      case (Inl e)
      then have "watch_event J N txt ev c = Some c" using EventTypePut by (simp add: watch_event_def ValueToServiceInfo_def)
      then show ?thesis by (rule unchanged)
    next
      case (Inr info)
      have "\<exists>rs. snd (addNode N txt info c) = c\<lparr>cachedClient := cachedClient c @ rs\<rparr> \<and> (\<forall>r \<in> set rs. address r = si_Addr info)"
      proof (cases rule: addNode_cases [of N "txt" info c])
        case (new r)
        then show ?thesis using NewRPCClient_fields [OF new(2)] by (intro exI [of _ "[r]"]) (simp add: node_conf_def)
      qed (intro exI [of _ "[]"], simp)
      then obtain rs where rs: "snd (addNode N txt info c) = c\<lparr>cachedClient := cachedClient c @ rs\<rparr>" "\<forall>r \<in> set rs. address r = si_Addr info"
        by blast
      have step: "watch_event J N txt ev c = Some (snd (addNode N txt info c))"
        using EventTypePut Inr by (simp add: watch_event_def ValueToServiceInfo_def)
      have put: "\<exists>v info. EventTypePut v \<in> set (ev # evs) \<and> info_Unmarshal J v = Inr info \<and> address r = si_Addr info"
        if "r \<in> set rs" for r
        using EventTypePut Inr rs(2) that by (intro exI [of _ v] exI [of _ info]) simp
      show ?thesis
      proof (rule exI [of _ "snd (addNode N txt info c)"], rule exI [of _ rs], intro conjI ballI)
        show "watch_event J N txt ev c = Some (snd (addNode N txt info c))" by (rule step)
        show "snd (addNode N txt info c) = c\<lparr>cachedClient := cachedClient c @ rs\<rparr>" by (rule rs(1))
      qed (rule put)
    qed
  next
    case (EventTypeDelete v)
    have "ev \<in> set (ev # evs)" by simp
    then have "v = []" using Cons.prems(2) EventTypeDelete by blast
    moreover obtain e where "info_Unmarshal J [] = Inl e" using Cons.prems(1) by blast
    ultimately have "watch_event J N txt ev c = Some c" using EventTypeDelete by (simp add: watch_event_def ValueToServiceInfo_def)
    then show ?thesis by (rule unchanged)
  qed
  then obtain c1 rs where c1: "watch_event J N txt ev c = Some c1" "c1 = c\<lparr>cachedClient := cachedClient c @ rs\<rparr>"
    "\<forall>r \<in> set rs. \<exists>v info. EventTypePut v \<in> set (ev # evs) \<and> info_Unmarshal J v = Inr info \<and> address r = si_Addr info"
    by (elim exE conjE) (rule that)
  obtain c' rs' where c': "WatchNodes J N txt evs c1 = Some c'" "c' = c1\<lparr>cachedClient := cachedClient c1 @ rs'\<rparr>"
    "\<forall>r \<in> set rs'. \<exists>v info. EventTypePut v \<in> set evs \<and> info_Unmarshal J v = Inr info \<and> address r = si_Addr info"
    using Cons.IH [of c1] Cons.prems by auto
  have "\<forall>r \<in> set rs'. \<exists>v info. EventTypePut v \<in> set (ev # evs) \<and> info_Unmarshal J v = Inr info \<and> address r = si_Addr info"
    using c'(3) by (meson list.set_intros(2))
  then have "\<forall>r \<in> set (rs @ rs'). \<exists>v info. EventTypePut v \<in> set (ev # evs) \<and> info_Unmarshal J v = Inr info \<and> address r = si_Addr info"
    unfolding set_append ball_Un using c1(3) by simp
  moreover have "WatchNodes J N txt (ev # evs) c = Some c'" "c' = c\<lparr>cachedClient := cachedClient c @ (rs @ rs')\<rparr>"
    using c1 c' by simp_all
  ultimately show ?case by (intro exI conjI)
qed auto

theorem nodes_never_removed_witness:
  "\<exists>c' rs. WatchNodes demo_json demo_net (\<lambda>_. '''') [EventTypePut (info_Marshal demo_json demo_node), EventTypeDelete [], EventTypeDelete []]
      demo_balancer = Some c' \<and>
    cachedClient c' = three_clients @ rs \<and> (\<forall>r \<in> set rs. address r = si_Addr demo_node)"
proof -
  let ?v = "info_Marshal demo_json demo_node"
  have j: "info_Unmarshal demo_json ?v = Inr demo_node" "\<exists>e. info_Unmarshal demo_json [] = Inl e"
    using demo_json_documented by (auto simp: json_documented_def)
  have "\<forall>v. EventTypeDelete v \<in> set [EventTypePut ?v, EventTypeDelete [], EventTypeDelete []] \<longrightarrow> v = []" by simp
  from nodes_never_removed [OF j(2) this, of demo_net "\<lambda>_. ''''" demo_balancer]
  obtain c' rs where "WatchNodes demo_json demo_net (\<lambda>_. '''') [EventTypePut ?v, EventTypeDelete [], EventTypeDelete []] demo_balancer = Some c'"
    "c' = demo_balancer\<lparr>cachedClient := cachedClient demo_balancer @ rs\<rparr>" "\<forall>r \<in> set rs. address r = si_Addr demo_node"
    using j(1) by auto
  then show ?thesis by (intro exI [of _ c'] exI [of _ rs]) (simp add: demo_balancer_def)
qed

end
