(* ===== verification/ServerLife.thy ===== *)
theory ServerLife
  imports EndToEnd Discovery
begin

text \<open>
  The life of a server (\<^verbatim>\<open>server/server.go\<close>, \<^verbatim>\<open>server/options.go\<close>): its options, the start, the accept loop
  with its growing pauses, the closing, the signals, and connections that arrive through HTTP.
  The network listener, the process's signals and the HTTP server give the events; times are in
  milliseconds, the \<^verbatim>\<open>discovery\<close> of a server is the publisher of \<open>Discovery\<close>.
\<close>

section \<open>Options\<close>

record server_option =
  opt_MaxConnIdleTime :: int
  opt_JobChanSize :: int
  opt_WorkerNum :: int

definition defaultOption :: server_option where
  "defaultOption = \<lparr>opt_MaxConnIdleTime = 10, opt_JobChanSize = 50000, opt_WorkerNum = 1000\<rparr>"

text \<open>A server under construction: the server and its publisher.\<close>

type_synonym 'x server_pub = "'x server \<times> EtcdPublisher option"

datatype ServerOption = EtcdPublisherOption "goerr option" string | BasicOption server_option | GateWayOption

text \<open>The result of \<^verbatim>\<open>clientv3.New\<close> is part of the option that calls it.\<close>

definition apply_server_option :: "ServerOption \<Rightarrow> 'x server_pub \<Rightarrow> goerr + 'x server_pub" where
  "apply_server_option opt sp = (case sp of (s, pub) \<Rightarrow> (case opt of
      EtcdPublisherOption newErr advertise \<Rightarrow> (case NewEtcdPublisher newErr of
          Inl err \<Rightarrow> Inl err
        | Inr d \<Rightarrow> Inr (s\<lparr>discovery := True, advertiseUrl := advertise\<rparr>, Some d))
    | BasicOption opt \<Rightarrow>
        Inr (if opt_MaxConnIdleTime opt > 0 then s\<lparr>maxConnIdleTime := opt_MaxConnIdleTime opt\<rparr> else s, pub)
    | GateWayOption \<Rightarrow> Inr (s\<lparr>useGateWay := True\<rparr>, pub)))"

definition SetEtcdPublisher :: "goerr option \<Rightarrow> string \<Rightarrow> ServerOption" where
  "SetEtcdPublisher newErr advertise = EtcdPublisherOption newErr advertise"

definition SetBasicOption :: "server_option \<Rightarrow> ServerOption" where
  "SetBasicOption opt = BasicOption opt"

definition SetGateWayMode :: ServerOption where
  "SetGateWayMode = GateWayOption"

text \<open>\<open>NewServer\<close> panics (\<open>None\<close>) on the first option that fails.\<close>

fun apply_server_options :: "ServerOption list \<Rightarrow> 'x server_pub \<Rightarrow> 'x server_pub option" where
  "apply_server_options [] sp = Some sp"
| "apply_server_options (opt # opts) sp = (case apply_server_option opt sp of
      Inl err \<Rightarrow> None
    | Inr sp \<Rightarrow> apply_server_options opts sp)"

definition NewServer :: "ServerOption list \<Rightarrow> 'x server_pub option" where
  "NewServer opts = apply_server_options opts
     (\<lparr>serviceMap = [], maxConnIdleTime = opt_MaxConnIdleTime defaultOption, doneChan = None, discovery = False,
       sname = '''', advertiseUrl = '''', useGateWay = False\<rparr>, None)"

section \<open>The accept loop\<close>

text \<open>\<open>getDoneChan\<close> makes the channel if there is none; the result is whether it is closed.\<close>

definition getDoneChan :: "'x server \<Rightarrow> bool \<times> 'x server" where
  "getDoneChan s = (case doneChan s of
      None \<Rightarrow> (False, s\<lparr>doneChan := Some False\<rparr>)
    | Some closed \<Rightarrow> (closed, s))"

text \<open>
  What \<^verbatim>\<open>Accept\<close> returns: a connection, or an error that may be a temporary \<^verbatim>\<open>net.Error\<close>. Between two calls
  another goroutine may run \<open>Close\<close> as far as the channel.
\<close>

datatype accept_event = Accepted conn | AcceptError goerr bool | CloseSignal

definition next_delay :: "int \<Rightarrow> int" where
  "next_delay d = (let d = (if d = 0 then 5 else d * 2) in if d > 1000 then 1000 else d)"

text \<open>\<open>Close\<close> up to the channel and the publisher; \<open>None\<close> is the panic of closing a channel twice.\<close>

definition close_signal :: "'x server \<Rightarrow> 'x server option" where
  "close_signal s = (case doneChan s of
      None \<Rightarrow> Some s
    | Some closed \<Rightarrow> if closed then None else Some (s\<lparr>doneChan := Some True\<rparr>))"

definition Server_Close :: "'x server_pub \<Rightarrow> 'x server_pub option" where
  "Server_Close sp = (case sp of (s, pub) \<Rightarrow> (case close_signal s of
      None \<Rightarrow> None
    | Some s \<Rightarrow> (case pub of
        None \<Rightarrow> Some (s, None)
      | Some d \<Rightarrow> map_option (\<lambda>d. (s, Some d)) (UnRegister d))))"

text \<open>
  The loop: the error it returned with, if it has returned, its pauses, the connections it serves and the server.
  \<open>None\<close> is a panic of the other goroutine.
\<close>

definition prepend ::
  "int list \<Rightarrow> 'c list \<Rightarrow> ('r \<times> int list \<times> 'c list \<times> 's) option \<Rightarrow> ('r \<times> int list \<times> 'c list \<times> 's) option" where
  "prepend ps cs = map_option (\<lambda>(r, ps', cs', s). (r, ps @ ps', cs @ cs', s))"

fun serve_loop ::
  "'x pools \<Rightarrow> accept_event list \<Rightarrow> int \<Rightarrow> 'x server
     \<Rightarrow> (goerr option \<times> int list \<times> 'x conn_state list \<times> 'x server) option" where
  "serve_loop w [] d s = Some (None, [], [], s)"
| "serve_loop w (CloseSignal # evs) d s = (case close_signal s of
      None \<Rightarrow> None
    | Some s \<Rightarrow> serve_loop w evs d s)"
| "serve_loop w (AcceptError err temporary # evs) d s = (case getDoneChan s of (closed, s) \<Rightarrow>
      (if closed then Some (Some ErrServerClosed, [], [], s)
       else if temporary then
         prepend [next_delay d] [] (serve_loop w evs (next_delay d) s)
       else Some (Some err, [], [], s)))"
| "serve_loop w (Accepted c # evs) d s =
     prepend [] [newEasyConn c w] (serve_loop w evs 0 s)"

definition serve ::
  "'x pools \<Rightarrow> accept_event list \<Rightarrow> 'x server
     \<Rightarrow> (goerr option \<times> int list \<times> 'x conn_state list \<times> 'x server) option" where
  "serve w evs s = serve_loop w evs 0 s"

section \<open>Starting and stopping\<close>

text \<open>
  \<open>Serve\<close>: \<open>Inl\<close> is the message of \<^verbatim>\<open>log.Fatal\<close>, which ends the process; \<open>Inr\<close> the server, with its publisher
  started, that goes on to \<open>serve\<close>. \<open>listen\<close> is the error of \<^verbatim>\<open>net.Listen\<close>.
\<close>

definition Serve :: "goerr option \<Rightarrow> string \<Rightarrow> 'x server_pub \<Rightarrow> string + 'x server_pub" where
  "Serve listen nw sp = (case sp of (s, pub) \<Rightarrow> (case listen of
      Some err \<Rightarrow> Inl ''listen error:''
    | None \<Rightarrow>
       (if discovery s then
          (if sname s = '''' \<or> advertiseUrl s = '''' then Inl ''no server name or advertise client url to register ''
           else Inr (s, map_option (Register_start \<lparr>si_Name = ToLower (sname s), si_Addr = advertiseUrl s,
             si_Network = nw\<rparr>) pub))
        else Inr (s, pub))))"

datatype signal = SIGHUP | SIGINT | SIGTERM | SIGQUIT

text \<open>\<open>handleSignal\<close>: the first signal of three closes the server, and the goroutine returns.\<close>

fun handleSignal :: "signal list \<Rightarrow> 'x server_pub \<Rightarrow> (bool \<times> 'x server_pub) option" where
  "handleSignal [] sp = Some (False, sp)"
| "handleSignal (s # ss) sp =
    (if s \<in> {SIGHUP, SIGINT, SIGTERM} then map_option (\<lambda>sp. (True, sp)) (Server_Close sp)
     else handleSignal ss sp)"

text \<open>
  \<open>ServeHTTP\<close>: what goes back to an HTTP request, and the connection that is served where the request is a
  \<^verbatim>\<open>CONNECT\<close> that can be taken over (\<open>hijack\<close>).
\<close>

record http_answer =
  ans_code :: nat
  ans_type :: string
  ans_body :: string

definition ServeHTTP :: "string \<Rightarrow> goerr + conn \<Rightarrow> 'x pools \<Rightarrow> http_answer option \<times> (string \<times> 'x conn_state) option" where
  "ServeHTTP meth hijack w =
    (if meth \<noteq> ''CONNECT'' then
       (Some \<lparr>ans_code = 405, ans_type = ''text/plain; charset=utf-8'', ans_body = ''405 must CONNECT'' @ [CHR 0x0A]\<rparr>, None)
     else (case hijack of
         Inl err \<Rightarrow> (None, None)
       | Inr c \<Rightarrow> (None, Some (''HTTP/1.0 '' @ connected @ [CHR 0x0A, CHR 0x0A], newEasyConn c w))))"

section \<open>The pauses of the accept loop\<close>

definition pause :: "nat \<Rightarrow> int" where
  "pause i = min (5 * 2 ^ i) 1000"

lemma pause_bounds: "5 \<le> pause i" "pause i \<le> 1000"
  by (auto simp: pause_def)

lemma next_delay_pause: "next_delay 0 = pause 0" "next_delay (pause i) = pause (Suc i)"
  using pause_bounds(1) [of i] by (auto simp: next_delay_def pause_def min_def)

text \<open>The delay before the error number \<open>i\<close> of a run.\<close>

definition delay_before :: "nat \<Rightarrow> int" where
  "delay_before i = (case i of 0 \<Rightarrow> 0 | Suc j \<Rightarrow> pause j)"

lemma next_delay_before: "next_delay (delay_before i) = pause i" "delay_before (Suc i) = pause i"
  by (cases i; simp add: delay_before_def next_delay_pause)+

abbreviation temporary_errors :: "goerr list \<Rightarrow> accept_event list" where
  "temporary_errors es \<equiv> map (\<lambda>e. AcceptError e True) es"

lemma prepend_prepend: "prepend ps cs (prepend ps' cs' x) = prepend (ps @ ps') (cs @ cs') x"
  by (cases x) (simp_all add: prepend_def case_prod_unfold)

lemma prepend_Nil [simp]: "prepend [] [] x = x"
  by (cases x) (simp_all add: prepend_def)

lemma prepend_Some:
  "prepend ps cs x = Some (r, ps', cs', s) \<longleftrightarrow> (\<exists>ps1 cs1. x = Some (r, ps1, cs1, s) \<and> ps' = ps @ ps1 \<and> cs' = cs @ cs1)"
  by (cases x) (auto simp: prepend_def)

lemma serve_loop_errors:
  "doneChan s \<noteq> Some True \<Longrightarrow>
   serve_loop w (temporary_errors es @ evs) (delay_before i) s =
     prepend (map pause [i..<i + length es]) []
       (serve_loop w evs (delay_before (i + length es)) (if es = [] then s else snd (getDoneChan s)))"
proof (induction es arbitrary: i s)
  case (Cons e es)
  obtain s1 where s1: "getDoneChan s = (False, s1)" "doneChan s1 = Some False"
    using Cons.prems by (cases "doneChan s") (auto simp: getDoneChan_def)
  have once: "snd (getDoneChan s1) = s1" using s1(2) by (simp add: getDoneChan_def)
  have "serve_loop w (temporary_errors es @ evs) (delay_before (Suc i)) s1 =
      prepend (map pause [Suc i..<Suc i + length es]) []
        (serve_loop w evs (delay_before (Suc i + length es)) s1)"
    using Cons.IH [of s1 "Suc i"] s1(2) once by simp
  then show ?case using s1(1)
    using once by (simp add: next_delay_before upt_conv_Cons prepend_prepend del: upt_Suc)
qed simp

lemma serve_loop_pauses:
  "serve_loop w evs (delay_before i) s = Some (r, ps, cs, s') \<Longrightarrow> \<forall>p \<in> set ps. \<exists>j. p = pause j"
proof (induction evs arbitrary: i s r ps cs)
  case (Cons ev evs)
  show ?case
  proof (cases ev)
    case (Accepted c)
    then show ?thesis using Cons.IH [of 0] Cons.prems by (auto simp: delay_before_def prepend_Some)
  next
    case (AcceptError e t)
    obtain closed s1 where g: "getDoneChan s = (closed, s1)" by fastforce
    show ?thesis using Cons.IH [of "Suc i" s1] Cons.prems AcceptError g
      by (auto simp: next_delay_before prepend_Some split: if_splits)
  next
    case CloseSignal
    then show ?thesis using Cons by (auto split: option.splits)
  qed
qed auto

text \<open>What the loop serves: as long as it runs, every connection that was accepted, in order.\<close>

fun accepted :: "accept_event list \<Rightarrow> conn list" where
  "accepted [] = []"
| "accepted (Accepted c # evs) = c # accepted evs"
| "accepted (_ # evs) = accepted evs"

lemma serve_loop_serves:
  "serve_loop w evs d s = Some (None, ps, cs, s') \<Longrightarrow> cs = map (\<lambda>c. newEasyConn c w) (accepted evs)"
  by (induction w evs d s arbitrary: ps cs rule: serve_loop.induct)
    (auto simp: prepend_Some split: option.splits prod.splits if_splits)

section \<open>Properties\<close>

text \<open>C20. The accept loop backs off: on a run of temporary errors it pauses 5, 10, 20, ... milliseconds, never more than
  a second, the next connection resets the pause, and as long as the loop runs it serves every connection accepted.\<close>

theorem accept_backoff:
  assumes "doneChan s \<noteq> Some True"
  shows "serve w (temporary_errors es @ Accepted c # evs) s =
      prepend (map (\<lambda>i. min (5 * 2 ^ i) 1000) [0..<length es]) [newEasyConn c w]
        (serve w evs (if es = [] then s else snd (getDoneChan s))) \<and>
    (\<forall>evs r ps cs s s'. serve w evs s = Some (r, ps, cs, s') \<longrightarrow> (\<forall>p \<in> set ps. 5 \<le> p \<and> p \<le> 1000) \<and>
      (r = None \<longrightarrow> cs = map (\<lambda>c. newEasyConn c w) (accepted evs)))"
proof (intro conjI allI impI)
  show "serve w (temporary_errors es @ Accepted c # evs) s =
      prepend (map (\<lambda>i. min (5 * 2 ^ i) 1000) [0..<length es]) [newEasyConn c w]
        (serve w evs (if es = [] then s else snd (getDoneChan s)))"
    using serve_loop_errors [OF assms, of w es "Accepted c # evs" 0]
    by (simp add: serve_def delay_before_def prepend_prepend pause_def [abs_def])
next
  fix evs r ps cs s s'
  assume sv: "serve w evs s = Some (r, ps, cs, s')"
  then show "\<forall>p \<in> set ps. 5 \<le> p \<and> p \<le> 1000"
    using serve_loop_pauses [of w evs 0 s r ps cs s'] pause_bounds by (fastforce simp: serve_def delay_before_def)
  assume "r = None"
  then show "cs = map (\<lambda>c. newEasyConn c w) (accepted evs)"
    using serve_loop_serves sv by (auto simp: serve_def)
qed

theorem accept_backoff_witness:
  "serve demo_pools (temporary_errors [EOF, EOF, EOF] @ Accepted \<lparr>pieces = [], cend = EOF\<rparr> # [AcceptError EOF False]) empty_server =
    Some (Some EOF, [5, 10, 20], [newEasyConn \<lparr>pieces = [], cend = EOF\<rparr> demo_pools],
      empty_server\<lparr>doneChan := Some False\<rparr>)"
proof -
  have "doneChan empty_server \<noteq> Some True" by (simp add: empty_server_def)
  from conjunct1 [OF accept_backoff [OF this, of demo_pools "[EOF, EOF, EOF]" "\<lparr>pieces = [], cend = EOF\<rparr>" "[AcceptError EOF False]"]]
  show ?thesis by (simp add: serve_def getDoneChan_def empty_server_def prepend_def upt_conv_Cons next_delay_def)
qed

text \<open>Closing: the loop is told to stop only if an error of \<^verbatim>\<open>Accept\<close> came before the \<open>Close\<close>, for only that makes
  the channel; then it returns \<^verbatim>\<open>ErrServerClosed\<close> at the next error. Otherwise the \<open>Close\<close> leaves no trace in the loop.
  Closing twice panics as soon as there was a channel or a publisher.\<close>

theorem close_needs_channel:
  "(doneChan s = None \<longrightarrow> serve w (CloseSignal # evs) s = serve w evs s) \<and>
   (doneChan s = Some False \<longrightarrow> serve w (CloseSignal # map Accepted cs @ AcceptError e t # evs) s =
      Some (Some ErrServerClosed, [], map (\<lambda>c. newEasyConn c w) cs, s\<lparr>doneChan := Some True\<rparr>)) \<and>
   (Server_Close (s, pub) = Some sp \<longrightarrow> doneChan s \<noteq> None \<or> pub \<noteq> None \<longrightarrow> Server_Close sp = None)"
proof (intro conjI impI)
  show "serve w (CloseSignal # evs) s = serve w evs s" if "doneChan s = None"
    using that by (simp add: serve_def close_signal_def)
  have "serve_loop w (map Accepted cs @ AcceptError e t # evs) d s' = Some (Some ErrServerClosed, [], map (\<lambda>c. newEasyConn c w) cs, s')"
    if "doneChan s' = Some True" for d and s' :: "'a server"
    using that by (induction cs arbitrary: d) (simp_all add: getDoneChan_def prepend_def)
  then show "serve w (CloseSignal # map Accepted cs @ AcceptError e t # evs) s =
      Some (Some ErrServerClosed, [], map (\<lambda>c. newEasyConn c w) cs, s\<lparr>doneChan := Some True\<rparr>)"
    if "doneChan s = Some False"
    using that by (simp add: serve_def close_signal_def)
  show "Server_Close sp = None" if "Server_Close (s, pub) = Some sp" "doneChan s \<noteq> None \<or> pub \<noteq> None"
    using that by (auto simp: Server_Close_def close_signal_def UnRegister_def split: option.splits if_splits)
qed

theorem close_needs_channel_witness:
  "Server_Close (empty_server\<lparr>doneChan := Some True\<rparr>, None) = None \<and>
   serve demo_pools [CloseSignal, AcceptError EOF True] empty_server =
     serve demo_pools [AcceptError EOF True] empty_server"
proof -
  let ?s = "empty_server\<lparr>doneChan := Some False\<rparr>"
  have "Server_Close (?s, None) = Some (empty_server\<lparr>doneChan := Some True\<rparr>, None)"
    by (simp add: Server_Close_def close_signal_def)
  moreover have "doneChan empty_server = None" by (simp add: empty_server_def)
  ultimately show ?thesis
    using close_needs_channel [of ?s demo_pools "[]" "[]" EOF True None "(empty_server\<lparr>doneChan := Some True\<rparr>, None)"]
      close_needs_channel [of empty_server demo_pools "[AcceptError EOF True]"] by simp
qed

lemma register_sname: "register impl rcvr nm u server = (e, server') \<Longrightarrow> sname server' = (if u then nm else rName rcvr)"
  by (auto simp: register_def Let_def split: if_splits)

lemma add_option_path: "cServicePath (fst (add_option opt cv)) = cServicePath (fst cv)"
  by (cases cv) (auto simp: add_option_def apply_option_def split: CallOption.splits)

lemma fold_option_path: "cServicePath (fst (fold add_option opts cv)) = cServicePath (fst cv)"
  by (induction opts arbitrary: cv) (simp_all add: add_option_path)

lemma Go_service:
  assumes "Go now c sm args reply doneCh options client = Some (i, client')"
  shows "i = length (calls client) \<and> cServicePath (calls client' ! i) = servicePath client"
proof -
  obtain client1 where n: "new_call c sm args reply doneCh options client = Some (i, client1)"
    and c': "client' = send_register now i client1"
    using assms by (auto simp: Go_def split: option.splits)
  have "i = length (calls client) \<and> length (calls client1) = Suc i \<and> cServicePath (calls client1 ! i) = servicePath client"
    using n fold_option_path [of options "(\<lparr>cCtx = c, cServicePath = servicePath client, cServiceMethod = sm, cArgs = args,
           cReply = reply, cError = None, cDone = 0, cMetadata = None, cHeartBeat = False,
           cCompressType = NoCompress, cSerializeType = MsgPack, cSeq = 0, cAfterCalls = []\<rparr>, vars client)"]
    by (auto simp: new_call_def Let_def split: prod.splits option.splits if_splits)
  then show ?thesis
    by (auto simp: c' send_register_def fail_call_def call_done_def Let_def split: prod.splits)
qed

text \<open>C17. The names fit together: the service that a server registers last, the node it publishes when it starts, the
  client made for that node and every call of this client use the registered name in lower case, so the
  server finds the service.\<close>

theorem published_service_found:
  assumes reg: "register impl rcvr nm useName server = (None, server')"
    and start: "Serve None nw (server', Some d) = Inr (s, Some d')" "discovery server'"
    and node: "pInfo d' = Some info"
    and client: "NewRPCClient N txt \<lparr>conf_network = si_Network info, conf_address = si_Addr info,
      conf_servicePath = si_Name info, conf_dialTimeout = t\<rparr> = Inr (client :: 'y RPCClient)"
    and call: "Go now c sm args reply doneCh options client = Some (i, client')"
  shows "\<exists>svc. map_of (serviceMap s) (cServicePath (calls client' ! i)) = Some svc \<and>
    svcName svc = (if useName then nm else rName rcvr)"
proof -
  let ?n = "if useName then nm else rName rcvr"
  have sn: "sname server' = ?n" using register_sname [OF reg] .
  have "s = server'" "si_Name info = ToLower ?n"
    using start node sn by (auto simp: Serve_def Register_start_def split: if_splits)
  moreover have "cServicePath (calls client' ! i) = ToLower (si_Name info)"
    using Go_service [OF call] NewRPCClient_fields [OF client] by auto
  ultimately show ?thesis using register_Ok [OF reg]
    by (auto simp: ToLower_idem alist.look_put)
qed

definition published_server :: "nat list server" where
  "published_server = demo_server\<lparr>discovery := True, advertiseUrl := ''a:1''\<rparr>"

theorem published_service_found_witness:
  "\<exists>svc. map_of (serviceMap published_server) (cServicePath (calls demo_called ! 0)) = Some svc \<and> svcName svc = ''Arith''"
proof -
  let ?start = "empty_server\<lparr>discovery := True, advertiseUrl := ''a:1''\<rparr>"
  let ?p = "\<lparr>pInfo = None, stopClosed = False, leaseid = 0, ops = [], pubPhase = PubReturned\<rparr>"
  have low: "ToLower ''Arith'' = ''arith''" by (rule demo_path)
  have reg: "register (\<lambda>_. True) demo_receiver '''' False ?start = (None, published_server)"
    by (simp add: published_server_def demo_server_def Register_def register_def demo_receiver_def empty_server_def
        Let_def demo_suitable isExported_def)
  have start: "Serve None ''tcp'' (published_server, Some ?p) =
      Inr (published_server, Some (Register_start demo_node ?p))"
    by (simp add: Serve_def published_server_def demo_server_def Register_def register_def demo_receiver_def empty_server_def
        Let_def demo_suitable isExported_def low demo_node_def)
  have client: "NewRPCClient demo_net (\<lambda>_. '''') \<lparr>conf_network = si_Network demo_node, conf_address = si_Addr demo_node,
      conf_servicePath = si_Name demo_node, conf_dialTimeout = 0\<rparr> = Inr demo_client"
    by (simp add: NewRPCClient_def demo_node_def Dial_def demo_net_def demo_client_def make_client_def demo_conf_def low
        ToLower_def lower_char_def char_of_def bit_0)
  have call: "Go 3 Background ''mul'' (GoObj [6, 7]) (GoObj []) None [SetCallSerializeType JSON] demo_client = Some (0, demo_called)"
    by (simp add: demo_called_def Go_def new_call_def demo_client_def make_client_def SetCallSerializeType_def
        add_option_def apply_option_simps)
  show ?thesis
    using published_service_found [OF reg start _ _ client call] by (simp add: published_server_def Register_start_def demo_receiver_def)
qed

end
