(* ===== verification/GwClient.thy ===== *)
theory GwClient
  imports ClientProps
begin

text \<open>
  The RPC client of the standalone gateway (\<^verbatim>\<open>gateway/rpcclient.go\<close>), a variant of the client that sends
  ready messages and hands out the response message itself. All calls get a pointer to the one message into which
  the reading goroutine decodes, so what a reply says is what that message holds when it is looked at.
\<close>

section \<open>Calls and clients\<close>

text \<open>\<open>gReply\<close> says whether \<^verbatim>\<open>call.Reply\<close> points to the reader's message or is nil.\<close>

record gw_Call =
  gServicePath :: string
  gServiceMethod :: string
  gReq :: message
  gReply :: bool
  gError :: "goerr option"
  gDone :: nat

record gw_RPCClient =
  gw_network :: string
  gw_address :: string
  gw_servicePath :: string
  gw_reconnectTryNums :: int
  gw_heartBeatTryNums :: int
  gw_heartBeatTimeout :: int
  gw_heartBeatInterval :: int
  gw_DialTimeout :: int
  gw_seq :: u64
  gw_pending :: "(u64 \<times> nat) list"
  gw_lastSend :: int
  gw_status :: ConnStatus
  gw_suicide :: bool
  gw_stream :: conn
  gw_connClosed :: bool
  gw_doneClosed :: bool
  gw_calls :: "gw_Call list"
  gw_chans :: "(nat \<times> nat list) list"
  gw_outbox :: "bytes list"
  gw_resp :: message
  gw_dones :: "nat list"

text \<open>What a caller sees behind \<^verbatim>\<open>call.Reply\<close>.\<close>

definition gw_reply :: "gw_RPCClient \<Rightarrow> nat \<Rightarrow> message option" where
  "gw_reply c i = (if gReply (gw_calls c ! i) then Some (gw_resp c) else None)"

text \<open>\<open>done\<close> puts the call into its channel unless that is full.\<close>

definition gw_done :: "nat \<Rightarrow> gw_RPCClient \<Rightarrow> gw_RPCClient" where
  "gw_done i c =
    (let d = gDone (gw_calls c ! i) in
     c\<lparr>gw_dones := gw_dones c @ [i],
       gw_chans := (case gw_chans c ! d of (capacity, queue) \<Rightarrow>
         if length queue < capacity then (gw_chans c)[d := (capacity, queue @ [i])] else gw_chans c)\<rparr>)"

definition gw_fail :: "goerr \<Rightarrow> nat \<Rightarrow> gw_RPCClient \<Rightarrow> gw_RPCClient" where
  "gw_fail err i c = gw_done i (c\<lparr>gw_calls := (gw_calls c)[i := (gw_calls c ! i)\<lparr>gError := Some err\<rparr>]\<rparr>)"

section \<open>Sending\<close>

definition gw_send_register :: "int \<Rightarrow> nat \<Rightarrow> gw_RPCClient \<Rightarrow> gw_RPCClient" where
  "gw_send_register now i c =
    (if gw_status c \<noteq> ConnAvailable then gw_fail ErrShutdown i c
     else (let sq = gw_seq c + 1 in
       c\<lparr>gw_seq := sq, gw_pending := AList.update sq i (gw_pending c), gw_lastSend := now\<rparr>))"

definition gw_drop :: "u64 \<Rightarrow> goerr \<Rightarrow> gw_RPCClient \<Rightarrow> gw_RPCClient" where
  "gw_drop sq err c =
    (let call = map_of (gw_pending c) sq;
         c = c\<lparr>gw_pending := AList.delete sq (gw_pending c)\<rparr>
     in case call of None \<Rightarrow> c | Some i \<Rightarrow> gw_fail err i c)"

definition gw_send_transmit :: "compressors \<Rightarrow> goerr option \<Rightarrow> nat \<Rightarrow> u64 \<Rightarrow> gw_RPCClient \<Rightarrow> gw_RPCClient" where
  "gw_send_transmit comps writeErr i sq c =
    (let call = gw_calls c ! i;
         req = (gReq call)\<lparr>mheader := SetSeq sq (mheader (gReq call))\<rparr>;
         (req, data) = Encode comps req;
         c = c\<lparr>gw_calls := (gw_calls c)[i := call\<lparr>gReq := req\<rparr>]\<rparr>
     in case writeErr of
          None \<Rightarrow> c\<lparr>gw_outbox := gw_outbox c @ [data]\<rparr>
        | Some err \<Rightarrow> gw_drop sq err c)"

text \<open>\<open>Go\<close>: \<open>None\<close> is the panic on an unbuffered channel; the write follows as \<open>gw_send_transmit\<close>.\<close>

definition gw_Go ::
  "int \<Rightarrow> string \<Rightarrow> message \<Rightarrow> nat option \<Rightarrow> gw_RPCClient \<Rightarrow> (nat \<times> gw_RPCClient) option" where
  "gw_Go now serviceMethod args doneCh c =
    (let call = \<lparr>gServicePath = gw_servicePath c, gServiceMethod = serviceMethod, gReq = args, gReply = False,
           gError = None, gDone = 0\<rparr>;
         i = length (gw_calls c)
     in case doneCh of
          None \<Rightarrow> Some (i, gw_send_register now i (c\<lparr>gw_calls := gw_calls c @ [call\<lparr>gDone := length (gw_chans c)\<rparr>],
                    gw_chans := gw_chans c @ [(10, [])]\<rparr>))
        | Some d \<Rightarrow> (if fst (gw_chans c ! d) = 0 then None
             else Some (i, gw_send_register now i (c\<lparr>gw_calls := gw_calls c @ [call\<lparr>gDone := d\<rparr>]\<rparr>))))"

text \<open>The \<^verbatim>\<open>select\<close> at the end of \<open>Call\<close>: the reply's pointer and the error.\<close>

definition gw_call_await :: "bool \<Rightarrow> nat \<Rightarrow> gw_RPCClient \<Rightarrow> ((nat option \<times> goerr option) \<times> gw_RPCClient) option" where
  "gw_call_await expired d c =
    (if expired then Some ((None, Some ErrTimeOut), c)
     else case gw_chans c ! d of
         (capacity, []) \<Rightarrow> None
       | (capacity, i # queue) \<Rightarrow>
           Some ((if gReply (gw_calls c ! i) then Some i else None, gError (gw_calls c ! i)),
             c\<lparr>gw_chans := (gw_chans c)[d := (capacity, queue)]\<rparr>))"

section \<open>Responses\<close>

text \<open>The reader's message is overwritten by every response, also by one that fails to decode.\<close>

definition gw_readResponse :: "compressors \<Rightarrow> int \<Rightarrow> gw_RPCClient \<Rightarrow> (goerr option \<times> gw_RPCClient) option" where
  "gw_readResponse comps maxlen c =
    (case Decode bufio_readfull comps maxlen (gw_resp c) (NewReaderSize (gw_stream c) 1024) of
       None \<Rightarrow> None
     | Some (m, err, r) \<Rightarrow> Some (err, c\<lparr>gw_resp := m, gw_stream := bconn r\<rparr>))"

text \<open>The rest of a round of \<open>input\<close>; \<open>None\<close> is the panic of \<^verbatim>\<open>call.Reply = resp\<close> for a nil call.\<close>

definition gw_handle :: "gw_RPCClient \<Rightarrow> gw_RPCClient option" where
  "gw_handle c =
    (let m = gw_resp c;
         sq = Seq (mheader m);
         call = map_of (gw_pending c) sq;
         c = c\<lparr>gw_pending := AList.delete sq (gw_pending c)\<rparr>
     in case call of
          None \<Rightarrow> None
        | Some i \<Rightarrow>
           (let c = c\<lparr>gw_calls := (gw_calls c)[i := (gw_calls c ! i)\<lparr>gReply := True\<rparr>]\<rparr> in
            if IsHeartbeat (mheader m) then Some (gw_done i c)
            else case checkReplyError m of
                Some err \<Rightarrow> Some (gw_fail err i c)
              | None \<Rightarrow> Some (gw_done i c)))"

section \<open>Closing and reconnecting\<close>

text \<open>This \<open>close\<close> does not set \<open>suicide\<close>.\<close>

definition gw_close :: "(u64 \<times> nat) list \<Rightarrow> goerr \<Rightarrow> gw_RPCClient \<Rightarrow> gw_RPCClient option" where
  "gw_close order err c =
    (if gw_status c \<noteq> ConnClose then
       (let c = c\<lparr>gw_status := ConnClose\<rparr>;
            c = fold (\<lambda>(sq, i) c. gw_fail err i c) order c;
            c = c\<lparr>gw_connClosed := True\<rparr>
        in if gw_doneClosed c then None else Some (c\<lparr>gw_doneClosed := True\<rparr>))
     else Some c)"

definition gw_Close :: "(u64 \<times> nat) list \<Rightarrow> gw_RPCClient \<Rightarrow> gw_RPCClient option" where
  "gw_Close order c = gw_close order ErrShutdown c"

text \<open>\<open>dial i\<close> is what \<open>gw_redial\<close> (below) returns in attempt \<open>i\<close>.\<close>

definition gw_reconnect :: "(int \<Rightarrow> goerr + conn) \<Rightarrow> gw_RPCClient \<Rightarrow> goerr option \<times> gw_RPCClient" where
  "gw_reconnect dial c =
    (if gw_suicide c then (Some ErrShutdown, c)
     else (let c = c\<lparr>gw_status := ConnReconnect\<rparr>;
               tries = (if gw_reconnectTryNums c \<le> 0 then 6 else gw_reconnectTryNums c) in
      case reconnect_loop dial tries 1 1 [] None of
        ((Some err, s), slept) \<Rightarrow> (Some err, c\<lparr>gw_status := ConnReconnectFail, gw_suicide := False\<rparr>)
      | ((None, s), slept) \<Rightarrow> (None, c\<lparr>gw_status := ConnAvailable, gw_suicide := False, gw_connClosed := False,
          gw_stream := (case s of None \<Rightarrow> gw_stream c | Some s \<Rightarrow> s)\<rparr>)))"

text \<open>
  After a failed read \<open>input\<close> reconnects and goes on (\<open>True\<close>), or closes the client and ends; \<open>None\<close> is the panic
  of closing \<open>doneChan\<close> twice.
\<close>

definition gw_read_failed ::
  "(int \<Rightarrow> goerr + conn) \<Rightarrow> (u64 \<times> nat) list \<Rightarrow> gw_RPCClient \<Rightarrow> (bool \<times> gw_RPCClient) option" where
  "gw_read_failed dial order c = (case gw_reconnect dial c of
      (None, c) \<Rightarrow> Some (True, c)
    | (Some err, c) \<Rightarrow> map_option (\<lambda>c. (False, c)) (gw_close order err c))"

section \<open>Heartbeats\<close>

definition createHeartBeatReq :: "message \<Rightarrow> message" where
  "createHeartBeatReq pooled = pooled\<lparr>mheader := SetSeq 0 (SetHeartbeat True (mheader pooled))\<rparr>"

text \<open>
  The loop declares an \<^verbatim>\<open>err\<close> of its own, so the one returned after it is the nil error it began with; the seconds
  slept come with it.
\<close>

fun gw_heartbeat_loop :: "(nat \<Rightarrow> goerr option) \<Rightarrow> nat \<Rightarrow> nat \<Rightarrow> int \<Rightarrow> goerr option \<Rightarrow> int list
     \<Rightarrow> goerr option \<times> int list" where
  "gw_heartbeat_loop attempt i 0 tempDelay err slept = (err, slept)"
| "gw_heartbeat_loop attempt i (Suc n) tempDelay err slept = (case attempt i of
      None \<Rightarrow> (None, slept)
    | Some e \<Rightarrow> (if e = ErrTimeOut then gw_heartbeat_loop attempt (Suc i) n tempDelay err slept
        else gw_heartbeat_loop attempt (Suc i) n (2 * tempDelay) err (slept @ [tempDelay])))"

text \<open>The deadline of all tries together, in seconds.\<close>

definition gw_heartbeat_timeout :: "gw_RPCClient \<Rightarrow> int" where
  "gw_heartbeat_timeout c = (if gw_heartBeatTimeout c \<le> 0 then 2 else gw_heartBeatTimeout c)"

definition gw_sendHeartBeat :: "(nat \<Rightarrow> goerr option) \<Rightarrow> gw_RPCClient \<Rightarrow> goerr option \<times> int list" where
  "gw_sendHeartBeat attempt c =
    (let tryNums = (if gw_heartBeatTryNums c \<le> 0 then 3 else gw_heartBeatTryNums c)
     in gw_heartbeat_loop attempt 0 (nat tryNums) 1 None [])"

definition gw_keepalive_round ::
  "int \<Rightarrow> (gw_RPCClient \<Rightarrow> goerr option \<times> gw_RPCClient) \<Rightarrow> gw_RPCClient \<Rightarrow> int \<times> gw_RPCClient" where
  "gw_keepalive_round now hb c =
    (let nextKaInterval = gw_heartBeatInterval c in
     if gw_status c \<noteq> ConnAvailable then (nextKaInterval, c)
     else if now - gw_lastSend c < gw_heartBeatInterval c then
       (gw_lastSend c + gw_heartBeatInterval c - now, c)
     else (case hb c of
         (None, c) \<Rightarrow> (nextKaInterval, c)
       | (Some err, c) \<Rightarrow> (nextKaInterval,
           if gw_status c = ConnAvailable then c\<lparr>gw_suicide := True, gw_status := ConnClose, gw_connClosed := True\<rparr> else c)))"

section \<open>Dialling\<close>

text \<open>\<open>DialHTTPPath\<close> writes to the connection before it looks at the error of dialling: a nil one panics.\<close>

definition gw_DialHTTPPath ::
  "net_lib \<Rightarrow> (goerr \<Rightarrow> string) \<Rightarrow> string \<Rightarrow> string \<Rightarrow> string \<Rightarrow> int \<Rightarrow> (goerr + conn) option" where
  "gw_DialHTTPPath N txt nw addr path timeout =
    (case (if timeout > 0 then net_DialTimeout N nw addr timeout else net_Dial N nw addr) of
       Inl err \<Rightarrow> None
     | Inr c \<Rightarrow>
        (case http_ReadResponse N c (''CONNECT '' @ path @ '' HTTP/1.0'' @ [CHR 0x0A, CHR 0x0A]) of
           Inr st \<Rightarrow> Some (if st = connected then Inr c
             else Inl (OpError txt ''dial-http'' (nw @ '' '' @ addr)
                    (ErrText (''unexpected HTTP response: '' @ st))))
         | Inl err \<Rightarrow> Some (Inl (OpError txt ''dial-http'' (nw @ '' '' @ addr) err))))"

definition gw_DialHTTP :: "net_lib \<Rightarrow> (goerr \<Rightarrow> string) \<Rightarrow> string \<Rightarrow> string \<Rightarrow> int \<Rightarrow> (goerr + conn) option" where
  "gw_DialHTTP N txt nw addr timeout = gw_DialHTTPPath N txt nw addr DefaultRPCPath timeout"

definition gw_Dial :: "net_lib \<Rightarrow> string \<Rightarrow> string \<Rightarrow> int \<Rightarrow> goerr + conn" where
  "gw_Dial N nw addr timeout =
    (case (if timeout > 0 then net_DialTimeout N nw addr timeout else net_Dial N nw addr) of
       Inl err \<Rightarrow> Inl err
     | Inr c \<Rightarrow> Inr c)"

text \<open>The dialling of an attempt to reconnect; where it panics, the process ends.\<close>

definition gw_redial :: "net_lib \<Rightarrow> (goerr \<Rightarrow> string) \<Rightarrow> gw_RPCClient \<Rightarrow> (goerr + conn) option" where
  "gw_redial N txt c =
    (if gw_network c = ''tcp'' then Some (gw_Dial N (gw_network c) (gw_address c) (gw_DialTimeout c))
     else gw_DialHTTP N txt (gw_network c) (gw_address c) (gw_DialTimeout c))"

definition gw_make_client :: "string \<Rightarrow> string \<Rightarrow> string \<Rightarrow> int \<Rightarrow> conn \<Rightarrow> gw_RPCClient" where
  "gw_make_client nw addr sp timeout s = \<lparr>gw_network = nw, gw_address = addr, gw_servicePath = ToLower sp,
     gw_reconnectTryNums = 0, gw_heartBeatTryNums = 0, gw_heartBeatTimeout = 0, gw_heartBeatInterval = defHeatBeatInterval,
     gw_DialTimeout = timeout, gw_seq = 0, gw_pending = [], gw_lastSend = 0, gw_status = ConnAvailable, gw_suicide = False,
     gw_stream = s, gw_connClosed = False, gw_doneClosed = False, gw_calls = [], gw_chans = [], gw_outbox = [],
     gw_resp = NewMessage, gw_dones = []\<rparr>"

definition gw_NewRPCClient ::
  "net_lib \<Rightarrow> (goerr \<Rightarrow> string) \<Rightarrow> string \<Rightarrow> string \<Rightarrow> string \<Rightarrow> int \<Rightarrow> (goerr + gw_RPCClient) option" where
  "gw_NewRPCClient N txt nw addr sp timeout =
    (if nw = ''tcp'' then
       Some (case gw_Dial N nw addr timeout of
          Inl err \<Rightarrow> Inl err | Inr s \<Rightarrow> Inr (gw_make_client nw addr sp timeout s))
     else if nw = ''http'' then
       (case gw_DialHTTP N txt nw addr timeout of
          None \<Rightarrow> None
        | Some (Inl err) \<Rightarrow> Some (Inl err)
        | Some (Inr s) \<Rightarrow> Some (Inr (gw_make_client nw addr sp timeout s)))
     else Some (Inl (ErrText (''unsupport network '' @ nw))))"

section \<open>What happens to replies and to a closed client\<close>

lemma gw_done_simps [simp]:
  "gw_calls (gw_done i c) = gw_calls c" "gw_resp (gw_done i c) = gw_resp c" "gw_status (gw_done i c) = gw_status c"
  "gw_suicide (gw_done i c) = gw_suicide c" "gw_doneClosed (gw_done i c) = gw_doneClosed c"
  "gw_reconnectTryNums (gw_done i c) = gw_reconnectTryNums c" "gw_dones (gw_done i c) = gw_dones c @ [i]"
  "gw_pending (gw_done i c) = gw_pending c" "gw_stream (gw_done i c) = gw_stream c"
  by (simp_all add: gw_done_def Let_def)

lemma gw_fail_simps [simp]:
  "gw_resp (gw_fail e i c) = gw_resp c" "gw_status (gw_fail e i c) = gw_status c" "gw_suicide (gw_fail e i c) = gw_suicide c"
  "gw_doneClosed (gw_fail e i c) = gw_doneClosed c" "gw_reconnectTryNums (gw_fail e i c) = gw_reconnectTryNums c"
  "gw_dones (gw_fail e i c) = gw_dones c @ [i]" "gw_pending (gw_fail e i c) = gw_pending c"
  "gw_stream (gw_fail e i c) = gw_stream c"
  "gw_calls (gw_fail e i c) = (gw_calls c)[i := (gw_calls c ! i)\<lparr>gError := Some e\<rparr>]"
  by (simp_all add: gw_fail_def)

lemma gw_handle_defined:
  "map_of (gw_pending c) (Seq (mheader (gw_resp c))) = Some i \<Longrightarrow>
   \<exists>c1. gw_handle c = Some c1 \<and> gw_stream c1 = gw_stream c \<and> gw_resp c1 = gw_resp c"
  by (auto simp: gw_handle_def Let_def split: option.splits)

lemma gw_fold_keeps:
  assumes "\<And>i c. f (gw_fail e i c) = f c"
  shows "f (fold (\<lambda>(sq, i) c. gw_fail e i c) order c) = f c"
proof (induction order arbitrary: c)
  case (Cons x order)
  then show ?case by (cases x) (simp only: fold_simps comp_apply prod.case assms)
qed (simp only: fold_simps id_apply)

lemma gw_fail_all:
  "gw_status (fold (\<lambda>(sq, i) c. gw_fail e i c) order c) = gw_status c \<and>
   gw_suicide (fold (\<lambda>(sq, i) c. gw_fail e i c) order c) = gw_suicide c \<and>
   gw_doneClosed (fold (\<lambda>(sq, i) c. gw_fail e i c) order c) = gw_doneClosed c \<and>
   gw_reconnectTryNums (fold (\<lambda>(sq, i) c. gw_fail e i c) order c) = gw_reconnectTryNums c \<and>
   gw_dones (fold (\<lambda>(sq, i) c. gw_fail e i c) order c) = gw_dones c @ map snd order \<and>
   length (gw_calls (fold (\<lambda>(sq, i) c. gw_fail e i c) order c)) = length (gw_calls c)"
proof -
  have "gw_dones (fold (\<lambda>(sq, i) c. gw_fail e i c) order c) = gw_dones c @ map snd order"
  proof (induction order arbitrary: c)
    case (Cons x order)
    then show ?case by (cases x) (simp only: fold_simps comp_apply prod.case gw_fail_simps list.map snd_conv append_assoc append_Cons append_Nil)
  qed simp
  then show ?thesis
    using gw_fold_keeps [of gw_status e order c] gw_fold_keeps [of gw_suicide e order c]
      gw_fold_keeps [of gw_doneClosed e order c] gw_fold_keeps [of gw_reconnectTryNums e order c]
      gw_fold_keeps [of "\<lambda>c. length (gw_calls c)" e order c] by (simp del: fold_simps)
qed

lemma gw_fail_errors:
  "i \<in> snd ` set order \<or> gError (gw_calls c ! i) = Some e \<Longrightarrow> i < length (gw_calls c) \<Longrightarrow>
   gError (gw_calls (fold (\<lambda>(sq, i) c. gw_fail e i c) order c) ! i) = Some e"
proof (induction order arbitrary: c)
  case (Cons x order)
  obtain sq j where x: "x = (sq, j)" by (cases x)
  have "gError (gw_calls (fold (\<lambda>(sq, i) c. gw_fail e i c) order (gw_fail e j c)) ! i) = Some e"
    using Cons.prems by (intro Cons.IH; cases "j = i") (auto simp: x)
  then show ?case by (simp only: x fold_simps comp_apply prod.case)
qed simp

lemma gw_close_fields:
  assumes "gw_close order err c = Some c'" "gw_status c \<noteq> ConnClose"
  shows "gw_status c' = ConnClose" "gw_suicide c' = gw_suicide c" "gw_doneClosed c'" "\<not> gw_doneClosed c"
    "gw_reconnectTryNums c' = gw_reconnectTryNums c" "gw_dones c' = gw_dones c @ map snd order"
    "i \<in> snd ` set order \<Longrightarrow> i < length (gw_calls c) \<Longrightarrow> gError (gw_calls c' ! i) = Some err"
  using assms gw_fail_all [of err order "c\<lparr>gw_status := ConnClose\<rparr>"] gw_fail_errors [of i order "c\<lparr>gw_status := ConnClose\<rparr>" err]
  by (auto simp: gw_close_def Let_def split: if_splits)

lemma gw_close_defined: "\<not> gw_doneClosed c \<Longrightarrow> \<exists>c'. gw_close order err c = Some c'"
  using gw_fail_all [of err order "c\<lparr>gw_status := ConnClose\<rparr>"] by (auto simp: gw_close_def Let_def)

lemma gw_close_dead: "gw_doneClosed c \<Longrightarrow> gw_status c \<noteq> ConnClose \<Longrightarrow> gw_close order err c = None"
  using gw_fail_all [of err order "c\<lparr>gw_status := ConnClose\<rparr>"] by (simp add: gw_close_def Let_def)

definition gw_tries :: "gw_RPCClient \<Rightarrow> int" where
  "gw_tries c = (if gw_reconnectTryNums c \<le> 0 then 6 else gw_reconnectTryNums c)"

lemma gw_reconnect_fails:
  assumes "\<forall>j. 1 \<le> j \<and> j \<le> gw_tries c \<longrightarrow> dial j = Inl (e j)" "\<not> gw_suicide c"
  shows "gw_reconnect dial c = (Some (e (gw_tries c)), c\<lparr>gw_status := ConnReconnectFail, gw_suicide := False\<rparr>)"
proof -
  have "1 \<le> gw_tries c" by (simp add: gw_tries_def)
  with reconnect_loop_failures [of 1 "gw_tries c" dial e 1 "[]" None] assms
  show ?thesis by (auto simp: gw_reconnect_def Let_def gw_tries_def split: if_splits)
qed

lemma gw_reconnect_succeeds:
  assumes "dial 1 = Inr s" "\<not> gw_suicide c"
  shows "gw_reconnect dial c = (None, c\<lparr>gw_status := ConnAvailable, gw_suicide := False, gw_connClosed := False, gw_stream := s\<rparr>)"
  using assms by (simp add: gw_reconnect_def Let_def reconnect_loop.simps)

section \<open>Properties\<close>

text \<open>The replies of the gateway's client are all the same message: a call that was completed with its response shows, from the
  next read on, whatever the next response holds, also where that fails to decode.\<close>

theorem gw_replies_alias:
  assumes "map_of (gw_pending c) (Seq (mheader (gw_resp c))) = Some i" "i < length (gw_calls c)"
    and "gw_handle c = Some c1" "gw_readResponse comps maxlen c1 = Some (err, c2)"
  shows "gw_reply c1 i = Some (gw_resp c) \<and> gw_reply c2 i = Some (gw_resp c2) \<and> gw_dones c1 = gw_dones c @ [i]"
  using assms
  by (auto simp: gw_handle_def gw_readResponse_def gw_reply_def Let_def split: option.splits if_splits)

definition gw_demo :: gw_RPCClient where
  "gw_demo = (gw_make_client ''tcp'' ''a:1'' ''Arith'' 0 \<lparr>pieces = [[8, 0]], cend = EOF\<rparr>)\<lparr>
     gw_resp := demo_response, gw_pending := [(1, 0), (2, 1)], gw_chans := [(1, []), (1, [])],
     gw_calls := [\<lparr>gServicePath = ''arith'', gServiceMethod = '''', gReq = NewMessage, gReply = False, gError = None, gDone = 0\<rparr>,
       \<lparr>gServicePath = ''arith'', gServiceMethod = '''', gReq = NewMessage, gReply = False, gError = None, gDone = 1\<rparr>]\<rparr>"

theorem gw_replies_alias_witness:
  "\<exists>c1 err c2. gw_handle gw_demo = Some c1 \<and> gw_readResponse Map.empty 0 c1 = Some (err, c2) \<and>
     gw_reply c1 0 = Some demo_response \<and> gw_reply c2 0 = Some (gw_resp c2)"
proof -
  have "Seq (mheader demo_response) = 1" by (rule demo_response_fields)
  then have p: "map_of (gw_pending gw_demo) (Seq (mheader (gw_resp gw_demo))) = Some 0" "0 < length (gw_calls gw_demo)"
    by (simp_all add: gw_demo_def)
  obtain c1 where c1: "gw_handle gw_demo = Some c1" "gw_stream c1 = \<lparr>pieces = [[8, 0]], cend = EOF\<rparr>"
      "gw_resp c1 = demo_response"
    using gw_handle_defined [OF p(1)] by (auto simp: gw_demo_def gw_make_client_def)
  have "Decode bufio_readfull Map.empty 0 demo_response (NewReaderSize \<lparr>pieces = [[8, 0]], cend = EOF\<rparr> 1024) \<noteq> None"
    by code_simp
  then obtain m err r where "Decode bufio_readfull Map.empty 0 demo_response (NewReaderSize \<lparr>pieces = [[8, 0]], cend = EOF\<rparr> 1024) =
      Some (m, err, r)" by (metis option.exhaust prod_cases3)
  then obtain c2 where c2: "gw_readResponse Map.empty 0 c1 = Some (err, c2)"
    by (simp add: gw_readResponse_def c1)
  from gw_replies_alias [OF p c1(1) c2] c1(1) c2 show ?thesis by (auto simp: gw_demo_def)
qed

text \<open>In the gateway \<open>Close\<close> does not end a client: the failed read that it causes makes the reading goroutine reconnect. If
  that succeeds the client is available again and the next \<open>Close\<close> panics; if it fails, closing a second time panics
  at once.\<close>

theorem gw_close_undone:
  assumes "gw_Close order c = Some c1" "gw_status c \<noteq> ConnClose" "\<not> gw_suicide c"
  shows "(dial 1 = Inr s \<longrightarrow> (\<exists>c2. gw_read_failed dial order1 c1 = Some (True, c2) \<and> gw_status c2 = ConnAvailable \<and>
      gw_Close order2 c2 = None)) \<and>
    ((\<forall>j. dial j = Inl (e j)) \<longrightarrow> gw_read_failed dial order1 c1 = None)"
proof (intro conjI impI)
  note f = gw_close_fields [OF assms(1) [unfolded gw_Close_def] assms(2)]
  show "\<exists>c2. gw_read_failed dial order1 c1 = Some (True, c2) \<and> gw_status c2 = ConnAvailable \<and> gw_Close order2 c2 = None"
    if "dial 1 = Inr s"
  proof -
    have "gw_reconnect dial c1 =
        (None, c1\<lparr>gw_status := ConnAvailable, gw_suicide := False, gw_connClosed := False, gw_stream := s\<rparr>)"
      using f(2) assms(3) that by (intro gw_reconnect_succeeds) auto
    then show ?thesis using f(3) by (simp add: gw_read_failed_def gw_Close_def gw_close_dead)
  qed
  show "gw_read_failed dial order1 c1 = None" if "\<forall>j. dial j = Inl (e j)"
  proof -
    have "gw_reconnect dial c1 = (Some (e (gw_tries c1)), c1\<lparr>gw_status := ConnReconnectFail, gw_suicide := False\<rparr>)"
      using f(2) assms(3) that by (intro gw_reconnect_fails) auto
    then show ?thesis using f(3) by (simp add: gw_read_failed_def gw_close_dead)
  qed
qed

theorem gw_close_undone_witness:
  "\<exists>c1. gw_Close [(1, 0), (2, 1)] gw_demo = Some c1 \<and> gw_read_failed (\<lambda>j. Inl EOF) [] c1 = None"
proof -
  have d: "\<not> gw_doneClosed gw_demo" "gw_status gw_demo \<noteq> ConnClose" "\<not> gw_suicide gw_demo"
    by (simp_all add: gw_demo_def gw_make_client_def)
  from gw_close_defined [OF d(1)] obtain c1 where c1: "gw_Close [(1, 0), (2, 1)] gw_demo = Some c1"
    by (auto simp: gw_Close_def)
  from gw_close_undone [OF c1 d(2,3), of "\<lambda>j. Inl EOF" undefined "[]" "[]" "\<lambda>j. EOF"] c1 show ?thesis by auto
qed

text \<open>C28. A lost connection is reported to every caller: when every attempt to reconnect fails, of which there are as many as the
  client was given and six by default, the pending calls are completed with the error of the last attempt and the client is
  closed. This is for a client that is neither closed nor was given up by its heartbeats.\<close>

theorem gw_lost_connection_completes:
  assumes "n = (if gw_reconnectTryNums c \<le> 0 then 6 else gw_reconnectTryNums c)" "\<forall>j. 1 \<le> j \<and> j \<le> n \<longrightarrow> dial j = Inl (e j)"
    and "\<not> gw_suicide c" "\<not> gw_doneClosed c" "gw_status c \<noteq> ConnClose"
    and "mset order = mset (gw_pending c)" "\<forall>(sq, i) \<in> set (gw_pending c). i < length (gw_calls c)"
  shows "\<exists>c'. gw_read_failed dial order c = Some (False, c') \<and> gw_status c' = ConnClose \<and>
    (\<forall>(sq, i) \<in> set (gw_pending c). i \<in> set (gw_dones c') \<and> gError (gw_calls c' ! i) = Some (e n))"
proof -
  let ?c = "c\<lparr>gw_status := ConnReconnectFail, gw_suicide := False\<rparr>"
  have n: "gw_tries c = n" using assms(1) by (simp add: gw_tries_def)
  have rc: "gw_reconnect dial c = (Some (e n), ?c)" using gw_reconnect_fails [of c dial e] assms(2,3) n by auto
  obtain c' where c': "gw_close order (e n) ?c = Some c'" using gw_close_defined [of ?c order "e n"] assms(4) by auto
  have "set order = set (gw_pending c)" using assms(6) by (metis set_mset_mset)
  then have mem: "i \<in> snd ` set order" if "(sq, i) \<in> set (gw_pending c)" for sq i
    using that by (force intro: rev_image_eqI)
  have "gw_status c' = ConnClose" "set (gw_dones c') \<supseteq> snd ` set order"
    using gw_close_fields(1,6) [OF c'] by auto
  moreover have "gError (gw_calls c' ! i) = Some (e n)" if "(sq, i) \<in> set (gw_pending c)" for sq i
    using gw_close_fields(7) [OF c', of i] mem [OF that] assms(7) that by auto
  moreover have "gw_read_failed dial order c = Some (False, c')" using rc c' by (simp add: gw_read_failed_def)
  ultimately show ?thesis using mem by (intro exI [of _ c']) auto
qed

theorem gw_lost_connection_completes_witness:
  "\<exists>c'. gw_read_failed (\<lambda>j. Inl (if j < 6 then ErrTimeOut else EOF)) [(1, 0), (2, 1)] gw_demo = Some (False, c') \<and>
     gw_status c' = ConnClose \<and> gError (gw_calls c' ! 1) = Some EOF"
proof -
  have d: "\<not> gw_suicide gw_demo" "\<not> gw_doneClosed gw_demo" "gw_status gw_demo \<noteq> ConnClose"
    "mset [(1, 0), (2, 1)] = mset (gw_pending gw_demo)" "\<forall>(sq, i) \<in> set (gw_pending gw_demo). i < length (gw_calls gw_demo)"
    and n: "6 = (if gw_reconnectTryNums gw_demo \<le> 0 then 6 else gw_reconnectTryNums gw_demo)"
    by (simp_all add: gw_demo_def gw_make_client_def)
  show ?thesis
    using gw_lost_connection_completes [OF n _ d, of "\<lambda>j. Inl (if j < 6 then ErrTimeOut else EOF)" "\<lambda>j. if j < 6 then ErrTimeOut else EOF"]
    by (auto simp: gw_demo_def)
qed

text \<open>The heartbeats of the gateway's client never fail: whatever its calls return, the error that \<open>keepalive\<close> looks at is
  nil, so a dead connection is never closed by it.\<close>

theorem gw_heartbeat_never_fails:
  "fst (gw_sendHeartBeat attempt c) = None \<and>
   snd (gw_keepalive_round now (\<lambda>c. (fst (gw_sendHeartBeat attempt c), c)) c) = c"
proof -
  have "fst (gw_heartbeat_loop attempt i n t None slept) = None" for i n t slept
    by (induction n arbitrary: i t slept) (auto split: option.splits)
  then have "fst (gw_sendHeartBeat attempt c) = None" for c by (simp add: gw_sendHeartBeat_def Let_def)
  then show ?thesis by (simp add: gw_keepalive_round_def Let_def)
qed

end
