(* ===== verification/UrlForm.thy ===== *)
theory UrlForm
  imports Strconv "HOL-Library.Char_ord" "HOL-Library.List_Lexorder"
begin

text \<open>
  What the gateways use of the standard library to carry metadata and headers over HTTP: the query form of
  \<^verbatim>\<open>net/url\<close> (\<open>QueryEscape\<close>, \<open>QueryUnescape\<close>, \<open>Values.Encode\<close>, \<open>ParseQuery\<close>) and the canonical header keys
  of \<^verbatim>\<open>net/textproto\<close>. Parsing a query gives back what was encoded.
\<close>

section \<open>Escaping\<close>

definition hex_upper :: "nat \<Rightarrow> char" where
  "hex_upper n = (if n < 10 then char_of (48 + n) else char_of (55 + n))"

definition unhex :: "char \<Rightarrow> nat option" where
  "unhex c = (let n = of_char c :: nat in
     if 48 \<le> n \<and> n \<le> 57 then Some (n - 48)
     else if 97 \<le> n \<and> n \<le> 102 then Some (n - 87)
     else if 65 \<le> n \<and> n \<le> 70 then Some (n - 55)
     else None)"

definition unreserved :: "char \<Rightarrow> bool" where
  "unreserved c \<longleftrightarrow> (let n = of_char c :: nat in
     97 \<le> n \<and> n \<le> 122 \<or> 65 \<le> n \<and> n \<le> 90 \<or> 48 \<le> n \<and> n \<le> 57 \<or> n \<in> {45, 95, 46, 126})"

definition escape_char :: "char \<Rightarrow> string" where
  "escape_char c =
    (if c = CHR 0x20 then [CHR 0x2B]
     else if unreserved c then [c]
     else [CHR 0x25, hex_upper (of_char c div 16), hex_upper (of_char c mod 16)])"

definition QueryEscape :: "string \<Rightarrow> string" where
  "QueryEscape s = concat (map escape_char s)"

text \<open>\<^verbatim>\<open>strconv.Quote\<close>, for ASCII.\<close>

definition hex_lower :: "nat \<Rightarrow> char" where
  "hex_lower n = (if n < 10 then char_of (48 + n) else char_of (87 + n))"

definition quote_char :: "char \<Rightarrow> string" where
  "quote_char c = (let n = of_char c :: nat; bs = CHR 0x5C in
     if n = 34 \<or> n = 92 then [bs, c]
     else if 32 \<le> n \<and> n < 127 then [c]
     else case map_of [(7, CHR 0x61), (8, CHR 0x62), (12, CHR 0x66), (10, CHR 0x6E), (13, CHR 0x72), (9, CHR 0x74), (11, CHR 0x76)] n of
       Some l \<Rightarrow> [bs, l]
     | None \<Rightarrow> [bs, CHR 0x78, hex_lower (n div 16), hex_lower (n mod 16)])"

definition Quote :: "string \<Rightarrow> string" where
  "Quote s = [CHR 0x22] @ concat (map quote_char s) @ [CHR 0x22]"

definition EscapeError :: "string \<Rightarrow> goerr" where
  "EscapeError s = ErrText (''invalid URL escape '' @ Quote s)"

fun QueryUnescape :: "string \<Rightarrow> goerr + string" where
  "QueryUnescape [] = Inr []"
| "QueryUnescape (c # s) =
    (if c = CHR 0x25 then
       (case s of
          a # b # s' \<Rightarrow> (case (unhex a, unhex b) of
              (Some x, Some y) \<Rightarrow> (case QueryUnescape s' of
                  Inl err \<Rightarrow> Inl err | Inr t \<Rightarrow> Inr (char_of (16 * x + y) # t))
            | _ \<Rightarrow> Inl (EscapeError (c # take 2 s)))
        | _ \<Rightarrow> Inl (EscapeError (c # take 2 s)))
     else (case QueryUnescape s of
         Inl err \<Rightarrow> Inl err
       | Inr t \<Rightarrow> Inr ((if c = CHR 0x2B then CHR 0x20 else c) # t)))"

lemma unhex_hex_upper: "n < 16 \<Longrightarrow> unhex (hex_upper n) = Some n"
  by (auto simp: unhex_def hex_upper_def Let_def)

lemma of_char_less: "(of_char c :: nat) < 256"
  by (cases c) simp

lemma of_char_div: "(of_char c :: nat) div 16 < 16"
  by (rule less_mult_imp_div_less) (use of_char_less [of c] in simp)

lemma hex_pair: "char_of (16 * ((of_char c :: nat) div 16) + of_char c mod 16) = c"
  by simp

lemma unescape_escape_char:
  "QueryUnescape s = Inr t \<Longrightarrow> QueryUnescape (escape_char c @ s) = Inr (c # t)"
proof -
  assume s: "QueryUnescape s = Inr t"
  have u: "unhex (hex_upper (of_char c div 16)) = Some (of_char c div 16)"
    "unhex (hex_upper (of_char c mod 16)) = Some (of_char c mod 16)"
    by (simp_all add: unhex_hex_upper of_char_div)
  have "\<not> unreserved CHR 0x25" "\<not> unreserved CHR 0x2B" by (simp_all add: unreserved_def)
  then show ?thesis using s u hex_pair [of c] by (auto simp: escape_char_def)
qed

lemma QueryUnescape_QueryEscape [simp]: "QueryUnescape (QueryEscape s) = Inr s"
  by (induction s) (simp_all add: QueryEscape_def unescape_escape_char)

text \<open>The separators of a query never occur in an escaped string.\<close>

definition separators :: "char set" where
  "separators = {CHR 0x26, CHR 0x3B, CHR 0x3D}"

lemma hex_upper_safe: "n < 16 \<Longrightarrow> hex_upper n \<notin> separators"
  by (auto simp: hex_upper_def separators_def dest!: arg_cong [where f = "of_char :: char \<Rightarrow> nat"])

lemma escape_char_safe: "set (escape_char c) \<inter> separators = {}"
proof -
  have "hex_upper (of_char c div 16) \<notin> separators" "hex_upper (of_char c mod 16) \<notin> separators"
    by (simp_all add: hex_upper_safe of_char_div)
  moreover have "unreserved c \<Longrightarrow> c \<notin> separators" by (auto simp: unreserved_def separators_def)
  ultimately show ?thesis by (auto simp: escape_char_def) (simp_all add: separators_def)
qed

lemma QueryEscape_safe: "set (QueryEscape s) \<inter> separators = {}"
  using escape_char_safe by (fastforce simp: QueryEscape_def)

section \<open>Query strings\<close>

text \<open>\<open>url.Values\<close> with one value to a key, as \<open>Add\<close> builds it from a map; \<open>Encode\<close> sorts the keys.\<close>

definition encode_pair :: "string \<times> string \<Rightarrow> string" where
  "encode_pair kv = QueryEscape (fst kv) @ [CHR 0x3D] @ QueryEscape (snd kv)"

fun join :: "string list \<Rightarrow> string" where
  "join [] = []"
| "join [s] = s"
| "join (s # ss) = s @ CHR 0x26 # join ss"

definition Values_Encode :: "smap \<Rightarrow> string" where
  "Values_Encode m = join (map encode_pair (sort_key fst m))"

text \<open>
  \<open>ParseQuery\<close>: pairs are separated by \<^verbatim>\<open>&\<close> or \<^verbatim>\<open>;\<close>, the first error is returned, values of the same key are
  collected.
\<close>

definition add_value :: "string \<Rightarrow> string \<Rightarrow> (string \<times> string list) list \<Rightarrow> (string \<times> string list) list" where
  "add_value k v m = AList.update k ((case map_of m k of None \<Rightarrow> [] | Some vs \<Rightarrow> vs) @ [v]) m"

definition first_error :: "goerr option \<Rightarrow> goerr \<Rightarrow> goerr option" where
  "first_error err e = (case err of None \<Rightarrow> Some e | Some e' \<Rightarrow> Some e')"

definition parse_pair ::
  "string \<Rightarrow> (string \<times> string list) list \<times> goerr option \<Rightarrow> (string \<times> string list) list \<times> goerr option" where
  "parse_pair kv m_err = (case m_err of (m, err) \<Rightarrow>
    (let key = takeWhile (\<lambda>c. c \<noteq> CHR 0x3D) kv; val = drop (Suc (length key)) kv in
     case QueryUnescape key of
       Inl e \<Rightarrow> (m, first_error err e)
     | Inr key \<Rightarrow> (case QueryUnescape val of
         Inl e \<Rightarrow> (m, first_error err e)
       | Inr val \<Rightarrow> (add_value key val m, err))))"

function parse_loop ::
  "string \<Rightarrow> (string \<times> string list) list \<times> goerr option \<Rightarrow> (string \<times> string list) list \<times> goerr option" where
  "parse_loop query m_err =
    (if query = [] then m_err
     else (let key = takeWhile (\<lambda>c. c \<noteq> CHR 0x26 \<and> c \<noteq> CHR 0x3B) query;
               rest = drop (Suc (length key)) query in
           parse_loop rest (if key = [] then m_err else parse_pair key m_err)))"
  by auto
termination
  by (relation "measure (\<lambda>(query, m_err). length query)") auto

declare parse_loop.simps [simp del]

definition ParseQuery :: "string \<Rightarrow> goerr + (string \<times> string list) list" where
  "ParseQuery query = (case parse_loop query ([], None) of
      (m, None) \<Rightarrow> Inr m
    | (m, Some err) \<Rightarrow> Inl err)"

lemma takeWhile_stop: "\<forall>x \<in> set xs. P x \<Longrightarrow> \<not> P c \<Longrightarrow> takeWhile P (xs @ c # ys) = xs"
  by (induction xs) auto

lemma takeWhile_all: "\<forall>x \<in> set xs. P x \<Longrightarrow> takeWhile P xs = xs"
  by (induction xs) auto

lemma encode_pair_safe: "c \<in> set (encode_pair kv) \<Longrightarrow> c \<noteq> CHR 0x26 \<and> c \<noteq> CHR 0x3B"
  using QueryEscape_safe [of "fst kv"] QueryEscape_safe [of "snd kv"]
  by (auto simp: encode_pair_def separators_def)

lemma encode_pair_not_Nil [simp]: "encode_pair kv \<noteq> []"
  by (simp add: encode_pair_def)

lemma parse_encode_pair:
  "parse_pair (encode_pair (k, v)) (m, err) = (add_value k v m, err)"
proof -
  have "takeWhile (\<lambda>c. c \<noteq> CHR 0x3D) (encode_pair (k, v)) = QueryEscape k"
    using QueryEscape_safe [of k] by (auto simp: encode_pair_def separators_def intro!: takeWhile_stop)
  then show ?thesis by (simp add: parse_pair_def encode_pair_def)
qed

lemma parse_loop_join:
  "parse_loop (join (map encode_pair m)) m_err = fold (\<lambda>(k, v) (m, err). (add_value k v m, err)) m m_err"
proof (induction m arbitrary: m_err rule: induct_list012)
  case 1
  then show ?case by (simp add: parse_loop.simps)
next
  case (2 kv)
  have "takeWhile (\<lambda>c. c \<noteq> CHR 0x26 \<and> c \<noteq> CHR 0x3B) (encode_pair kv) = encode_pair kv"
    using encode_pair_safe [of _ kv] by (intro takeWhile_all) auto
  then have "parse_loop (encode_pair kv) m_err = parse_loop [] (parse_pair (encode_pair kv) m_err)"
    by (subst parse_loop.simps) (simp add: Let_def del: takeWhile_eq_all_conv)
  then show ?case by (cases kv; cases m_err) (simp add: parse_loop.simps [of "[]"] parse_encode_pair)
next
  case (3 kv kw m)
  let ?rest = "join (map encode_pair (kw # m))"
  have "takeWhile (\<lambda>c. c \<noteq> CHR 0x26 \<and> c \<noteq> CHR 0x3B) (encode_pair kv @ CHR 0x26 # ?rest) = encode_pair kv"
    using encode_pair_safe [of _ kv] by (intro takeWhile_stop) auto
  then have "parse_loop (encode_pair kv @ CHR 0x26 # ?rest) m_err = parse_loop ?rest (parse_pair (encode_pair kv) m_err)"
    by (subst parse_loop.simps) simp
  then show ?case using 3(2) by (cases kv; cases m_err) (simp add: parse_encode_pair)
qed

text \<open>The values collected under distinct keys are single.\<close>

lemma map_of_fold_add:
  "distinct (map fst m) \<Longrightarrow> fst ` set m \<inter> fst ` set m0 = {} \<Longrightarrow>
   map_of (fst (fold (\<lambda>(k, v) (m, err). (add_value k v m, err)) m (m0, err))) =
   map_of m0 ++ map_of (map (\<lambda>(k, v). (k, [v])) m)"
proof (induction m arbitrary: m0)
  case (Cons kv m)
  obtain k v where kv: "kv = (k, v)" by (cases kv)
  have "map_of m0 k = None" using Cons.prems(2) by (auto simp: kv map_of_eq_None_iff)
  then have "map_of (add_value k v m0) = (map_of m0)(k \<mapsto> [v])"
    by (simp add: add_value_def update_conv')
  moreover have "fst ` set (add_value k v m0) = insert k (fst ` set m0)"
    by (simp add: add_value_def dom_update)
  moreover have k: "k \<notin> fst ` set m" using Cons.prems(1) by (auto simp: kv)
  moreover have "map_of (map (\<lambda>(k, v). (k, [v])) m) k = None"
    using k by (force simp: map_of_eq_None_iff)
  ultimately show ?case
    using Cons.IH [of "add_value k v m0"] Cons.prems
    by (auto simp: kv map_add_def split: option.splits)
qed simp

lemma fst_fold_err: "snd (fold (\<lambda>(k, v) (m, err). (add_value k v m, err)) m (m0, err)) = err"
  by (induction m arbitrary: m0) auto

lemma ParseQuery_Encode:
  assumes "smap_wf m"
  shows "\<exists>vs. ParseQuery (Values_Encode m) = Inr vs \<and> map_of vs = map_option (\<lambda>v. [v]) \<circ> map_of m"
proof -
  let ?m = "sort_key fst m"
  obtain vs e where f: "fold (\<lambda>(k, v) (m, err). (add_value k v m, err)) ?m ([], None :: goerr option) = (vs, e)" by fastforce
  have wf: "smap_wf ?m"
    using assms by (metis smap_wf_def distinct_map distinct_sort set_sort)
  then have "map_of ?m = map_of m" using assms by (intro map_of_eqI_set) simp_all
  then show ?thesis
    using map_of_fold_add [of ?m "[]" "None :: goerr option"] fst_fold_err [of ?m "[]" "None :: goerr option"] f wf
    by (simp add: ParseQuery_def Values_Encode_def parse_loop_join smap_wf_def map_of_map)
qed

lemma distinct_add_value: "distinct (map fst m) \<Longrightarrow> distinct (map fst (add_value k v m))"
  by (simp add: add_value_def distinct_update)

lemma parse_pair_distinct: "distinct (map fst (fst m_err)) \<Longrightarrow> distinct (map fst (fst (parse_pair kv m_err)))"
  by (cases m_err) (auto simp: parse_pair_def Let_def distinct_add_value split: sum.splits)

lemma parse_loop_distinct:
  "distinct (map fst (fst m_err)) \<Longrightarrow> distinct (map fst (fst (parse_loop query m_err)))"
proof (induction query m_err rule: parse_loop.induct)
  case (1 query m_err)
  then show ?case
    by (subst parse_loop.simps) (auto simp: Let_def parse_pair_distinct)
qed

lemma ParseQuery_distinct: "ParseQuery query = Inr vs \<Longrightarrow> distinct (map fst vs)"
  using parse_loop_distinct [of "([], None)" query]
  by (auto simp: ParseQuery_def split: prod.splits option.splits)

section \<open>Headers\<close>

text \<open>\<open>http.Header\<close>: keys are made canonical by \<open>Get\<close> and \<open>Set\<close>, each has a list of values.\<close>

type_synonym header_map = "(string \<times> string list) list"

definition valid_header_byte :: "char \<Rightarrow> bool" where
  "valid_header_byte c \<longleftrightarrow> (let n = of_char c :: nat in
     97 \<le> n \<and> n \<le> 122 \<or> 65 \<le> n \<and> n \<le> 90 \<or> 48 \<le> n \<and> n \<le> 57 \<or>
     n \<in> {33, 35, 36, 37, 38, 39, 42, 43, 45, 46, 94, 95, 96, 124, 126})"

definition upper_char :: "char \<Rightarrow> char" where
  "upper_char c = (let n = of_char c :: nat in if 97 \<le> n \<and> n \<le> 122 then char_of (n - 32) else c)"

fun canonical :: "bool \<Rightarrow> string \<Rightarrow> string" where
  "canonical up [] = []"
| "canonical up (c # s) = (let c' = (if up then upper_char c else lower_char c) in c' # canonical (c' = CHR 0x2D) s)"

definition CanonicalMIMEHeaderKey :: "string \<Rightarrow> string" where
  "CanonicalMIMEHeaderKey s = (if list_all valid_header_byte s then canonical True s else s)"

definition header_Get :: "header_map \<Rightarrow> string \<Rightarrow> string" where
  "header_Get h k = (case map_of h (CanonicalMIMEHeaderKey k) of Some (v # vs) \<Rightarrow> v | _ \<Rightarrow> '''')"

definition header_Set :: "string \<Rightarrow> string \<Rightarrow> header_map \<Rightarrow> header_map" where
  "header_Set k v h = AList.update (CanonicalMIMEHeaderKey k) [v] h"

lemma header_Get_Set:
  "header_Get (header_Set k v h) k' =
    (if CanonicalMIMEHeaderKey k = CanonicalMIMEHeaderKey k' then v else header_Get h k')"
  by (simp add: header_Get_def header_Set_def update_conv')

lemma header_Get_Set_same [simp]: "header_Get (header_Set k v h) k = v"
  by (simp add: header_Get_Set)

end
