(* ===== verification/HttpGateway.thy ===== *)
theory HttpGateway
  imports EndToEnd UrlForm
begin

text \<open>
  The HTTP gateway inside a server (\<^verbatim>\<open>server/gateway.go\<close>): telling RPC connections from HTTP ones by their
  first byte, turning an HTTP request into a message, and answering with what \<open>handleRequest\<close> returns.
  The router (\<^verbatim>\<open>httprouter\<close>) gives the two parameters of the path; reading the body may fail.
\<close>

section \<open>Telling the protocols apart\<close>

text \<open>The matcher reads one byte; \<^verbatim>\<open>cmux\<close> replays it to the listener that is chosen.\<close>

definition easyMicroPrefixByteMatcher :: "conn \<Rightarrow> bool" where
  "easyMicroPrefixByteMatcher r = (case conn_read r 1 of (buf, err, r) \<Rightarrow> length buf = 1 \<and> buf ! 0 = magicNumber)"

datatype listener = EasyMicroListener | HttpListener

definition route :: "(conn \<Rightarrow> bool) \<Rightarrow> conn \<Rightarrow> listener option" where
  "route http r = (if easyMicroPrefixByteMatcher r then Some EasyMicroListener
     else if http r then Some HttpListener else None)"

section \<open>The header names\<close>

definition EmVersion :: string where "EmVersion = ''Easymicro-Version''"
definition EmHeartbeat :: string where "EmHeartbeat = ''Easymicro-Heartbeat''"
definition EmOneway :: string where "EmOneway = ''Easymicro-Oneway''"
definition EmMessageStatusType :: string where "EmMessageStatusType = ''Easymicro-MessageStatusType''"
definition EmSerializeType :: string where "EmSerializeType = ''Easymicro-SerializeType''"
definition EmMessageID :: string where "EmMessageID = ''Easymicro-MessageID''"
definition EmServicePath :: string where "EmServicePath = ''Easymicro-ServicePath''"
definition EmServiceMethod :: string where "EmServiceMethod = ''Easymicro-ServiceMethod''"
definition EmMeta :: string where "EmMeta = ''Easymicro-Meta''"
definition EmErrorMessage :: string where "EmErrorMessage = ''Easymicro-ErrorMessage''"

lemmas em_names = EmVersion_def EmHeartbeat_def EmOneway_def EmMessageStatusType_def EmSerializeType_def
  EmMessageID_def EmServicePath_def EmServiceMethod_def EmMeta_def EmErrorMessage_def

section \<open>From HTTP to a message\<close>

record http_request =
  rq_Header :: header_map
  rq_Body :: "goerr + bytes"

text \<open>The first value of each key, as the loop over \<^verbatim>\<open>url.Values\<close> keeps it.\<close>

definition first_values :: "(string \<times> string list) list \<Rightarrow> smap" where
  "first_values vs = fold (\<lambda>(k, v) m. if length v > 0 then smap_put k (v ! 0) m else m) vs []"

text \<open>\<open>pooled\<close> is the message that \<open>GetPooledMsg\<close> returned; where this fails the message is dropped.\<close>

definition HTTPRequest2EmRpcRequest :: "message \<Rightarrow> http_request \<Rightarrow> goerr + message" where
  "HTTPRequest2EmRpcRequest pooled r =
    (let req = pooled\<lparr>mheader := SetMessageType Request (mheader pooled)\<rparr>;
         h = rq_Header r;
         req = (if header_Get h EmHeartbeat \<noteq> '''' then req\<lparr>mheader := SetHeartbeat True (mheader req)\<rparr> else req);
         req = (if header_Get h EmOneway \<noteq> '''' then req\<lparr>mheader := SetOneway True (mheader req)\<rparr> else req);
         meta = header_Get h EmMeta in
     case (if meta \<noteq> '''' then (case ParseQuery meta of
              Inl err \<Rightarrow> Inl err
            | Inr metadata \<Rightarrow> Inr (req\<lparr>Metadata := Some (first_values metadata)\<rparr>))
           else Inr req) of
       Inl err \<Rightarrow> Inl err
     | Inr req \<Rightarrow>
        (let auth = header_Get h ''Authorization'';
             req = (if auth \<noteq> '''' then
                 req\<lparr>Metadata := Some (smap_put AuthKey auth (case Metadata req of None \<Rightarrow> [] | Some md \<Rightarrow> md))\<rparr>
               else req) in
         case rq_Body r of
           Inl err \<Rightarrow> Inl err
         | Inr payload \<Rightarrow> Inr (req\<lparr>Payload := payload\<rparr>)))"

section \<open>Handling a request\<close>

record http_response =
  wh :: header_map
  code :: nat
  body :: bytes

text \<open>
  The checks of the \<^verbatim>\<open>switch\<close> up to the conversion: the response headers so far, with the error or the
  message's number and serialization type.
\<close>

definition gateway_check :: "string \<Rightarrow> string \<Rightarrow> header_map \<Rightarrow> header_map \<times> (goerr + u64 \<times> int)" where
  "gateway_check sp sm h =
    (let hs = header_Set EmVersion (header_Get h EmVersion) [];
         messageId = header_Get h EmMessageID;
         hs = header_Set EmMessageID messageId hs in
     if sp = '''' then (hs, Inl (ErrText ''empty servicepath''))
     else (let hs = header_Set EmServicePath sp hs in
     if sm = '''' then (hs, Inl (ErrText ''empty servicemethod''))
     else (let hs = header_Set EmServiceMethod sm hs;
               serializedType = header_Get h EmSerializeType in
     if serializedType = '''' then (hs, Inl (ErrText ''empty serialized type''))
     else (case Atoi serializedType of
         Inl e \<Rightarrow> (hs, Inl (ErrText ''invalid serialized type''))
       | Inr serializedTypeInt \<Rightarrow>
         (let hs = header_Set EmSerializeType (header_Get h EmSerializeType) hs in
          case ParseUint messageId 10 of
            Inl e \<Rightarrow> (hs, Inl (ErrText ''invalid message id''))
          | Inr messageIdInt \<Rightarrow> (hs, Inr (messageIdInt, serializedTypeInt)))))))"

text \<open>An answer to a request that is refused: the request's own headers are copied back first.\<close>

definition copy_headers :: "header_map \<Rightarrow> header_map \<Rightarrow> header_map" where
  "copy_headers rh hs =
     fold (\<lambda>(k, v) hs. if HasPrefix k ''Easymicro-'' \<and> length v > 0 then header_Set k (v ! 0) hs else hs) rh hs"

definition error_headers :: "string \<Rightarrow> header_map \<Rightarrow> header_map" where
  "error_headers msg hs = header_Set EmErrorMessage msg (header_Set EmMessageStatusType ''Error'' hs)"

definition refuse :: "'x server_env \<Rightarrow> http_request \<Rightarrow> header_map \<Rightarrow> goerr \<Rightarrow> http_response" where
  "refuse env r hs err = \<lparr>wh = error_headers (err_text (env_opentracing env) err) (copy_headers (rq_Header r) hs),
     code = 400, body = []\<rparr>"

text \<open>The answer to what \<open>handleRequest\<close> returned.\<close>

definition respond :: "'x server_env \<Rightarrow> header_map \<Rightarrow> message \<Rightarrow> goerr option \<Rightarrow> http_response" where
  "respond env hs res err = (case err of
      Some err \<Rightarrow> \<lparr>wh = error_headers (err_text (env_opentracing env) err) hs, code = 500, body = []\<rparr>
    | None \<Rightarrow> \<lparr>wh = header_Set EmMeta (Values_Encode (case Metadata res of None \<Rightarrow> [] | Some md \<Rightarrow> md)) hs,
        code = 200, body = Payload res\<rparr>)"

definition gateway_request :: "string \<Rightarrow> string \<Rightarrow> u64 \<Rightarrow> int \<Rightarrow> message \<Rightarrow> message" where
  "gateway_request sp sm n t req =
     req\<lparr>mheader := SetSerializeType (word_of_int t) (SetSeq n (mheader req)),
         ServicePath := ToLower sp, ServiceMethod := ToLower sm\<rparr>"

text \<open>
  \<open>handleGatewayRequest\<close>: the answer and the pools. \<open>None\<close> is a panic. \<open>ch\<close> is the choice of the pool for the
  request's message. The error of \<open>extractClientMdContexFromMd\<close> is overwritten, its nil context is used.
\<close>

definition handleGatewayRequest ::
  "'x server_env \<Rightarrow> 'x server \<Rightarrow> nat option \<Rightarrow> choices \<Rightarrow> string \<Rightarrow> string \<Rightarrow> http_request \<Rightarrow> 'x pools
     \<Rightarrow> (http_response \<times> 'x pools) option" where
  "handleGatewayRequest env server ch chs sp sm r w =
    (case gateway_check sp sm (rq_Header r) of
       (hs, Inl err) \<Rightarrow> Some (refuse env r hs err, w)
     | (hs, Inr (n, t)) \<Rightarrow>
        (case GetPooledMsg ch (msgPool w) of (pooled, mp) \<Rightarrow>
          (let w = w\<lparr>msgPool := mp\<rparr> in
           case HTTPRequest2EmRpcRequest pooled r of
             Inl err \<Rightarrow> Some (refuse env r hs err, w)
           | Inr req \<Rightarrow>
              (let req = gateway_request sp sm n t req in
               case (case extractClientMdContexFromMd Background (case Metadata req of None \<Rightarrow> [] | Some md \<Rightarrow> md) of
                   Inl err \<Rightarrow> handleRequest_nil env server chs req w
                 | Inr newCtx \<Rightarrow> handleRequest env server chs newCtx req w) of
                 None \<Rightarrow> None
               | Some ((res, err), w) \<Rightarrow>
                   Some (respond env hs res err,
                     w\<lparr>msgPool := FreeMsg (Some req) (FreeMsg (Some res) (msgPool w))\<rparr>)))))"

section \<open>Messages and headers\<close>

lemma first_values_fold:
  "distinct (map fst vs) \<Longrightarrow>
   map_of (fold (\<lambda>(k, v) m. if length v > 0 then smap_put k (v ! 0) m else m) vs m0) k =
     (case map_of vs k of Some (v # _) \<Rightarrow> Some v | _ \<Rightarrow> map_of m0 k)"
proof (induction vs arbitrary: m0)
  case (Cons kv vs)
  obtain k1 v where kv: "kv = (k1, v)" by (cases kv)
  show ?case
  proof (cases "k = k1")
    case True
    then have "map_of vs k = None" using Cons.prems by (auto simp: kv map_of_eq_None_iff)
    then show ?thesis using Cons True by (cases v) (simp_all add: kv update_conv')
  next
    case False
    then show ?thesis using Cons by (cases v) (auto simp: kv update_conv' split: option.splits list.splits)
  qed
qed simp

lemma first_values_single:
  assumes "distinct (map fst vs)" "map_of vs = map_option (\<lambda>v. [v]) \<circ> map_of m"
  shows "map_of (first_values vs) = map_of m"
proof
  fix k
  show "map_of (first_values vs) k = map_of m k"
    using first_values_fold [OF assms(1), of "[]" k] assms(2)
    by (cases "map_of m k") (simp_all add: first_values_def)
qed

lemma em_canonical:
  "CanonicalMIMEHeaderKey EmErrorMessage = ''Easymicro-Errormessage''"
  "CanonicalMIMEHeaderKey EmMessageStatusType = ''Easymicro-Messagestatustype''"
  "CanonicalMIMEHeaderKey EmMeta = ''Easymicro-Meta''"
  "CanonicalMIMEHeaderKey EmMessageID = ''Easymicro-Messageid''"
  "CanonicalMIMEHeaderKey EmSerializeType = ''Easymicro-Serializetype''"
  "CanonicalMIMEHeaderKey EmHeartbeat = ''Easymicro-Heartbeat''"
  "CanonicalMIMEHeaderKey EmOneway = ''Easymicro-Oneway''"
  "CanonicalMIMEHeaderKey EmVersion = ''Easymicro-Version''"
  "CanonicalMIMEHeaderKey ''Authorization'' = ''Authorization''"
  by code_simp+

lemma error_headers_fields [simp]:
  "header_Get (error_headers msg hs) EmErrorMessage = msg"
  "header_Get (error_headers msg hs) EmMessageStatusType = ''Error''"
  by (simp_all add: error_headers_def header_Get_Set em_canonical)

text \<open>When the checks let a request pass.\<close>

definition valid_request :: "string \<Rightarrow> string \<Rightarrow> header_map \<Rightarrow> bool" where
  "valid_request sp sm h \<longleftrightarrow> sp \<noteq> '''' \<and> sm \<noteq> '''' \<and> (\<exists>t. Atoi (header_Get h EmSerializeType) = Inr t) \<and>
     (\<exists>n. ParseUint (header_Get h EmMessageID) 10 = Inr n)"

lemma gateway_check_cases:
  "case snd (gateway_check sp sm h) of
     Inl err \<Rightarrow> \<not> valid_request sp sm h
   | Inr (n, t) \<Rightarrow> valid_request sp sm h \<and> Atoi (header_Get h EmSerializeType) = Inr t \<and>
       ParseUint (header_Get h EmMessageID) 10 = Inr n"
proof -
  have "Atoi '''' = Inl ErrSyntax" by (simp add: Atoi_def ParseUint_def)
  then show ?thesis
    by (auto simp: gateway_check_def valid_request_def Let_def split: sum.splits)
qed

section \<open>The first byte\<close>

lemma Encode_first_byte:
  assumes "sendable m"
  shows "\<exists>bs. snd (Encode comps m) = magicNumber # bs"
proof -
  have h: "hdr_wf (fst (encode_payload comps m))" "CheckMagicNumber (fst (encode_payload comps m))"
    using encode_payload_header [OF assms, of comps] by auto
  then obtain b bs where "fst (encode_payload comps m) = b # bs" by (cases "fst (encode_payload comps m)") (auto simp: hdr_wf_def)
  then show ?thesis using h(2) by (simp add: Encode_frame_sendable [OF assms] frame_def CheckMagicNumber_def)
qed

lemma route_first_byte:
  assumes "concat (pieces c) = b # bs" "\<forall>p \<in> set (pieces c). p \<noteq> []"
  shows "easyMicroPrefixByteMatcher c \<longleftrightarrow> b = magicNumber"
  using assms by (cases "pieces c") (auto simp: easyMicroPrefixByteMatcher_def conn_read_def neq_Nil_conv)

section \<open>Properties\<close>

text \<open>C8. The gateway speaks for the RPC: a valid HTTP request is answered with what the same request means on the RPC
  side; a reply comes back with status 200 as the body, an error with status 500 and its text in a header, and
  the gateway panics only where \<open>handleRequest\<close> does.\<close>

theorem gateway_refines_rpc:
  assumes valid: "Atoi (header_Get (rq_Header r) EmSerializeType) = Inr t"
      "ParseUint (header_Get (rq_Header r) EmMessageID) 10 = Inr n" "sp \<noteq> ''''" "sm \<noteq> ''''"
    and conv: "GetPooledMsg ch (msgPool w) = (pooled, mp)" "HTTPRequest2EmRpcRequest pooled r = Inr req0"
    and ctx: "extractClientMdContexFromMd Background (case Metadata req0 of None \<Rightarrow> [] | Some md \<Rightarrow> md) = Inr c"
    and pools: "pools_ok env (set (table_types (serviceMap server))) (argsReplyPools w)"
  shows "case rpc_spec env server c (gateway_request sp sm n t req0) of
      None \<Rightarrow> handleGatewayRequest env server ch chs sp sm r w = None
    | Some (RpcError e) \<Rightarrow> \<exists>resp w'. handleGatewayRequest env server ch chs sp sm r w = Some (resp, w') \<and>
        code resp = 500 \<and> body resp = [] \<and> header_Get (wh resp) EmMessageStatusType = ''Error'' \<and>
        header_Get (wh resp) EmErrorMessage = err_text (env_opentracing env) e
    | Some (RpcReply answ) \<Rightarrow> \<exists>resp w'. handleGatewayRequest env server ch chs sp sm r w = Some (resp, w') \<and>
        code resp = 200 \<and> (\<forall>d. answ = Some d \<longrightarrow> body resp = d)"
proof -
  let ?req = "gateway_request sp sm n t req0" and ?w = "w\<lparr>msgPool := mp\<rparr>"
  have "valid_request sp sm (rq_Header r)" using valid by (auto simp: valid_request_def)
  then obtain hs where check: "gateway_check sp sm (rq_Header r) = (hs, Inr (n, t))"
    using gateway_check_cases [of sp sm "rq_Header r"] valid
    by (cases "gateway_check sp sm (rq_Header r)") (auto split: sum.splits)
  have md: "Metadata ?req = Metadata req0" by (simp add: gateway_request_def)
  have eq: "handleGatewayRequest env server ch chs sp sm r w =
      (case handleRequest env server chs c ?req ?w of None \<Rightarrow> None
       | Some ((res, err), w) \<Rightarrow> Some (respond env hs res err,
           w\<lparr>msgPool := FreeMsg (Some ?req) (FreeMsg (Some res) (msgPool w))\<rparr>))"
    using check conv ctx by (simp add: handleGatewayRequest_def md Let_def)
  have res: "rpc_spec env server c ?req =
      map_option (\<lambda>(out, w'). result_of ?req out) (handleRequest env server chs c ?req ?w)"
    using pools by (intro handleRequest_result [symmetric]) simp
  show ?thesis
  proof (cases "handleRequest env server chs c ?req ?w")
    case None
    then show ?thesis using eq res by simp
  next
    case (Some x)
    obtain out err w' where x: "x = ((out, err), w')" by (metis surj_pair)
    show ?thesis
      using eq res Some x
      by (cases err) (simp_all add: result_of_def respond_def)
  qed
qed

text \<open>A valid request for the small server, and the message it becomes.\<close>

definition demo_http :: http_request where
  "demo_http = \<lparr>rq_Header = [(''Easymicro-Serializetype'', [''1'']), (''Easymicro-Messageid'', [''7'']),
     (''Easymicro-Meta'', [''k=a%26b''])], rq_Body = Inr [6, 7]\<rparr>"

lemma demo_http_fields:
  "header_Get (rq_Header demo_http) EmSerializeType = ''1''" "header_Get (rq_Header demo_http) EmMessageID = ''7''"
  "header_Get (rq_Header demo_http) EmHeartbeat = ''''" "header_Get (rq_Header demo_http) EmOneway = ''''"
  "header_Get (rq_Header demo_http) EmMeta = ''k=a%26b''" "header_Get (rq_Header demo_http) ''Authorization'' = ''''"
  by (simp_all add: header_Get_def em_canonical demo_http_def)

lemma demo_digits: "Atoi ''1'' = Inr 1" "ParseUint ''7'' 10 = Inr 7"
  by (simp_all add: Atoi_def ParseUint_def digit_val_def)

lemma demo_meta: "ParseQuery ''k=a%26b'' = Inr [(''k'', [''a&b''])]"
  by code_simp

definition demo_http_message :: message where
  "demo_http_message = NewMessage\<lparr>mheader := SetMessageType Request new_header,
     Metadata := Some [(''k'', ''a&b'')], Payload := [6, 7]\<rparr>"

lemma demo_http_converts: "HTTPRequest2EmRpcRequest NewMessage demo_http = Inr demo_http_message"
  by (simp add: HTTPRequest2EmRpcRequest_def demo_http_fields demo_meta first_values_def demo_http_message_def
      NewMessage_def) (simp add: demo_http_def)

definition demo_gateway_header :: header where
  "demo_gateway_header = SetSerializeType (word_of_int 1) (SetSeq 7 (SetMessageType Request new_header))"

lemma demo_gateway_header_fields: "SerializeType demo_gateway_header = JSON" "\<not> IsOneway demo_gateway_header"
  by code_simp+

lemma demo_gateway_names: "ToLower ''Arith'' = ''arith''" "ToLower ''mul'' = ''mul''"
  by (simp_all add: ToLower_def lower_char_def char_of_def bit_0)

lemma demo_gateway_spec:
  "rpc_spec demo_env demo_server c (gateway_request ''Arith'' ''mul'' 7 1 demo_http_message) = Some (RpcReply (Some [42]))"
proof -
  have "mheader (gateway_request ''Arith'' ''mul'' 7 1 demo_http_message) = demo_gateway_header"
    "ServicePath (gateway_request ''Arith'' ''mul'' 7 1 demo_http_message) = ''arith''"
    "ServiceMethod (gateway_request ''Arith'' ''mul'' 7 1 demo_http_message) = ''mul''"
    "Payload (gateway_request ''Arith'' ''mul'' 7 1 demo_http_message) = [6, 7]"
    by (simp_all add: gateway_request_def demo_http_message_def demo_gateway_header_def demo_gateway_names)
  then show ?thesis using demo_gateway_header_fields
    by (simp add: rpc_spec_def demo_serviceMap demo_env_def codec_Decode_def
      codec_Encode_def JSONCodec_Decode_def JSONCodec_Encode_def demo_libs_def demo_unmarshal_def
      demo_marshal_def typePools_New_def demo_mt_def demo_method_def run_method_def is_ptr_def
      service_call_def demo_mul_def rpc_reply_def Let_def del: protocol_consts)
qed

lemma demo_http_extract:
  "extractClientMdContexFromMd Background [(''k'', ''a&b'')] = Inr \<lparr>ctxReq = Some [(''k'', ''a&b'')], ctxSpan = None\<rparr>"
  by (simp add: extractClientMdContexFromMd_def extract_init_def extract_entry_def Let_def ToLower_def lower_char_def
      HasPrefix_def Background_def key_defs)

theorem gateway_refines_rpc_witness:
  "\<exists>resp w'. handleGatewayRequest demo_env demo_server None demo_choices ''Arith'' ''mul'' demo_http demo_pools = Some (resp, w') \<and>
     code resp = 200 \<and> body resp = [42]"
proof -
  have pool: "GetPooledMsg None (msgPool demo_pools) = (NewMessage, [])"
    by (simp add: GetPooledMsg_def demo_pools_def pool_New_def)
  have pools: "pools_ok demo_env (set (table_types (serviceMap demo_server))) (argsReplyPools demo_pools)"
    by (simp add: pools_ok_def demo_env_def)
  have ctx: "extractClientMdContexFromMd Background (case Metadata demo_http_message of None \<Rightarrow> [] | Some md \<Rightarrow> md) =
      Inr \<lparr>ctxReq = Some [(''k'', ''a&b'')], ctxSpan = None\<rparr>"
    using demo_http_extract by (simp add: demo_http_message_def)
  have fields: "Atoi (header_Get (rq_Header demo_http) EmSerializeType) = Inr 1"
    "ParseUint (header_Get (rq_Header demo_http) EmMessageID) 10 = Inr 7" "''Arith'' \<noteq> ''''" "''mul'' \<noteq> ''''"
    by (simp_all add: demo_http_fields demo_digits)
  show ?thesis
    using gateway_refines_rpc [OF fields pool demo_http_converts ctx pools, of demo_choices]
    by (simp add: demo_gateway_spec)
qed

text \<open>C27. Metadata cross HTTP unchanged: a request whose header carries the query form of a map becomes a message with this
  map, and the header of an answer parses back to the metadata of the response, whatever the characters in them.\<close>

theorem gateway_metadata_roundtrip:
  assumes "clean pooled" "smap_wf md" "header_Get (rq_Header r) EmMeta = Values_Encode md"
    and "header_Get (rq_Header r) ''Authorization'' = ''''" "rq_Body r = Inr d"
    and "md_wf (Metadata res)"
  shows "(\<exists>req. HTTPRequest2EmRpcRequest pooled r = Inr req \<and> Payload req = d \<and>
      map_of (case Metadata req of None \<Rightarrow> [] | Some md \<Rightarrow> md) = map_of md) \<and>
    (\<exists>vs. ParseQuery (header_Get (wh (respond env hs res None)) EmMeta) = Inr vs \<and>
      map_of (first_values vs) = map_of (case Metadata res of None \<Rightarrow> [] | Some md \<Rightarrow> md))"
proof
  have parse: "\<exists>vs. ParseQuery (Values_Encode m) = Inr vs \<and> map_of (first_values vs) = map_of m" if "smap_wf m" for m
    using ParseQuery_Encode [OF that] ParseQuery_distinct first_values_single by blast
  obtain vs where vs: "ParseQuery (Values_Encode md) = Inr vs" "map_of (first_values vs) = map_of md"
    using parse [OF assms(2)] by blast
  show "\<exists>req. HTTPRequest2EmRpcRequest pooled r = Inr req \<and> Payload req = d \<and>
      map_of (case Metadata req of None \<Rightarrow> [] | Some md \<Rightarrow> md) = map_of md"
  proof (cases "Values_Encode md = ''''")
    case True
    then have "vs = []" using vs(1) by (simp add: ParseQuery_def parse_loop.simps)
    then have "map_of md = Map.empty" using vs(2) by (simp add: first_values_def)
    then show ?thesis using True assms by (simp add: HTTPRequest2EmRpcRequest_def clean_def Let_def)
  next
    case False
    then show ?thesis using vs assms by (simp add: HTTPRequest2EmRpcRequest_def Let_def)
  qed
  have "smap_wf (case Metadata res of None \<Rightarrow> [] | Some md \<Rightarrow> md)"
    using assms(6) by (auto simp: md_wf_def smap_wf_def split: option.splits)
  from parse [OF this]
  show "\<exists>vs. ParseQuery (header_Get (wh (respond env hs res None)) EmMeta) = Inr vs \<and>
      map_of (first_values vs) = map_of (case Metadata res of None \<Rightarrow> [] | Some md \<Rightarrow> md)"
    by (simp add: respond_def)
qed

theorem gateway_metadata_roundtrip_witness:
  "\<exists>req. HTTPRequest2EmRpcRequest NewMessage demo_http = Inr req \<and> Payload req = [6, 7] \<and>
     map_of (case Metadata req of None \<Rightarrow> [] | Some md \<Rightarrow> md) = [''k'' \<mapsto> ''a&b'']"
proof -
  have e: "Values_Encode [(''k'', ''a&b'')] = ''k=a%26b''" by code_simp
  have m: "header_Get (rq_Header demo_http) EmMeta = Values_Encode [(''k'', ''a&b'')]"
    by (simp add: demo_http_fields e)
  have b: "rq_Body demo_http = Inr [6, 7]" by (simp add: demo_http_def)
  have wf: "smap_wf [(''k'', ''a&b'')]" by (simp add: smap_wf_def)
  show ?thesis
    using conjunct1 [OF gateway_metadata_roundtrip [OF clean_NewMessage wf m _ b, of NewMessage demo_env "[]"]]
    by (simp add: demo_http_fields md_wf_def NewMessage_def)
qed

text \<open>C40. A malformed HTTP request never reaches a handler: without a service, a method, a serialization type or a message
  number that parses it is refused with status 400 and the reason in a header, and nothing else happens.\<close>

theorem gateway_refuses_malformed:
  assumes "sp = '''' \<or> sm = '''' \<or> (\<forall>t. Atoi (header_Get (rq_Header r) EmSerializeType) \<noteq> Inr t) \<or>
    (\<forall>n. ParseUint (header_Get (rq_Header r) EmMessageID) 10 \<noteq> Inr n)"
  shows "\<exists>resp. handleGatewayRequest env server ch chs sp sm r w = Some (resp, w) \<and> code resp = 400 \<and> body resp = [] \<and>
    header_Get (wh resp) EmMessageStatusType = ''Error'' \<and>
    header_Get (wh resp) EmErrorMessage \<in> {''empty servicepath'', ''empty servicemethod'', ''empty serialized type'',
      ''invalid serialized type'', ''invalid message id''}"
proof -
  obtain hs out where check: "gateway_check sp sm (rq_Header r) = (hs, out)" by fastforce
  have "\<not> valid_request sp sm (rq_Header r)" using assms by (auto simp: valid_request_def)
  then obtain err where out: "out = Inl err"
    using gateway_check_cases [of sp sm "rq_Header r"] check by (cases out) auto
  then have "err \<in> ErrText ` {''empty servicepath'', ''empty servicemethod'', ''empty serialized type'',
      ''invalid serialized type'', ''invalid message id''}"
    using check by (auto simp: gateway_check_def Let_def split: if_splits sum.splits)
  then show ?thesis using check out by (auto simp: handleGatewayRequest_def refuse_def)
qed

theorem gateway_refuses_malformed_witness:
  "\<exists>resp. handleGatewayRequest demo_env demo_server None demo_choices ''Arith'' '''' demo_http demo_pools = Some (resp, demo_pools) \<and>
     code resp = 400"
  using gateway_refuses_malformed [of "''Arith''" "''''" demo_http demo_env demo_server None demo_choices demo_pools] by auto

text \<open>Corrupt tracing metadata crash the handling of an HTTP request: the error of the extraction is overwritten, and with
  the nil context the request panics as soon as its method is found and its payload decodes.\<close>

theorem gateway_corrupt_metadata_panics:
  assumes valid: "Atoi (header_Get (rq_Header r) EmSerializeType) = Inr t"
      "ParseUint (header_Get (rq_Header r) EmMessageID) 10 = Inr n" "sp \<noteq> ''''" "sm \<noteq> ''''"
    and conv: "GetPooledMsg ch (msgPool w) = (pooled, mp)" "HTTPRequest2EmRpcRequest pooled r = Inr req0"
    and corrupt: "extractClientMdContexFromMd Background (case Metadata req0 of None \<Rightarrow> [] | Some md \<Rightarrow> md) = Inl e"
    and found: "map_of (serviceMap server) (ToLower sp) = Some svc" "map_of (svcMethod svc) (ToLower sm) = Some mt"
      "env_codecs env (SerializeType (mheader (gateway_request sp sm n t req0))) = Some codec" "\<not> env_UsePool env"
    and decodes: "codec_Decode (env_libs env) codec (Payload req0) (typePools_New (env_New env) (ArgType mt)) = Some (None, argv)"
  shows "handleGatewayRequest env server ch chs sp sm r w = None"
proof -
  let ?req = "gateway_request sp sm n t req0"
  have f: "Metadata ?req = Metadata req0" "ServicePath ?req = ToLower sp" "ServiceMethod ?req = ToLower sm"
    "Payload ?req = Payload req0" by (simp_all add: gateway_request_def)
  have "valid_request sp sm (rq_Header r)" using valid by (auto simp: valid_request_def)
  then obtain hs where check: "gateway_check sp sm (rq_Header r) = (hs, Inr (n, t))"
    using gateway_check_cases [of sp sm "rq_Header r"] valid
    by (cases "gateway_check sp sm (rq_Header r)") (auto split: sum.splits)
  obtain p1 mp1 where "GetPooledMsg (chMsg chs) mp = (p1, mp1)" by fastforce
  then have "handleRequest_nil env server chs ?req (w\<lparr>msgPool := mp\<rparr>) = None"
    using found decodes f
    by (simp add: handleRequest_nil_def handleRequest_in_def invoke_nil_def Let_def)
  then show ?thesis using check conv corrupt f by (simp add: handleGatewayRequest_def Let_def)
qed

definition corrupt_http :: http_request where
  "corrupt_http = \<lparr>rq_Header = [(''Easymicro-Serializetype'', [''1'']), (''Easymicro-Messageid'', [''7'']),
     (''Easymicro-Meta'', [''ot-tracer-traceid=z''])], rq_Body = Inr [6, 7]\<rparr>"

lemma corrupt_http_fields:
  "header_Get (rq_Header corrupt_http) EmSerializeType = ''1''" "header_Get (rq_Header corrupt_http) EmMessageID = ''7''"
  "header_Get (rq_Header corrupt_http) EmHeartbeat = ''''" "header_Get (rq_Header corrupt_http) EmOneway = ''''"
  "header_Get (rq_Header corrupt_http) EmMeta = ''ot-tracer-traceid=z''"
  "header_Get (rq_Header corrupt_http) ''Authorization'' = ''''"
  by (simp_all add: header_Get_def em_canonical corrupt_http_def)

lemma corrupt_meta: "ParseQuery ''ot-tracer-traceid=z'' = Inr [(''ot-tracer-traceid'', [''z''])]"
  by code_simp

definition corrupt_message :: message where
  "corrupt_message = demo_http_message\<lparr>Metadata := Some [(''ot-tracer-traceid'', ''z'')]\<rparr>"

lemma corrupt_converts: "HTTPRequest2EmRpcRequest NewMessage corrupt_http = Inr corrupt_message"
  by (simp add: HTTPRequest2EmRpcRequest_def corrupt_http_fields corrupt_meta first_values_def demo_http_message_def
      NewMessage_def corrupt_message_def) (simp add: corrupt_http_def)

lemma corrupt_extract: "\<exists>e. extractClientMdContexFromMd Background [(''ot-tracer-traceid'', ''z'')] = Inl e"
  by (simp add: extractClientMdContexFromMd_def extract_entry_def Let_def ToLower_def lower_char_def key_defs
      ParseUint_def digit_val_def)

theorem gateway_corrupt_metadata_panics_witness:
  "handleGatewayRequest demo_env demo_server None demo_choices ''Arith'' ''mul'' corrupt_http demo_pools = None"
proof -
  have pool: "GetPooledMsg None (msgPool demo_pools) = (NewMessage, [])"
    by (simp add: GetPooledMsg_def demo_pools_def pool_New_def)
  obtain e where ctx: "extractClientMdContexFromMd Background (case Metadata corrupt_message of None \<Rightarrow> [] | Some md \<Rightarrow> md) = Inl e"
    using corrupt_extract by (auto simp: corrupt_message_def)
  have fields: "Atoi (header_Get (rq_Header corrupt_http) EmSerializeType) = Inr 1"
    "ParseUint (header_Get (rq_Header corrupt_http) EmMessageID) 10 = Inr 7" "''Arith'' \<noteq> ''''" "''mul'' \<noteq> ''''"
    by (simp_all add: corrupt_http_fields demo_digits)
  have hd: "mheader (gateway_request ''Arith'' ''mul'' 7 1 corrupt_message) = demo_gateway_header"
    by (simp add: gateway_request_def corrupt_message_def demo_http_message_def demo_gateway_header_def)
  have found: "map_of (serviceMap demo_server) (ToLower ''Arith'') = Some \<lparr>svcName = ''Arith'', svcMethod = [(''mul'', demo_mt)]\<rparr>"
    "map_of (svcMethod \<lparr>svcName = ''Arith'', svcMethod = [(''mul'', demo_mt)]\<rparr>) (ToLower ''mul'') = Some demo_mt"
    "env_codecs demo_env (SerializeType (mheader (gateway_request ''Arith'' ''mul'' 7 1 corrupt_message))) = Some JSONCodec"
    "\<not> env_UsePool demo_env"
    using demo_gateway_header_fields(1)
    by (simp_all add: demo_serviceMap demo_gateway_names hd demo_env_def del: protocol_consts)
  have dec: "codec_Decode (env_libs demo_env) JSONCodec (Payload corrupt_message) (typePools_New (env_New demo_env) (ArgType demo_mt)) =
      Some (None, GoObj [6, 7])"
    by (simp add: corrupt_message_def demo_http_message_def demo_env_def codec_Decode_def JSONCodec_Decode_def demo_libs_def
        demo_unmarshal_def typePools_New_def demo_mt_def)
  show ?thesis
    by (rule gateway_corrupt_metadata_panics [OF fields pool corrupt_converts ctx found dec])
qed

end
