(* ===== verification/GwProxy.thy ===== *)
theory GwProxy
  imports GwClient HttpGateway Balancer
begin

text \<open>
  The standalone gateway (\<^verbatim>\<open>gateway/client.go\<close>, \<^verbatim>\<open>gateway/gateway.go\<close>): it turns an HTTP request into a message and
  forwards it to a node of the service. The package refers to a discovery interface and a selector over nodes that
  the repository does not contain, so the list of nodes and the choice among them are parameters.
\<close>

section \<open>The client of a service\<close>

record gw_Client =
  gc_servicePath :: string
  gc_selectMode :: SelectMode
  gc_cachedClient :: "(string \<times> gw_RPCClient) list"
  gc_defaultRPCClient :: "gw_RPCClient option"
  gc_discovery :: bool
  gc_DialTimeout :: int

text \<open>\<open>NewClient\<close> for a fixed address; \<open>None\<close> is a panic while dialling.\<close>

definition gc_NewClient ::
  "net_lib \<Rightarrow> (goerr \<Rightarrow> string) \<Rightarrow> string \<Rightarrow> string \<Rightarrow> string \<Rightarrow> (goerr + gw_Client) option" where
  "gc_NewClient N txt nw addr sp =
    (let c = \<lparr>gc_servicePath = sp, gc_selectMode = SelectByUser, gc_cachedClient = [], gc_defaultRPCClient = None,
           gc_discovery = False, gc_DialTimeout = 0\<rparr> in
     case gw_NewRPCClient N txt nw addr sp (gc_DialTimeout c) of
       None \<Rightarrow> None
     | Some (Inl err) \<Rightarrow> Some (Inl err)
     | Some (Inr rpcClient) \<Rightarrow> Some (Inr (c\<lparr>gc_defaultRPCClient := Some rpcClient\<rparr>)))"

text \<open>\<open>NewDiscoveryClient\<close> panics on a nil discovery.\<close>

definition gc_NewDiscoveryClient :: "string \<Rightarrow> bool \<Rightarrow> gw_Client option" where
  "gc_NewDiscoveryClient sp dis =
    (if \<not> dis then None
     else Some \<lparr>gc_servicePath = ToLower sp, gc_selectMode = RoundRobin, gc_cachedClient = [], gc_defaultRPCClient = None,
       gc_discovery = True, gc_DialTimeout = 0\<rparr>)"

datatype gc_target = GcDefault | GcNode string

text \<open>
  \<open>selectRPCClient\<close>: \<open>nodes\<close> are the nodes that the discovery knows, \<open>pick\<close> the selector. \<open>must_dial\<close> is the code's condition on
  the cached client.
\<close>

definition must_dial :: "gw_RPCClient option \<Rightarrow> bool" where
  "must_dial rpcClient \<longleftrightarrow> (case rpcClient of
      None \<Rightarrow> True
    | Some r \<Rightarrow> gw_status r = ConnClose \<or> gw_status r = ConnReconnectFail)"

definition gc_selectRPCClient ::
  "net_lib \<Rightarrow> (goerr \<Rightarrow> string) \<Rightarrow> ServiceInfo list \<Rightarrow> (ServiceInfo list \<Rightarrow> ServiceInfo option) \<Rightarrow> gw_Client
     \<Rightarrow> ((goerr + gc_target) \<times> gw_Client) option" where
  "gc_selectRPCClient N txt nodes pick c =
    (if \<not> gc_discovery c then Some (Inr GcDefault, c)
     else if length nodes \<le> 0 then Some (Inl (ErrText ''no avaliable worker nodes''), c)
     else case pick nodes of
         None \<Rightarrow> Some (Inl no_worker, c)
       | Some selectedNode \<Rightarrow>
          (if \<not> must_dial (map_of (gc_cachedClient c) (si_Addr selectedNode)) then Some (Inr (GcNode (si_Addr selectedNode)), c)
           else (case gw_NewRPCClient N txt (si_Network selectedNode) (si_Addr selectedNode) (gc_servicePath c) (gc_DialTimeout c) of
               None \<Rightarrow> None
             | Some (Inl err) \<Rightarrow> Some (Inl err, c)
             | Some (Inr rCli) \<Rightarrow> Some (Inr (GcNode (si_Addr selectedNode)),
                 c\<lparr>gc_cachedClient := AList.update (si_Addr selectedNode) rCli (gc_cachedClient c)\<rparr>))))"

text \<open>\<open>Call\<close> and \<open>Go\<close>: where the message goes and under which method name, or the error (a nil call for \<open>Go\<close>).\<close>

definition gc_Call ::
  "net_lib \<Rightarrow> (goerr \<Rightarrow> string) \<Rightarrow> ServiceInfo list \<Rightarrow> (ServiceInfo list \<Rightarrow> ServiceInfo option) \<Rightarrow> string
     \<Rightarrow> gw_Client \<Rightarrow> ((goerr + gc_target \<times> string) \<times> gw_Client) option" where
  "gc_Call N txt nodes pick serviceMethod c = (case gc_selectRPCClient N txt nodes pick c of
      None \<Rightarrow> None
    | Some (Inl err, c) \<Rightarrow> Some (Inl err, c)
    | Some (Inr t, c) \<Rightarrow> Some (Inr (t, ToLower serviceMethod), c))"

definition gc_Go ::
  "net_lib \<Rightarrow> (goerr \<Rightarrow> string) \<Rightarrow> ServiceInfo list \<Rightarrow> (ServiceInfo list \<Rightarrow> ServiceInfo option) \<Rightarrow> string
     \<Rightarrow> gw_Client \<Rightarrow> ((gc_target \<times> string) option \<times> gw_Client) option" where
  "gc_Go N txt nodes pick serviceMethod c = (case gc_selectRPCClient N txt nodes pick c of
      None \<Rightarrow> None
    | Some (Inl err, c) \<Rightarrow> Some (None, c)
    | Some (Inr t, c) \<Rightarrow> Some (Some (t, serviceMethod), c))"

text \<open>The RPC client that a target stands for, and its new state.\<close>

definition gc_get :: "gc_target \<Rightarrow> gw_Client \<Rightarrow> gw_RPCClient option" where
  "gc_get t c = (case t of GcDefault \<Rightarrow> gc_defaultRPCClient c | GcNode a \<Rightarrow> map_of (gc_cachedClient c) a)"

definition gc_put :: "gc_target \<Rightarrow> gw_RPCClient \<Rightarrow> gw_Client \<Rightarrow> gw_Client" where
  "gc_put t r c = (case t of
      GcDefault \<Rightarrow> c\<lparr>gc_defaultRPCClient := Some r\<rparr>
    | GcNode a \<Rightarrow> c\<lparr>gc_cachedClient := AList.update a r (gc_cachedClient c)\<rparr>)"

text \<open>
  \<open>Call\<close> to its end: \<open>rpc r m req\<close> is \<open>Call\<close> of the RPC client \<open>r\<close> with what the network and the node do meanwhile. The result
  says also through which client the call went, whose reader owns the response. \<open>None\<close> is a panic or a call that never returns.
\<close>

type_synonym gw_rpc = "gw_RPCClient \<Rightarrow> string \<Rightarrow> message \<Rightarrow> ((message option \<times> goerr option) \<times> gw_RPCClient) option"

definition gc_remote_call ::
  "net_lib \<Rightarrow> (goerr \<Rightarrow> string) \<Rightarrow> ServiceInfo list \<Rightarrow> (ServiceInfo list \<Rightarrow> ServiceInfo option) \<Rightarrow> gw_rpc
     \<Rightarrow> gw_Client \<Rightarrow> string \<Rightarrow> message \<Rightarrow> ((gc_target option \<times> message option \<times> goerr option) \<times> gw_Client) option" where
  "gc_remote_call N txt nodes pick rpc c serviceMethod req = (case gc_Call N txt nodes pick serviceMethod c of
      None \<Rightarrow> None
    | Some (Inl err, c) \<Rightarrow> Some ((None, None, Some err), c)
    | Some (Inr (t, m), c) \<Rightarrow> (case gc_get t c of
          None \<Rightarrow> None
        | Some r \<Rightarrow> map_option (\<lambda>((res, err), r). ((Some t, res, err), gc_put t r c)) (rpc r m req)))"

text \<open>\<open>Close\<close>, with the cached clients and their pending calls in some order.\<close>

fun gc_close_all :: "(u64 \<times> nat) list list \<Rightarrow> (string \<times> gw_RPCClient) list \<Rightarrow> (string \<times> gw_RPCClient) list option" where
  "gc_close_all orders [] = Some []"
| "gc_close_all orders ((a, r) # rs) = (case gw_Close (hd (orders @ [[]])) r of
      None \<Rightarrow> None
    | Some r \<Rightarrow> map_option (\<lambda>rs. (a, r) # rs) (gc_close_all (tl orders) rs))"

definition gc_Close :: "(u64 \<times> nat) list \<Rightarrow> (u64 \<times> nat) list list \<Rightarrow> gw_Client \<Rightarrow> gw_Client option" where
  "gc_Close order orders c =
    (case (case gc_defaultRPCClient c of None \<Rightarrow> Some None | Some d \<Rightarrow> map_option Some (gw_Close order d)) of
       None \<Rightarrow> None
     | Some d \<Rightarrow> map_option (\<lambda>cs. c\<lparr>gc_defaultRPCClient := d, gc_cachedClient := cs\<rparr>) (gc_close_all orders (gc_cachedClient c)))"

section \<open>The gateway\<close>

record Gateway =
  gate_addr :: string
  gate_ends :: "string list"
  gate_clientMap :: "(string \<times> gw_Client) list"

definition NewGateway :: "string \<Rightarrow> string list \<Rightarrow> Gateway" where
  "NewGateway laddr ends = \<lparr>gate_addr = laddr, gate_ends = ends, gate_clientMap = []\<rparr>"

text \<open>\<open>GetClient\<close>: \<open>dis\<close> says whether the discovery could be made. It never returns an error.\<close>

definition GetClient :: "bool \<Rightarrow> string \<Rightarrow> Gateway \<Rightarrow> (gw_Client \<times> Gateway) option" where
  "GetClient dis svc gw = (case map_of (gate_clientMap gw) svc of
      Some c \<Rightarrow> Some (c, gw)
    | None \<Rightarrow> (case gc_NewDiscoveryClient svc dis of
         None \<Rightarrow> None
       | Some c \<Rightarrow> Some (c, gw\<lparr>gate_clientMap := AList.update svc c (gate_clientMap gw)\<rparr>)))"

text \<open>The checks of the request: as in the server's gateway, but without a message number.\<close>

definition gate_check :: "string \<Rightarrow> string \<Rightarrow> header_map \<Rightarrow> header_map \<times> (goerr + int)" where
  "gate_check sp sm h =
    (let hs = header_Set EmVersion (header_Get h EmVersion) [] in
     if sp = '''' then (hs, Inl (ErrText ''empty servicepath''))
     else (let hs = header_Set EmServicePath sp hs in
     if sm = '''' then (hs, Inl (ErrText ''empty servicemethod''))
     else (let hs = header_Set EmServiceMethod sm hs;
               serializedType = header_Get h EmSerializeType in
     if serializedType = '''' then (hs, Inl (ErrText ''empty serialized type''))
     else (case Atoi serializedType of
         Inl e \<Rightarrow> (hs, Inl (ErrText ''invalid serialized type''))
       | Inr serializedTypeInt \<Rightarrow> (header_Set EmSerializeType (header_Get h EmSerializeType) hs, Inr serializedTypeInt)))))"

definition gate_request :: "string \<Rightarrow> string \<Rightarrow> int \<Rightarrow> message \<Rightarrow> message" where
  "gate_request sp sm t req =
     req\<lparr>mheader := SetSerializeType (word_of_int t) (mheader req), ServicePath := ToLower sp, ServiceMethod := ToLower sm\<rparr>"

definition gate_refuse :: "(goerr \<Rightarrow> string) \<Rightarrow> http_request \<Rightarrow> header_map \<Rightarrow> goerr \<Rightarrow> http_response" where
  "gate_refuse txt r hs err = \<lparr>wh = error_headers (txt err) (copy_headers (rq_Header r) hs), code = 400, body = []\<rparr>"

text \<open>The response that goes back to the pool is the message of the reader it came from, which is reset by this.\<close>

definition reset_reply :: "gc_target option \<Rightarrow> message option \<Rightarrow> gw_Client \<Rightarrow> gw_Client" where
  "reset_reply t res c = (case (t, res) of
      (Some t, Some m) \<Rightarrow> (case gc_get t c of None \<Rightarrow> c | Some r \<Rightarrow> gc_put t (r\<lparr>gw_resp := Reset m\<rparr>) c)
    | _ \<Rightarrow> c)"

definition store_client :: "string \<Rightarrow> gw_Client \<Rightarrow> Gateway \<Rightarrow> Gateway" where
  "store_client svc c gw = gw\<lparr>gate_clientMap := AList.update svc c (gate_clientMap gw)\<rparr>"

text \<open>
  \<open>handleRequest\<close>: \<open>call c method req\<close> is the whole of \<^verbatim>\<open>client.Call\<close> on the client of the service: what it returns and the client
  afterwards, or a panic. The service path is passed as the method name. \<open>mp\<close> is the pool of messages; the response goes
  back to it before the request does. (In the pool it is the same object as the reader's; here they are two values.)
\<close>

definition gate_handleRequest ::
  "(goerr \<Rightarrow> string)
     \<Rightarrow> (gw_Client \<Rightarrow> string \<Rightarrow> message \<Rightarrow> ((gc_target option \<times> message option \<times> goerr option) \<times> gw_Client) option) \<Rightarrow> bool \<Rightarrow> nat option
     \<Rightarrow> string \<Rightarrow> string \<Rightarrow> http_request \<Rightarrow> Gateway \<Rightarrow> message list \<Rightarrow> (http_response \<times> Gateway \<times> message list) option" where
  "gate_handleRequest txt call dis ch sp sm r gw mp =
    (case gate_check sp sm (rq_Header r) of
       (hs, Inl err) \<Rightarrow> Some (gate_refuse txt r hs err, gw, mp)
     | (hs, Inr t) \<Rightarrow>
        (case GetPooledMsg ch mp of (pooled, mp) \<Rightarrow>
          (case HTTPRequest2EmRpcRequest pooled r of
             Inl err \<Rightarrow> Some (gate_refuse txt r hs err, gw, mp)
           | Inr req \<Rightarrow>
              (let req = gate_request sp sm t req in
               case GetClient dis (ServicePath req) gw of
                 None \<Rightarrow> None
               | Some (c, gw) \<Rightarrow>
                  (case call c (ServicePath req) req of
                     None \<Rightarrow> None
                   | Some ((t, res, Some err), c) \<Rightarrow>
                       Some (\<lparr>wh = error_headers (txt err) hs, code = 500, body = []\<rparr>,
                         store_client (ServicePath req) (reset_reply t res c) gw, FreeMsg (Some req) (FreeMsg res mp))
                   | Some ((t, None, None), c) \<Rightarrow> None
                   | Some ((t, Some res, None), c) \<Rightarrow>
                       Some (\<lparr>wh = header_Set EmMeta (Values_Encode (case Metadata res of None \<Rightarrow> [] | Some md \<Rightarrow> md)) hs,
                           code = 200, body = Payload res\<rparr>,
                         store_client (ServicePath req) (reset_reply t (Some res) c) gw,
                         FreeMsg (Some req) (FreeMsg (Some res) mp)))))))"

section \<open>Requests on their way to a node\<close>

lemma first_values_wf: "smap_wf (first_values vs)"
proof -
  have "smap_wf m \<Longrightarrow> smap_wf (fold (\<lambda>(k, v) m. if length v > 0 then smap_put k (v ! 0) m else m) vs m)" for m
    by (induction vs arbitrary: m) (auto simp: smap_wf_def distinct_update)
  then show ?thesis by (simp add: first_values_def smap_wf_def)
qed

text \<open>The headers of the message that an HTTP request becomes.\<close>

definition http_header :: "header_map \<Rightarrow> header \<Rightarrow> header" where
  "http_header h x =
    (let x = SetMessageType Request x;
         x = (if header_Get h EmHeartbeat \<noteq> '''' then SetHeartbeat True x else x)
     in if header_Get h EmOneway \<noteq> '''' then SetOneway True x else x)"

lemma http_header_fields:
  assumes "hdr_wf x"
  shows "hdr_wf (http_header h x)" "CheckMagicNumber (http_header h x) = CheckMagicNumber x"
    "CompressType (http_header h x) = CompressType x" "MessageStatusType (http_header h x) = MessageStatusType x"
    "IsHeartbeat (http_header h x) = (header_Get h EmHeartbeat \<noteq> '''' \<or> IsHeartbeat x)"
    "IsOneway (http_header h x) = (header_Get h EmOneway \<noteq> '''' \<or> IsOneway x)"
  using assms by (simp_all add: http_header_def Let_def hdr del: protocol_consts)

lemma http_message:
  assumes "HTTPRequest2EmRpcRequest pooled r = Inr req" "md_wf (Metadata pooled)"
  shows "mheader req = http_header (rq_Header r) (mheader pooled)" "rq_Body r = Inr (Payload req)"
    "mdata req = mdata pooled" "md_wf (Metadata req)"
  using assms first_values_wf
  by (auto simp: HTTPRequest2EmRpcRequest_def http_header_def Let_def md_wf_def smap_wf_def distinct_update
      split: sum.splits if_splits option.splits)

text \<open>The message as \<open>gw_send_transmit\<close> encodes it.\<close>

definition gate_sent :: "string \<Rightarrow> string \<Rightarrow> int \<Rightarrow> u64 \<Rightarrow> message \<Rightarrow> message" where
  "gate_sent sp sm t sq req = (gate_request sp sm t req)\<lparr>mheader := SetSeq sq (mheader (gate_request sp sm t req))\<rparr>"

lemma gate_sent_sendable:
  assumes "clean pooled" "HTTPRequest2EmRpcRequest pooled r = Inr req"
  shows "sendable (gate_sent sp sm t sq req)" "CompressType (mheader (gate_sent sp sm t sq req)) = NoCompress"
    "Seq (mheader (gate_sent sp sm t sq req)) = sq"
    "SerializeType (mheader (gate_sent sp sm t sq req)) = word_of_int t AND 15"
    "MessageStatusType (mheader (gate_sent sp sm t sq req)) = Normal"
    "IsHeartbeat (mheader (gate_sent sp sm t sq req)) = (header_Get (rq_Header r) EmHeartbeat \<noteq> '''')"
    "IsOneway (mheader (gate_sent sp sm t sq req)) = (header_Get (rq_Header r) EmOneway \<noteq> '''')"
proof -
  have wf: "md_wf (Metadata pooled)" using assms(1) by (simp add: clean_def md_wf_def)
  note m = http_message [OF assms(2) wf]
  have x: "hdr_wf (mheader pooled)" "CheckMagicNumber (mheader pooled)" "CompressType (mheader pooled) = NoCompress"
    "MessageStatusType (mheader pooled) = Normal" "\<not> IsHeartbeat (mheader pooled)" "\<not> IsOneway (mheader pooled)"
    using assms(1) new_header_fields by (simp_all add: clean_def) code_simp+
  note h = http_header_fields [OF x(1), of "rq_Header r"]
  show "sendable (gate_sent sp sm t sq req)" "CompressType (mheader (gate_sent sp sm t sq req)) = NoCompress"
    "Seq (mheader (gate_sent sp sm t sq req)) = sq"
    "SerializeType (mheader (gate_sent sp sm t sq req)) = word_of_int t AND 15"
    "MessageStatusType (mheader (gate_sent sp sm t sq req)) = Normal"
    "IsHeartbeat (mheader (gate_sent sp sm t sq req)) = (header_Get (rq_Header r) EmHeartbeat \<noteq> '''')"
    "IsOneway (mheader (gate_sent sp sm t sq req)) = (header_Get (rq_Header r) EmOneway \<noteq> '''')"
    using m h x assms(1)
    by (simp_all add: gate_sent_def gate_request_def sendable_def msg_wf_def clean_def md_wf_def hdr mask_eq_exp_minus_1
        del: protocol_consts)
qed

text \<open>The forwarded message arrives at the node, behind whatever the network still delivers.\<close>

lemma gate_arrives:
  assumes conv: "clean pooled" "HTTPRequest2EmRpcRequest pooled r = Inr req"
    and ok: "acceptable maxlen (16 + length sp + length sm + length (encodeMetadata (Metadata req)) + length (Payload req))"
    and recv: "compressors_ok comps" "clean t0"
    and rest: "bufio_rest b = snd (Encode comps (gate_sent sp sm t sq req)) @ tail"
  shows "\<exists>m b'. Decode bufio_readfull comps maxlen t0 b = Some (m, None, b') \<and> hdr_wf (mheader m) \<and>
    CheckMagicNumber (mheader m) \<and> ServicePath m = ToLower sp \<and> ServiceMethod m = ToLower sm \<and> Payload m = Payload req \<and>
    Metadata m = decoded_metadata (Metadata req) None \<and> SerializeType (mheader m) = word_of_int t AND 15 \<and>
    Seq (mheader m) = sq \<and> MessageStatusType (mheader m) = Normal \<and>
    IsHeartbeat (mheader m) = (header_Get (rq_Header r) EmHeartbeat \<noteq> '''') \<and>
    IsOneway (mheader m) = (header_Get (rq_Header r) EmOneway \<noteq> '''')"
proof -
  let ?m = "gate_sent sp sm t sq req"
  note s = gate_sent_sendable [OF conv, of sp sm t sq]
  have f: "ServicePath ?m = ToLower sp" "ServiceMethod ?m = ToLower sm" "Payload ?m = Payload req" "Metadata ?m = Metadata req"
    by (simp_all add: gate_sent_def gate_request_def)
  have size: "acceptable maxlen (body_size comps ?m)"
    using ok s(2) f by (simp add: body_size_def encode_payload_def ToLower_def add.assoc)
  from bufio.Decode_Encode [OF s(1) clean_receiver [OF recv(2)] recv(1) size rest]
  obtain m b' where m: "received comps ?m t0 m" "receiver m" "Decode bufio_readfull comps maxlen t0 b = Some (m, None, b')"
    by blast
  have "CheckMagicNumber (mheader m)"
    using encode_payload_header [OF s(1), of comps] m(1) by (simp add: received_def Encode_message)
  moreover note encode_header_fields [OF sendableD(1) [OF s(1)], of comps]
  moreover have "Metadata t0 = None" using recv(2) by (simp add: clean_def)
  ultimately show ?thesis
    using m f s(3-7) by (simp add: received_def receiver_def del: protocol_consts)
qed

section \<open>Properties\<close>

definition demo_gw :: gw_RPCClient where
  "demo_gw = gw_make_client ''tcp'' ''a:1'' ''Arith'' 0 \<lparr>pieces = [], cend = EOF\<rparr>"

text \<open>C29. Which connection the client of a service uses for the node that the selector picked: the cached one, without dialling,
  when its status is available or reconnecting; a new one, dialled to the node's address and stored in place of a cached one,
  when there is none or it is closed or has failed to reconnect; the error of dialling, and no change, when that
  fails. The connections of the other nodes stay. So what is handed out is available or reconnecting, and in the
  second case a call through it fails at once with \<^verbatim>\<open>ErrShutdown\<close>.\<close>

theorem selected_client_usable:
  assumes "gc_discovery c" "nodes \<noteq> []" "pick nodes = Some n"
    and "gc_selectRPCClient N txt nodes pick c = Some (out, c')"
  shows "((\<exists>r. map_of (gc_cachedClient c) (si_Addr n) = Some r \<and> gw_status r \<in> {ConnAvailable, ConnReconnect}) \<longrightarrow>
      out = Inr (GcNode (si_Addr n)) \<and> c' = c) \<and>
    ((\<forall>r. map_of (gc_cachedClient c) (si_Addr n) = Some r \<longrightarrow> gw_status r \<in> {ConnClose, ConnReconnectFail}) \<longrightarrow>
      (case gw_NewRPCClient N txt (si_Network n) (si_Addr n) (gc_servicePath c) (gc_DialTimeout c) of
         None \<Rightarrow> False
       | Some (Inl err) \<Rightarrow> out = Inl err \<and> c' = c
       | Some (Inr r) \<Rightarrow> out = Inr (GcNode (si_Addr n)) \<and> gw_status r = ConnAvailable \<and> gw_address r = si_Addr n \<and>
           c' = c\<lparr>gc_cachedClient := gc_cachedClient c'\<rparr> \<and>
           map_of (gc_cachedClient c') = (map_of (gc_cachedClient c))(si_Addr n \<mapsto> r))) \<and>
    (\<forall>r i now. map_of (gc_cachedClient c') (si_Addr n) = Some r \<and> gw_status r = ConnReconnect \<and> i < length (gw_calls r) \<longrightarrow>
      gError (gw_calls (gw_send_register now i r) ! i) = Some ErrShutdown)"
proof -
  have fresh: "gw_status r = ConnAvailable \<and> gw_address r = si_Addr n"
    if "gw_NewRPCClient N txt nw (si_Addr n) sp timeout = Some (Inr r)" for nw sp timeout r
    using that by (auto simp: gw_NewRPCClient_def gw_make_client_def split: if_splits sum.splits option.splits)
  show ?thesis
  proof (cases "must_dial (map_of (gc_cachedClient c) (si_Addr n))")
    case True
    then have old: "\<not> (\<exists>r. map_of (gc_cachedClient c) (si_Addr n) = Some r \<and> gw_status r \<in> {ConnAvailable, ConnReconnect})"
      by (auto simp: must_dial_def)
    show ?thesis using assms True old fresh
      by (auto simp: gc_selectRPCClient_def update_conv' split: option.splits sum.splits)
  next
    case False
    then obtain r where r: "map_of (gc_cachedClient c) (si_Addr n) = Some r" "gw_status r \<noteq> ConnClose" "gw_status r \<noteq> ConnReconnectFail"
      by (auto simp: must_dial_def split: option.splits)
    show ?thesis using assms False r by (auto simp: gc_selectRPCClient_def gw_send_register_def)
  qed
qed

definition demo_proxy_nodes :: "ServiceInfo list" where
  "demo_proxy_nodes = [\<lparr>si_Name = ''arith'', si_Addr = ''a:1'', si_Network = ''tcp''\<rparr>]"

definition demo_proxy :: gw_Client where
  "demo_proxy = \<lparr>gc_servicePath = ''arith'', gc_selectMode = RoundRobin,
     gc_cachedClient = [(''a:1'', demo_gw\<lparr>gw_status := ConnReconnectFail\<rparr>)], gc_defaultRPCClient = None,
     gc_discovery = True, gc_DialTimeout = 0\<rparr>"

definition demo_proxy_net :: net_lib where
  "demo_proxy_net = \<lparr>net_DialTimeout = (\<lambda>_ _ _. Inl EOF), net_Dial = (\<lambda>_ _. Inr \<lparr>pieces = [], cend = EOF\<rparr>),
     http_ReadResponse = (\<lambda>_ _. Inl EOF)\<rparr>"

text \<open>The witness: the cached connection had failed to reconnect.\<close>

theorem selected_client_usable_witness:
  "\<exists>r c'. gc_selectRPCClient demo_proxy_net (\<lambda>e. '''') demo_proxy_nodes (\<lambda>ns. Some (hd ns)) demo_proxy =
       Some (Inr (GcNode ''a:1''), c') \<and> map_of (gc_cachedClient c') ''a:1'' = Some r \<and> gw_status r = ConnAvailable"
proof -
  let ?n = "\<lparr>si_Name = ''arith'', si_Addr = ''a:1'', si_Network = ''tcp''\<rparr>"
  have d: "gc_discovery demo_proxy" "demo_proxy_nodes \<noteq> []" "Some (hd demo_proxy_nodes) = Some ?n"
    by (simp_all add: demo_proxy_def demo_proxy_nodes_def)
  have old: "\<forall>r. map_of (gc_cachedClient demo_proxy) (si_Addr ?n) = Some r \<longrightarrow> gw_status r \<in> {ConnClose, ConnReconnectFail}"
    by (simp add: demo_proxy_def)
  obtain r where dial: "gw_NewRPCClient demo_proxy_net (\<lambda>e. '''') (si_Network ?n) (si_Addr ?n) (gc_servicePath demo_proxy)
      (gc_DialTimeout demo_proxy) = Some (Inr r)"
    by (simp add: gw_NewRPCClient_def gw_Dial_def demo_proxy_net_def demo_proxy_def)
  obtain out c' where c': "gc_selectRPCClient demo_proxy_net (\<lambda>e. '''') demo_proxy_nodes (\<lambda>ns. Some (hd ns)) demo_proxy = Some (out, c')"
    by (simp add: gc_selectRPCClient_def demo_proxy_nodes_def demo_proxy_def must_dial_def gw_NewRPCClient_def gw_Dial_def
        demo_proxy_net_def)
  from selected_client_usable [OF d c', THEN conjunct2, THEN conjunct1, THEN mp, OF old] c' show ?thesis
    unfolding dial by auto
qed

end
