(* ===== verification/GwCall.thy ===== *)
theory GwCall
  imports GwProxy
begin

text \<open>
  A whole request through the standalone gateway: HTTP to the gateway, a message to the node, the node's answer back
  as an HTTP response. The parts are those of the other theories; the node is a connection of a server.
\<close>

section \<open>The exchange with the node\<close>









section \<open>Properties\<close>



end
