(* ===== verification/Metrics.thy ===== *)
theory Metrics
  imports Prelude
begin

text \<open>
  The metrics (\<^verbatim>\<open>metrics/prometheus.go\<close>): label values are a Go slice, so that appending to it may write into an
  array that other metrics share. The arrays are an explicit store. How much capacity a growing slice gets is up to
  the Go runtime (\<open>grow\<close>), and the vectors of prometheus are a parameter.
\<close>

section \<open>Slices of strings\<close>

text \<open>A slice from the start of an array; the nil slice has length and capacity 0.\<close>

record str_slice =
  sarr :: nat
  slen :: nat
  scap :: nat

type_synonym arrays = "string list list"
type_synonym LabelValues = str_slice

definition nil_slice :: str_slice where
  "nil_slice = \<lparr>sarr = 0, slen = 0, scap = 0\<rparr>"

definition contents :: "arrays \<Rightarrow> str_slice \<Rightarrow> string list" where
  "contents h s = take (slen s) (h ! sarr s)"

definition slice_ok :: "arrays \<Rightarrow> str_slice \<Rightarrow> bool" where
  "slice_ok h s \<longleftrightarrow> slen s \<le> scap s \<and> (scap s > 0 \<longrightarrow> sarr s < length h \<and> length (h ! sarr s) = scap s)"

text \<open>
  \<^verbatim>\<open>append\<close>: in place while the capacity suffices, else into a new array. The runtime grows a slice to a capacity of
  at least what is needed.
\<close>

definition str_append :: "(nat \<Rightarrow> nat \<Rightarrow> nat) \<Rightarrow> str_slice \<Rightarrow> string list \<Rightarrow> arrays \<Rightarrow> str_slice \<times> arrays" where
  "str_append grow s xs h =
    (let n = slen s + length xs in
     if n \<le> scap s then (s\<lparr>slen := n\<rparr>, h[sarr s := take (slen s) (h ! sarr s) @ xs @ drop n (h ! sarr s)])
     else (let c = grow (scap s) n in
       (\<lparr>sarr = length h, slen = n, scap = c\<rparr>, h @ [contents h s @ xs @ replicate (c - n) ''''])))"

definition grows :: "(nat \<Rightarrow> nat \<Rightarrow> nat) \<Rightarrow> bool" where
  "grows grow \<longleftrightarrow> (\<forall>c n. n \<le> grow c n)"

text \<open>The capacity that the runtime computes for short slices: double it, unless even that is too little.\<close>

definition doubling :: "nat \<Rightarrow> nat \<Rightarrow> nat" where
  "doubling c n = (if n > 2 * c then n else 2 * c)"

section \<open>Label values\<close>

text \<open>\<open>With\<close>: an odd number of arguments is filled up.\<close>

definition LabelValues_With :: "(nat \<Rightarrow> nat \<Rightarrow> nat) \<Rightarrow> LabelValues \<Rightarrow> str_slice \<Rightarrow> arrays \<Rightarrow> LabelValues \<times> arrays" where
  "LabelValues_With grow lvs labelValues h =
    (case (if slen labelValues mod 2 \<noteq> 0 then str_append grow labelValues [''unknown''] h else (labelValues, h)) of
       (labelValues, h) \<Rightarrow> str_append grow lvs (contents h labelValues) h)"

text \<open>\<open>makeLabels\<close>: \<open>None\<close> is the index out of range behind an odd number of values.\<close>

fun makeLabels_loop :: "string list \<Rightarrow> smap \<Rightarrow> smap option" where
  "makeLabels_loop [] labels = Some labels"
| "makeLabels_loop [k] labels = None"
| "makeLabels_loop (k # v # lvs) labels = makeLabels_loop lvs (smap_put k v labels)"

definition makeLabels :: "string list \<Rightarrow> smap option" where
  "makeLabels labelValues = makeLabels_loop labelValues []"

section \<open>The metrics\<close>

text \<open>
  The registry \<open>'p\<close> and the vectors \<open>'v\<close> of prometheus: making a vector, registering it, and what a vector does with
  the metric of some labels. \<open>None\<close> is a panic there: of \<^verbatim>\<open>MustRegister\<close>, or of \<^verbatim>\<open>With\<close> on other labels than declared.
\<close>

record ('o, 'v, 'f, 'p) prom =
  NewVec :: "'o \<Rightarrow> string list \<Rightarrow> 'v"
  MustRegister :: "'v \<Rightarrow> 'p \<Rightarrow> 'p option"
  vec_Add :: "'v \<Rightarrow> smap \<Rightarrow> 'f \<Rightarrow> 'p \<Rightarrow> 'p option"
  vec_Set :: "'v \<Rightarrow> smap \<Rightarrow> 'f \<Rightarrow> 'p \<Rightarrow> 'p option"
  vec_Observe :: "'v \<Rightarrow> smap \<Rightarrow> 'f \<Rightarrow> 'p \<Rightarrow> 'p option"

record 'v PrometheusCounter =
  cv :: 'v
  c_lvs :: LabelValues

definition NewCounter :: "'v \<Rightarrow> 'v PrometheusCounter" where
  "NewCounter v = \<lparr>cv = v, c_lvs = nil_slice\<rparr>"

definition NewCounterFrom :: "('o, 'v, 'f, 'p) prom \<Rightarrow> 'o \<Rightarrow> string list \<Rightarrow> 'p \<Rightarrow> ('v PrometheusCounter \<times> 'p) option" where
  "NewCounterFrom P opts labelNames p =
    (let v = NewVec P opts labelNames in map_option (\<lambda>p. (NewCounter v, p)) (MustRegister P v p))"

definition Counter_With :: "(nat \<Rightarrow> nat \<Rightarrow> nat) \<Rightarrow> 'v PrometheusCounter \<Rightarrow> str_slice \<Rightarrow> arrays \<Rightarrow> 'v PrometheusCounter \<times> arrays" where
  "Counter_With grow c labelValues h =
    (case LabelValues_With grow (c_lvs c) labelValues h of (lvs, h) \<Rightarrow> (\<lparr>cv = cv c, c_lvs = lvs\<rparr>, h))"

definition Counter_Add :: "('o, 'v, 'f, 'p) prom \<Rightarrow> arrays \<Rightarrow> 'v PrometheusCounter \<Rightarrow> 'f \<Rightarrow> 'p \<Rightarrow> 'p option" where
  "Counter_Add P h c delta p = (case makeLabels (contents h (c_lvs c)) of
      None \<Rightarrow> None
    | Some labels \<Rightarrow> vec_Add P (cv c) labels delta p)"

record 'v PrometheusGauge =
  gv :: 'v
  g_lvs :: LabelValues

definition NewGauge :: "'v \<Rightarrow> 'v PrometheusGauge" where
  "NewGauge v = \<lparr>gv = v, g_lvs = nil_slice\<rparr>"

definition NewGaugeFrom :: "('o, 'v, 'f, 'p) prom \<Rightarrow> 'o \<Rightarrow> string list \<Rightarrow> 'p \<Rightarrow> ('v PrometheusGauge \<times> 'p) option" where
  "NewGaugeFrom P opts labelNames p =
    (let v = NewVec P opts labelNames in map_option (\<lambda>p. (NewGauge v, p)) (MustRegister P v p))"

definition Gauge_With :: "(nat \<Rightarrow> nat \<Rightarrow> nat) \<Rightarrow> 'v PrometheusGauge \<Rightarrow> str_slice \<Rightarrow> arrays \<Rightarrow> 'v PrometheusGauge \<times> arrays" where
  "Gauge_With grow g labelValues h =
    (case LabelValues_With grow (g_lvs g) labelValues h of (lvs, h) \<Rightarrow> (\<lparr>gv = gv g, g_lvs = lvs\<rparr>, h))"

definition Gauge_Set :: "('o, 'v, 'f, 'p) prom \<Rightarrow> arrays \<Rightarrow> 'v PrometheusGauge \<Rightarrow> 'f \<Rightarrow> 'p \<Rightarrow> 'p option" where
  "Gauge_Set P h g x p = (case makeLabels (contents h (g_lvs g)) of
      None \<Rightarrow> None
    | Some labels \<Rightarrow> vec_Set P (gv g) labels x p)"

definition Gauge_Add :: "('o, 'v, 'f, 'p) prom \<Rightarrow> arrays \<Rightarrow> 'v PrometheusGauge \<Rightarrow> 'f \<Rightarrow> 'p \<Rightarrow> 'p option" where
  "Gauge_Add P h g delta p = (case makeLabels (contents h (g_lvs g)) of
      None \<Rightarrow> None
    | Some labels \<Rightarrow> vec_Add P (gv g) labels delta p)"

record 'v PrometheusSummary =
  sv :: 'v
  s_lvs :: LabelValues

definition NewSummary :: "'v \<Rightarrow> 'v PrometheusSummary" where
  "NewSummary v = \<lparr>sv = v, s_lvs = nil_slice\<rparr>"

definition NewSummaryFrom :: "('o, 'v, 'f, 'p) prom \<Rightarrow> 'o \<Rightarrow> string list \<Rightarrow> 'p \<Rightarrow> ('v PrometheusSummary \<times> 'p) option" where
  "NewSummaryFrom P opts labelNames p =
    (let v = NewVec P opts labelNames in map_option (\<lambda>p. (NewSummary v, p)) (MustRegister P v p))"

definition Summary_With :: "(nat \<Rightarrow> nat \<Rightarrow> nat) \<Rightarrow> 'v PrometheusSummary \<Rightarrow> str_slice \<Rightarrow> arrays \<Rightarrow> 'v PrometheusSummary \<times> arrays" where
  "Summary_With grow s labelValues h =
    (case LabelValues_With grow (s_lvs s) labelValues h of (lvs, h) \<Rightarrow> (\<lparr>sv = sv s, s_lvs = lvs\<rparr>, h))"

definition Summary_Observe :: "('o, 'v, 'f, 'p) prom \<Rightarrow> arrays \<Rightarrow> 'v PrometheusSummary \<Rightarrow> 'f \<Rightarrow> 'p \<Rightarrow> 'p option" where
  "Summary_Observe P h s x p = (case makeLabels (contents h (s_lvs s)) of
      None \<Rightarrow> None
    | Some labels \<Rightarrow> vec_Observe P (sv s) labels x p)"

record 'v PrometheusHistogram =
  hv :: 'v
  h_lvs :: LabelValues

definition NewHistogram :: "'v \<Rightarrow> 'v PrometheusHistogram" where
  "NewHistogram v = \<lparr>hv = v, h_lvs = nil_slice\<rparr>"

definition NewHistogramFrom :: "('o, 'v, 'f, 'p) prom \<Rightarrow> 'o \<Rightarrow> string list \<Rightarrow> 'p \<Rightarrow> ('v PrometheusHistogram \<times> 'p) option" where
  "NewHistogramFrom P opts labelNames p =
    (let v = NewVec P opts labelNames in map_option (\<lambda>p. (NewHistogram v, p)) (MustRegister P v p))"

definition Histogram_With :: "(nat \<Rightarrow> nat \<Rightarrow> nat) \<Rightarrow> 'v PrometheusHistogram \<Rightarrow> str_slice \<Rightarrow> arrays \<Rightarrow> 'v PrometheusHistogram \<times> arrays" where
  "Histogram_With grow x labelValues h =
    (case LabelValues_With grow (h_lvs x) labelValues h of (lvs, h) \<Rightarrow> (\<lparr>hv = hv x, h_lvs = lvs\<rparr>, h))"

definition Histogram_Observe :: "('o, 'v, 'f, 'p) prom \<Rightarrow> arrays \<Rightarrow> 'v PrometheusHistogram \<Rightarrow> 'f \<Rightarrow> 'p \<Rightarrow> 'p option" where
  "Histogram_Observe P h x y p = (case makeLabels (contents h (h_lvs x)) of
      None \<Rightarrow> None
    | Some labels \<Rightarrow> vec_Observe P (hv x) labels y p)"

section \<open>What appending does to other slices\<close>

lemma str_append_ok:
  assumes "slice_ok h s" "grows grow" "str_append grow s xs h = (s', h')"
  shows "slice_ok h' s'" "contents h' s' = contents h s @ xs" "slen s' = slen s + length xs" "length h \<le> length h'"
proof -
  have g: "slen s + length xs \<le> grow (scap s) (slen s + length xs)" using assms(2) by (simp add: grows_def)
  show "slice_ok h' s'" "contents h' s' = contents h s @ xs" "slen s' = slen s + length xs" "length h \<le> length h'"
    using assms(1,3) g
    by (auto simp: str_append_def contents_def slice_ok_def Let_def split: if_splits)
qed

lemma str_append_frame:
  assumes "slice_ok h s" "slice_ok h t" "str_append grow s xs h = (s', h')"
    and "sarr t \<noteq> sarr s \<or> slen t \<le> slen s"
  shows "contents h' t = contents h t" "slice_ok h' t"
proof -
  have full: "xs = []" if "scap s \<le> slen s" "slen s + length xs \<le> scap s" using that by (cases xs) auto
  show "contents h' t = contents h t" "slice_ok h' t"
    using assms
    by (auto simp: str_append_def contents_def slice_ok_def Let_def nth_append nth_list_update min_def split: if_splits)
      (simp add: full)
qed

text \<open>The arguments of a call \<open>With(x, y, ...)\<close> arrive in an array of their own.\<close>

definition variadic :: "string list \<Rightarrow> arrays \<Rightarrow> str_slice \<times> arrays" where
  "variadic xs h = (\<lparr>sarr = length h, slen = length xs, scap = length xs\<rparr>, h @ [xs])"

definition filled :: "string list \<Rightarrow> string list" where
  "filled xs = (if even (length xs) then xs else xs @ [''unknown''])"

lemma length_filled [simp]: "even (length (filled xs))"
  by (simp add: filled_def)

lemma variadic_ok:
  assumes "slice_ok h s" "variadic xs h = (a, h1)"
  shows "slice_ok h1 a" "contents h1 a = xs" "slen a = length xs" "slice_ok h1 s" "contents h1 s = contents h s"
    "sarr s \<noteq> sarr a \<or> slen s = 0"
  using assms by (auto simp: variadic_def slice_ok_def contents_def nth_append)

text \<open>The arguments of \<open>With\<close> after they were filled up; the slice they go to is as before.\<close>

lemma fill_ok:
  assumes "slice_ok h s" "grows grow" "variadic xs h = (a, h1)"
    and "(if slen a mod 2 \<noteq> 0 then str_append grow a [''unknown''] h1 else (a, h1)) = (b, h2)"
  shows "contents h2 b = filled xs" "slice_ok h2 s" "contents h2 s = contents h s"
proof -
  note v = variadic_ok [OF assms(1,3)]
  have "contents h2 b = filled xs \<and> slice_ok h2 s \<and> contents h2 s = contents h s"
  proof (cases "slen a mod 2 \<noteq> 0")
    case True
    then have app: "str_append grow a [''unknown''] h1 = (b, h2)" using assms(4) by simp
    show ?thesis
      using str_append_ok(2) [OF v(1) assms(2) app] str_append_frame [OF v(1,4) app] v True
      by (auto simp: filled_def even_iff_mod_2_eq_zero)
  next
    case False
    then show ?thesis using v assms(4) by (auto simp: filled_def even_iff_mod_2_eq_zero)
  qed
  then show "contents h2 b = filled xs" "slice_ok h2 s" "contents h2 s = contents h s" by blast+
qed

lemma LabelValues_With_ok:
  assumes "slice_ok h lvs" "grows grow" "variadic xs h = (a, h1)" "LabelValues_With grow lvs a h1 = (lvs', h')"
  shows "slice_ok h' lvs'" "contents h' lvs' = contents h lvs @ filled xs"
proof -
  obtain b h2 where f: "(if slen a mod 2 \<noteq> 0 then str_append grow a [''unknown''] h1 else (a, h1)) = (b, h2)"
    by fastforce
  note b = fill_ok [OF assms(1-3) f]
  have "str_append grow lvs (contents h2 b) h2 = (lvs', h')" using assms(4) f by (simp add: LabelValues_With_def)
  from str_append_ok [OF b(2) assms(2) this] b
  show "slice_ok h' lvs'" "contents h' lvs' = contents h lvs @ filled xs" by simp_all
qed

section \<open>Chains of labels\<close>

fun With_chain :: "(nat \<Rightarrow> nat \<Rightarrow> nat) \<Rightarrow> string list list \<Rightarrow> 'v PrometheusCounter \<Rightarrow> arrays
    \<Rightarrow> 'v PrometheusCounter \<times> arrays" where
  "With_chain grow [] c h = (c, h)"
| "With_chain grow (xs # xss) c h = (case variadic xs h of (a, h) \<Rightarrow>
      (case Counter_With grow c a h of (c, h) \<Rightarrow> With_chain grow xss c h))"

fun pairs :: "string list \<Rightarrow> (string \<times> string) list" where
  "pairs (k # v # r) = (k, v) # pairs r"
| "pairs _ = []"

lemma makeLabels_even:
  "even (length xs) \<Longrightarrow> makeLabels_loop xs m = Some (fold (\<lambda>(k, v). smap_put k v) (pairs xs) m)"
  by (induction xs m rule: makeLabels_loop.induct) auto

lemma makeLabels_odd: "odd (length xs) \<Longrightarrow> makeLabels_loop xs m = None"
  by (induction xs m rule: makeLabels_loop.induct) auto

lemma With_chain_contents:
  assumes "grows grow"
  shows "slice_ok h (c_lvs c) \<Longrightarrow> With_chain grow xss c h = (c', h') \<Longrightarrow>
    slice_ok h' (c_lvs c') \<and> cv c' = cv c \<and> contents h' (c_lvs c') = contents h (c_lvs c) @ concat (map filled xss)"
proof (induction xss arbitrary: c h)
  case (Cons xs xss)
  obtain a h1 where v: "variadic xs h = (a, h1)" by fastforce
  obtain lvs h2 where w: "LabelValues_With grow (c_lvs c) a h1 = (lvs, h2)" by fastforce
  note ok = LabelValues_With_ok [OF Cons.prems(1) assms v w]
  have "With_chain grow xss \<lparr>cv = cv c, c_lvs = lvs\<rparr> h2 = (c', h')"
    using Cons.prems(2) v w by (simp add: Counter_With_def)
  from Cons.IH [OF _ this] ok show ?case by simp
qed simp

lemma even_filled: "even (length (concat (map filled xss)))"
  by (induction xss) simp_all

section \<open>Properties\<close>

text \<open>A counter with labels never panics on them: after any chain of \<open>With\<close> calls, with even and odd numbers of arguments, adding
  to the counter adds to the vector's metric whose labels are the pairs of the chain in order, an odd last
  argument being paired with ``unknown''.\<close>

theorem labels_of_chain:
  assumes "grows grow" "With_chain grow xss (NewCounter v) h = (c, h')"
  shows "Counter_Add P h' c delta p =
    vec_Add P v (fold (\<lambda>(k, x). smap_put k x) (pairs (concat (map filled xss))) []) delta p"
proof -
  have "slice_ok h (c_lvs (NewCounter v))" by (simp add: NewCounter_def nil_slice_def slice_ok_def)
  from With_chain_contents [OF assms(1) this assms(2)]
  have "cv c = v" "contents h' (c_lvs c) = concat (map filled xss)"
    by (simp_all add: NewCounter_def nil_slice_def contents_def)
  then show ?thesis using makeLabels_even [OF even_filled, of xss "[]"] by (simp add: Counter_Add_def makeLabels_def)
qed

lemma grows_doubling: "grows doubling"
  by (simp add: grows_def doubling_def)

definition demo_prom :: "(unit, nat, nat, (smap \<times> nat) list) prom" where
  "demo_prom = \<lparr>NewVec = (\<lambda>_ ns. length ns), MustRegister = (\<lambda>v p. Some p),
     vec_Add = (\<lambda>v ls d p. if length ls = v then Some ((ls, d) # p) else None),
     vec_Set = (\<lambda>v ls d p. None), vec_Observe = (\<lambda>v ls d p. None)\<rparr>"

theorem labels_of_chain_witness:
  "\<exists>c h. With_chain doubling [[''a'', ''1''], [''b'']] (NewCounter (2 :: nat)) [] = (c, h) \<and>
     Counter_Add demo_prom h c 5 [] = Some [([(''a'', ''1''), (''b'', ''unknown'')], 5)]"
proof -
  obtain c h where c: "With_chain doubling [[''a'', ''1''], [''b'']] (NewCounter (2 :: nat)) [] = (c, h)" by fastforce
  with labels_of_chain [OF grows_doubling c, of demo_prom 5 "[]"] show ?thesis
    by (simp add: filled_def demo_prom_def)
qed

lemma With_in_place:
  assumes "slice_ok h lvs" "grows grow" "variadic xs h = (a, h1)" "LabelValues_With grow lvs a h1 = (lvs', h')"
    and "slen lvs + length (filled xs) \<le> scap lvs"
  shows "lvs' = lvs\<lparr>slen := slen lvs + length (filled xs)\<rparr>" "contents h' lvs = contents h lvs" "slice_ok h' lvs"
proof -
  obtain b h2 where f: "(if slen a mod 2 \<noteq> 0 then str_append grow a [''unknown''] h1 else (a, h1)) = (b, h2)"
    by fastforce
  note b = fill_ok [OF assms(1-3) f]
  have app: "str_append grow lvs (filled xs) h2 = (lvs', h')" using assms(4) f b(1) by (simp add: LabelValues_With_def)
  show "lvs' = lvs\<lparr>slen := slen lvs + length (filled xs)\<rparr>" using app assms(5) by (simp add: str_append_def Let_def)
  show "contents h' lvs = contents h lvs" "slice_ok h' lvs"
    using str_append_frame [OF b(2,2) app] b(3) by simp_all
qed

text \<open>C38. Two counters made from one counter can share their labels: when the labels of the parent have spare capacity, the
  second \<open>With\<close> overwrites what the first one added, and the first counter from then on counts under the labels of
  the second.\<close>

theorem with_shares_labels:
  assumes "slice_ok h (c_lvs c)" "grows grow"
    and "slen (c_lvs c) + length (filled xs) \<le> scap (c_lvs c)" "length (filled ys) = length (filled xs)"
    and "With_chain grow [xs] c h = (c1, h1)" "With_chain grow [ys] c h1 = (c2, h2)"
  shows "contents h1 (c_lvs c1) = contents h (c_lvs c) @ filled xs \<and>
    contents h2 (c_lvs c1) = contents h (c_lvs c) @ filled ys \<and>
    Counter_Add P h2 c1 delta p = Counter_Add P h2 c2 delta p"
proof -
  obtain a k1 lvs1 where w1: "variadic xs h = (a, k1)" "LabelValues_With grow (c_lvs c) a k1 = (lvs1, h1)"
    "c1 = \<lparr>cv = cv c, c_lvs = lvs1\<rparr>"
    using assms(5) by (auto simp: Counter_With_def split: prod.splits)
  note one = With_in_place [OF assms(1,2) w1(1,2) assms(3)]
  obtain b k2 lvs2 where w2: "variadic ys h1 = (b, k2)" "LabelValues_With grow (c_lvs c) b k2 = (lvs2, h2)"
    "c2 = \<lparr>cv = cv c, c_lvs = lvs2\<rparr>"
    using assms(6) by (auto simp: Counter_With_def split: prod.splits)
  have "slen (c_lvs c) + length (filled ys) \<le> scap (c_lvs c)" using assms(3,4) by simp
  note two = With_in_place [OF one(3) assms(2) w2(1,2) this]
  have "lvs1 = lvs2" using one(1) two(1) assms(4) by simp
  then show ?thesis
    using LabelValues_With_ok(2) [OF assms(1,2) w1(1,2)] LabelValues_With_ok(2) [OF one(3) assms(2) w2(1,2)] one(2) w1(3) w2(3)
    by simp
qed

definition three_labels :: "string list list" where
  "three_labels = [[''a'', ''1''], [''b'', ''2''], [''c'', ''3'']]"

theorem with_shares_labels_witness:
  "\<exists>c h c1 h1 c2 h2. With_chain doubling three_labels (NewCounter (4 :: nat)) [] = (c, h) \<and>
     With_chain doubling [[''code'', ''200'']] c h = (c1, h1) \<and> With_chain doubling [[''code'', ''500'']] c h1 = (c2, h2) \<and>
     contents h1 (c_lvs c1) = concat three_labels @ [''code'', ''200''] \<and>
     contents h2 (c_lvs c1) = concat three_labels @ [''code'', ''500'']"
proof -
  obtain c h where c: "With_chain doubling three_labels (NewCounter (4 :: nat)) [] = (c, h)" by fastforce
  obtain c1 h1 where c1: "With_chain doubling [[''code'', ''200'']] c h = (c1, h1)" by fastforce
  obtain c2 h2 where c2: "With_chain doubling [[''code'', ''500'']] c h1 = (c2, h2)" by fastforce
  have eq: "With_chain doubling three_labels (NewCounter (4 :: nat)) [] =
      (\<lparr>cv = 4, c_lvs = \<lparr>sarr = 5, slen = 6, scap = 8\<rparr>\<rparr>, snd (With_chain doubling three_labels (NewCounter (4 :: nat)) []))"
    by (simp add: three_labels_def variadic_def Counter_With_def LabelValues_With_def str_append_def contents_def
        NewCounter_def nil_slice_def doubling_def nth_append)
  have "slice_ok [] (c_lvs (NewCounter (4 :: nat)))" by (simp add: NewCounter_def nil_slice_def slice_ok_def)
  from With_chain_contents [OF grows_doubling this c]
  have ok: "slice_ok h (c_lvs c)" "contents h (c_lvs c) = concat three_labels"
    by (simp_all add: NewCounter_def nil_slice_def contents_def three_labels_def filled_def)
  have lvs: "slen (c_lvs c) = 6" "scap (c_lvs c) = 8" using eq c by simp_all
  have len: "slen (c_lvs c) + length (filled [''code'', ''200'']) \<le> scap (c_lvs c)"
    "length (filled [''code'', ''500'']) = length (filled [''code'', ''200''])"
    by (simp_all add: lvs filled_def)
  from with_shares_labels [OF ok(1) grows_doubling len c1 c2, of demo_prom 0 "[]"] ok(2)
  have "contents h1 (c_lvs c1) = concat three_labels @ [''code'', ''200'']"
    "contents h2 (c_lvs c1) = concat three_labels @ [''code'', ''500'']"
    by (simp_all add: filled_def)
  with c c1 c2 show ?thesis by blast
qed

end
