(* ===== verification/Logging.thy ===== *)
theory Logging
  imports Prelude
begin

text \<open>
  The log package (\<^verbatim>\<open>log/logger.go\<close>, \<^verbatim>\<open>log/default_logger.go\<close>, \<^verbatim>\<open>log/dummy_logger.go\<close>) and the callbacks for the
  circuit breaker (\<^verbatim>\<open>client/circuit_breaker.go\<close>). Formatting (\<^verbatim>\<open>fmt\<close>) and colouring are parameters; the state is the
  list of the lines written. The rest of the development assumes the default logger, for which \<open>Panic\<close> and
  \<open>Panicf\<close> panic.
\<close>

section \<open>Loggers\<close>

datatype log_end = Continues | Exits int | Panics string

record 'v log_lib =
  Sprint :: "'v list \<Rightarrow> string"
  Sprintf :: "string \<Rightarrow> 'v list \<Rightarrow> string"
  GreenString :: "string \<Rightarrow> string"
  YellowString :: "string \<Rightarrow> string"
  RedString :: "string \<Rightarrow> string"
  MagentaString :: "string \<Rightarrow> string"

type_synonym 'v log_fun = "'v list \<Rightarrow> string list \<Rightarrow> log_end \<times> string list"
type_synonym 'v logf_fun = "string \<Rightarrow> 'v list \<Rightarrow> string list \<Rightarrow> log_end \<times> string list"

text \<open>The interface; \<open>lgHandle\<close> is there where the logger also is a \<^verbatim>\<open>Handler\<close>.\<close>

record 'v Logger =
  lgDebug :: "'v log_fun"
  lgDebugf :: "'v logf_fun"
  lgInfo :: "'v log_fun"
  lgInfof :: "'v logf_fun"
  lgWarn :: "'v log_fun"
  lgWarnf :: "'v logf_fun"
  lgError :: "'v log_fun"
  lgErrorf :: "'v logf_fun"
  lgFatal :: "'v log_fun"
  lgFatalf :: "'v logf_fun"
  lgPanic :: "'v log_fun"
  lgPanicf :: "'v logf_fun"
  lgHandle :: "'v log_fun option"

definition log_header :: "string \<Rightarrow> string \<Rightarrow> string" where
  "log_header lvl msg = lvl @ '': '' @ msg"

definition Output :: "string \<Rightarrow> string list \<Rightarrow> string list" where
  "Output s out = out @ [s]"

section \<open>The default logger\<close>

definition default_Debug :: "'v log_lib \<Rightarrow> 'v log_fun" where
  "default_Debug L v out = (Continues, Output (log_header ''DEBUG'' (Sprint L v)) out)"

definition default_Debugf :: "'v log_lib \<Rightarrow> 'v logf_fun" where
  "default_Debugf L fmt v out = (Continues, Output (log_header ''DEBUG'' (Sprintf L fmt v)) out)"

definition default_Info :: "'v log_lib \<Rightarrow> 'v log_fun" where
  "default_Info L v out = (Continues, Output (log_header (GreenString L ''INFO '') (Sprint L v)) out)"

definition default_Infof :: "'v log_lib \<Rightarrow> 'v logf_fun" where
  "default_Infof L fmt v out = (Continues, Output (log_header (GreenString L ''INFO '') (Sprintf L fmt v)) out)"

definition default_Warn :: "'v log_lib \<Rightarrow> 'v log_fun" where
  "default_Warn L v out = (Continues, Output (log_header (YellowString L ''WARN '') (Sprint L v)) out)"

definition default_Warnf :: "'v log_lib \<Rightarrow> 'v logf_fun" where
  "default_Warnf L fmt v out = (Continues, Output (log_header (YellowString L ''WARN '') (Sprintf L fmt v)) out)"

definition default_Error :: "'v log_lib \<Rightarrow> 'v log_fun" where
  "default_Error L v out = (Continues, Output (log_header (RedString L ''ERROR'') (Sprint L v)) out)"

definition default_Errorf :: "'v log_lib \<Rightarrow> 'v logf_fun" where
  "default_Errorf L fmt v out = (Continues, Output (log_header (RedString L ''ERROR'') (Sprintf L fmt v)) out)"

definition default_Fatal :: "'v log_lib \<Rightarrow> 'v log_fun" where
  "default_Fatal L v out = (Exits 1, Output (log_header (MagentaString L ''FATAL'') (Sprint L v)) out)"

definition default_Fatalf :: "'v log_lib \<Rightarrow> 'v logf_fun" where
  "default_Fatalf L fmt v out = (Exits 1, Output (log_header (MagentaString L ''FATAL'') (Sprintf L fmt v)) out)"

definition default_Panic :: "'v log_lib \<Rightarrow> 'v log_fun" where
  "default_Panic L v out = (let s = Sprint L v in (Panics s, Output s out))"

definition default_Panicf :: "'v log_lib \<Rightarrow> 'v logf_fun" where
  "default_Panicf L fmt v out = (let s = Sprintf L fmt v in (Panics s, Output s out))"

definition default_Handle :: "'v log_lib \<Rightarrow> 'v log_fun" where
  "default_Handle L v out = default_Error L v out"

definition defaultLogger :: "'v log_lib \<Rightarrow> 'v Logger" where
  "defaultLogger L = \<lparr>
     lgDebug = default_Debug L, lgDebugf = default_Debugf L,
     lgInfo = default_Info L, lgInfof = default_Infof L,
     lgWarn = default_Warn L, lgWarnf = default_Warnf L,
     lgError = default_Error L, lgErrorf = default_Errorf L,
     lgFatal = default_Fatal L, lgFatalf = default_Fatalf L,
     lgPanic = default_Panic L, lgPanicf = default_Panicf L,
     lgHandle = Some (default_Handle L)\<rparr>"

section \<open>The dummy logger\<close>

text \<open>All its methods are empty, also those that are meant not to return.\<close>

definition dummy_Debug :: "'v log_fun" where "dummy_Debug v out = (Continues, out)"
definition dummy_Debugf :: "'v logf_fun" where "dummy_Debugf fmt v out = (Continues, out)"
definition dummy_Info :: "'v log_fun" where "dummy_Info v out = (Continues, out)"
definition dummy_Infof :: "'v logf_fun" where "dummy_Infof fmt v out = (Continues, out)"
definition dummy_Warn :: "'v log_fun" where "dummy_Warn v out = (Continues, out)"
definition dummy_Warnf :: "'v logf_fun" where "dummy_Warnf fmt v out = (Continues, out)"
definition dummy_Error :: "'v log_fun" where "dummy_Error v out = (Continues, out)"
definition dummy_Errorf :: "'v logf_fun" where "dummy_Errorf fmt v out = (Continues, out)"
definition dummy_Fatal :: "'v log_fun" where "dummy_Fatal v out = (Continues, out)"
definition dummy_Fatalf :: "'v logf_fun" where "dummy_Fatalf fmt v out = (Continues, out)"
definition dummy_Panic :: "'v log_fun" where "dummy_Panic v out = (Continues, out)"
definition dummy_Panicf :: "'v logf_fun" where "dummy_Panicf fmt v out = (Continues, out)"

definition dummyLogger :: "'v Logger" where
  "dummyLogger = \<lparr>
     lgDebug = dummy_Debug, lgDebugf = dummy_Debugf,
     lgInfo = dummy_Info, lgInfof = dummy_Infof,
     lgWarn = dummy_Warn, lgWarnf = dummy_Warnf,
     lgError = dummy_Error, lgErrorf = dummy_Errorf,
     lgFatal = dummy_Fatal, lgFatalf = dummy_Fatalf,
     lgPanic = dummy_Panic, lgPanicf = dummy_Panicf,
     lgHandle = None\<rparr>"

section \<open>The package's functions\<close>

text \<open>\<open>l\<close> is the package variable with the logger in use.\<close>

definition SetLogger :: "'v Logger \<Rightarrow> 'v Logger \<Rightarrow> 'v Logger" where
  "SetLogger logger l = logger"

definition SetDummyLogger :: "'v Logger \<Rightarrow> 'v Logger" where
  "SetDummyLogger l = dummyLogger"

definition log_Debug :: "'v Logger \<Rightarrow> 'v log_fun" where "log_Debug l v out = lgDebug l v out"
definition log_Debugf :: "'v Logger \<Rightarrow> 'v logf_fun" where "log_Debugf l fmt v out = lgDebugf l fmt v out"
definition log_Info :: "'v Logger \<Rightarrow> 'v log_fun" where "log_Info l v out = lgInfo l v out"
definition log_Infof :: "'v Logger \<Rightarrow> 'v logf_fun" where "log_Infof l fmt v out = lgInfof l fmt v out"
definition log_Warn :: "'v Logger \<Rightarrow> 'v log_fun" where "log_Warn l v out = lgWarn l v out"
definition log_Warnf :: "'v Logger \<Rightarrow> 'v logf_fun" where "log_Warnf l fmt v out = lgWarnf l fmt v out"
definition log_Error :: "'v Logger \<Rightarrow> 'v log_fun" where "log_Error l v out = lgError l v out"
definition log_Errorf :: "'v Logger \<Rightarrow> 'v logf_fun" where "log_Errorf l fmt v out = lgErrorf l fmt v out"
definition log_Fatal :: "'v Logger \<Rightarrow> 'v log_fun" where "log_Fatal l v out = lgFatal l v out"
definition log_Fatalf :: "'v Logger \<Rightarrow> 'v logf_fun" where "log_Fatalf l fmt v out = lgFatalf l fmt v out"
definition log_Panic :: "'v Logger \<Rightarrow> 'v log_fun" where "log_Panic l v out = lgPanic l v out"
definition log_Panicf :: "'v Logger \<Rightarrow> 'v logf_fun" where "log_Panicf l fmt v out = lgPanicf l fmt v out"

definition log_Handle :: "'v Logger \<Rightarrow> 'v log_fun" where
  "log_Handle l v out = (case lgHandle l of Some handle \<Rightarrow> handle v out | None \<Rightarrow> (Continues, out))"

section \<open>Callbacks of the circuit breaker\<close>

datatype breaker_state = StateClosed | StateHalfOpen | StateOpen | OtherState

definition NewReadyToTrip :: "'counts \<Rightarrow> bool" where
  "NewReadyToTrip counts = True"

definition state_name :: "breaker_state \<Rightarrow> string" where
  "state_name st = (case st of StateClosed \<Rightarrow> ''close'' | StateHalfOpen \<Rightarrow> ''halfOpen'' | StateOpen \<Rightarrow> ''open''
     | OtherState \<Rightarrow> '''')"

definition NewOnStateChange :: "string Logger \<Rightarrow> string \<Rightarrow> breaker_state \<Rightarrow> breaker_state \<Rightarrow> string list
    \<Rightarrow> log_end \<times> string list" where
  "NewOnStateChange l name frm to =
     log_Infof l ''name %s change from %s to %s'' [name, state_name frm, state_name to]"

section \<open>Which calls return\<close>

lemmas default_logger_defs = defaultLogger_def default_Debug_def default_Debugf_def default_Info_def default_Infof_def
  default_Warn_def default_Warnf_def default_Error_def default_Errorf_def default_Fatal_def default_Fatalf_def
  default_Panic_def default_Panicf_def default_Handle_def Output_def Let_def

lemmas package_defs = log_Debug_def log_Debugf_def log_Info_def log_Infof_def log_Warn_def log_Warnf_def log_Error_def
  log_Errorf_def log_Fatal_def log_Fatalf_def log_Panic_def log_Panicf_def log_Handle_def

lemmas dummy_defs = dummyLogger_def dummy_Debug_def dummy_Debugf_def dummy_Info_def dummy_Infof_def dummy_Warn_def
  dummy_Warnf_def dummy_Error_def dummy_Errorf_def dummy_Fatal_def dummy_Fatalf_def dummy_Panic_def dummy_Panicf_def

text \<open>With the default logger every call writes one line; the fatal ones exit and the panicking ones panic with that line.\<close>

lemma default_logger_outcomes:
  "fst (log_Fatal (defaultLogger L) v out) = Exits 1" "fst (log_Fatalf (defaultLogger L) fmt v out) = Exits 1"
  "log_Panic (defaultLogger L) v out = (Panics (Sprint L v), out @ [Sprint L v])"
  "log_Panicf (defaultLogger L) fmt v out = (Panics (Sprintf L fmt v), out @ [Sprintf L fmt v])"
  "fst (log_Errorf (defaultLogger L) fmt v out) = Continues" "fst (log_Warnf (defaultLogger L) fmt v out) = Continues"
  "fst (log_Infof (defaultLogger L) fmt v out) = Continues" "fst (log_Debugf (defaultLogger L) fmt v out) = Continues"
  by (simp_all add: default_logger_defs package_defs)

text \<open>With the dummy logger all of them return.\<close>

lemma dummy_logger_returns:
  "log_Fatal (SetDummyLogger l) v out = (Continues, out)" "log_Fatalf (SetDummyLogger l) fmt v out = (Continues, out)"
  "log_Panic (SetDummyLogger l) v out = (Continues, out)" "log_Panicf (SetDummyLogger l) fmt v out = (Continues, out)"
  "log_Handle (SetDummyLogger l) v out = (Continues, out)"
  by (simp_all add: SetDummyLogger_def dummy_defs package_defs)

end
