(* ===== verification/Pipeline.thy ===== *)
theory Pipeline
  imports EndToEnd
begin

text \<open>
  Many calls at once over one connection: the client writes any number of requests, the server reads them while its
  handlers run and finish in any order, and the client hands every reply to the call that it belongs to. This needs
  that no piece of the stream back to the client spans two responses, which is what \<open>read_ahead_lost\<close> is about.
\<close>

section \<open>Streams whose pieces end where messages end\<close>

text \<open>
  A buffered reader over the pieces \<open>qs\<close> of a message and the pieces \<open>ps\<close> behind it: reading no more than the message
  does not touch \<open>ps\<close>.
\<close>

definition within :: "bufio \<Rightarrow> bytes list \<Rightarrow> bytes list \<Rightarrow> bytes \<Rightarrow> bool" where
  "within b qs ps bs \<longleftrightarrow> pieces (bconn b) = qs @ ps \<and> [] \<notin> set qs \<and> bbuf b @ concat qs = bs"

lemma within_done: "within b qs ps [] \<Longrightarrow> pieces (bconn b) = ps"
  by (cases qs) (auto simp: within_def)

lemma drop_take_drop: "m \<le> n \<Longrightarrow> drop m (take n xs) @ drop n xs = drop m xs"
  using drop_append [of m "take n xs" "drop n xs"] by (cases "m \<le> length xs") auto

lemma bufio_read_within:
  assumes "within b qs ps bs" "0 < k" "k \<le> length bs" "bufio_read b k = (got, err, b')"
  shows "err = None \<and> got \<noteq> [] \<and> length got \<le> k \<and> bs = got @ drop (length got) bs \<and>
    (\<exists>qs'. within b' qs' ps (drop (length got) bs)) \<and> cend (bconn b') = cend (bconn b)"
proof (cases "bbuf b = []")
  case False
  then have "b' = b\<lparr>bbuf := drop k (bbuf b)\<rparr>" "got = take k (bbuf b)" "err = None"
    using assms(4) by (auto simp: bufio_read_def)
  moreover have "within (b\<lparr>bbuf := drop k (bbuf b)\<rparr>) qs ps (drop (min (length (bbuf b)) k) bs)"
    using assms(1) by (auto simp: within_def min_def)
  moreover have "bs = take k (bbuf b) @ drop (min (length (bbuf b)) k) bs" using assms(1) by (auto simp: within_def min_def)
  ultimately show ?thesis using False assms(2) by (auto simp: min_def)
next
  case True
  then obtain q qs1 where q: "qs = q # qs1" using assms(1-3) by (cases qs) (auto simp: within_def)
  then have pcs: "pieces (bconn b) = q # qs1 @ ps" "q \<noteq> []" "[] \<notin> set qs1" "bs = q @ concat qs1"
    using assms(1) True by (auto simp: within_def)
  have w: "within b1 (if length q \<le> n then qs1 else drop n q # qs1) ps (drop m bs)"
    if "bconn b1 = (bconn b)\<lparr>pieces := (if length q \<le> n then qs1 @ ps else drop n q # qs1 @ ps)\<rparr>"
      "bbuf b1 = drop m (take n q)" "m \<le> n" "m \<le> length q" for b1 n m
    using that pcs by (auto simp: within_def drop_take_drop)
  show ?thesis
    using assms(2,4) True pcs w [of b' k "min (length q) k"] w [of b' "bsize b" "min k (min (length q) (bsize b))"]
    by (auto simp: bufio_read_def conn_read_def min_def split: if_splits) blast+
qed

lemma bufio_fill_within:
  "within b qs ps bs \<Longrightarrow> k \<le> length bs \<Longrightarrow>
   \<exists>b' qs'. bufio_fill b k = (take k bs, None, b') \<and> within b' qs' ps (drop k bs) \<and> cend (bconn b') = cend (bconn b)"
proof (induction b k arbitrary: qs bs rule: bufio_fill.induct)
  case (1 b k)
  show ?case
  proof (cases "k = 0")
    case True
    then show ?thesis using "1.prems" by (auto simp: bufio_fill.simps [of b])
  next
    case False
    obtain got err b1 where rd: "bufio_read b k = (got, err, b1)" by (cases "bufio_read b k") auto
    note r = bufio_read_within [OF "1.prems"(1) _ "1.prems"(2) rd]
    have g: "err = None" "length got \<le> k" "bs = got @ drop (length got) bs" "cend (bconn b1) = cend (bconn b)"
      using r False by auto
    obtain qs1 where w: "within b1 qs1 ps (drop (length got) bs)" using r False by blast
    have "k - length got \<le> length (drop (length got) bs)" using "1.prems"(2) by simp
    from "1.IH" [OF False rd [symmetric] refl g(1) w this]
    obtain b2 qs2 where b2: "bufio_fill b1 (k - length got) = (take (k - length got) (drop (length got) bs), None, b2)"
      "within b2 qs2 ps (drop (k - length got) (drop (length got) bs))" "cend (bconn b2) = cend (bconn b1)" by blast
    have "take k bs = got @ take (k - length got) (drop (length got) bs)"
      using g(2) by (subst g(3)) (simp del: append_take_drop_id)
    moreover have "drop (k - length got) (drop (length got) bs) = drop k bs" using g(2) by simp
    ultimately show ?thesis using rd b2 g False by (auto simp: bufio_fill.simps [of b k])
  qed
qed

lemma bufio_readfull_within:
  assumes "within b qs ps bs" "k \<le> length bs" "bufio_readfull b k = (got, err, b')"
  shows "got = take k bs" "\<exists>qs'. within b' qs' ps (drop k bs)" "cend (bconn b') = cend (bconn b)"
  using bufio_fill_within [OF assms(1,2)] assms(3) by (auto simp: bufio_readfull_def)

text \<open>A response is read from the pieces it arrives in, and from no other.\<close>

lemma readResponse_within:
  assumes m: "sendable m" "receiver t" "compressors_ok (ce_comps env)"
      "acceptable (ce_maxlen env) (body_size (ce_comps env) m)"
    and qs: "concat qs = snd (Encode (ce_comps env) m)" "[] \<notin> set qs"
  shows "\<exists>t'. readResponse env t \<lparr>pieces = qs @ ps, cend = e\<rparr> = Some (t', None, \<lparr>pieces = ps, cend = e\<rparr>) \<and>
    received (ce_comps env) m t t' \<and> receiver t'"
proof -
  let ?bs = "snd (Encode (ce_comps env) m)" and ?r = "NewReaderSize \<lparr>pieces = qs @ ps, cend = e\<rparr> 1024"
  have w: "within ?r qs ps ?bs" using qs by (simp add: within_def NewReaderSize_def)
  have rest: "bufio_rest ?r = ?bs @ concat ps" using qs by (simp add: bufio_rest_def NewReaderSize_def)
  obtain t' r' where dec: "Decode bufio_readfull (ce_comps env) (ce_maxlen env) t ?r = Some (t', None, r')"
    "received (ce_comps env) m t t'" "receiver t'" "bufio_rest r' = concat ps"
    using bufio.Decode_Encode [OF m rest] by blast
  obtain b1 r1 b2 r2 b3 r3 b4 where rd: "bufio_readfull ?r 1 = (b1, None, r1)" "bufio_readfull r1 11 = (b2, None, r2)"
    "bufio_readfull r2 4 = (b3, None, r3)" "bufio_readfull r3 (unat (be_get32 b3)) = (b4, None, r')"
    using bufio.Decode_reads [OF dec(1)] by blast
  let ?n = "unat (be_get32 b3)"
  have "length (bufio_rest ?r) = 16 + ?n + length (concat ps)"
    using bufio.readfull_None [OF rd(1)] bufio.readfull_None [OF rd(2)] bufio.readfull_None [OF rd(3)]
      bufio.readfull_None [OF rd(4)] dec(4) by simp
  then have len: "length ?bs = 16 + ?n" unfolding rest by simp
  obtain q1 where w1: "within r1 q1 ps (drop 1 ?bs)" using bufio_readfull_within(2) [OF w _ rd(1)] len by auto
  obtain q2 where w2: "within r2 q2 ps (drop 12 ?bs)" using bufio_readfull_within(2) [OF w1 _ rd(2)] len by auto
  obtain q3 where w3: "within r3 q3 ps (drop 16 ?bs)" using bufio_readfull_within(2) [OF w2 _ rd(3)] len by auto
  obtain q4 where "within r' q4 ps (drop (16 + ?n) ?bs)"
    using bufio_readfull_within(2) [OF w3 _ rd(4)] len by (auto simp: add.commute)
  then have "pieces (bconn r') = ps" using len by (intro within_done) simp
  moreover have "cend (bconn r') = e"
    using bufio_readfull_within(3) [OF w _ rd(1)] bufio_readfull_within(3) [OF w1 _ rd(2)]
      bufio_readfull_within(3) [OF w2 _ rd(3)] bufio_readfull_within(3) [OF w3 _ rd(4)] len
    by (simp add: NewReaderSize_def)
  ultimately show ?thesis using dec by (auto simp: readResponse_def)
qed

section \<open>Jobs\<close>

text \<open>
  A job is a call on its way: its object and index at the client, its number, the message that carries it, its encoded
  argument, and what the server does with it.
\<close>

record 'x job =
  jid :: nat
  jcall :: "'x Call"
  jseq :: u64
  jpooled :: message
  jdata :: bytes
  jctx :: ctx
  jres :: "'x handler_result"
  jrdata :: bytes
  jreply :: "'x goval"

definition job_request :: "'x job \<Rightarrow> message" where
  "job_request j = request_of (jpooled j) (jcall j) (jseq j) (jdata j)"

definition job_wire :: "compressors \<Rightarrow> 'x job \<Rightarrow> bytes" where
  "job_wire comps j = snd (Encode comps (job_request j))"

text \<open>The server can do the job.\<close>

definition servable :: "'x server_env \<Rightarrow> 'x server \<Rightarrow> compressors \<Rightarrow> int \<Rightarrow> 'x job \<Rightarrow> bool" where
  "servable senv server comps maxlen j \<longleftrightarrow> clean (jpooled j) \<and> \<not> cHeartBeat (jcall j) \<and>
     cSerializeType (jcall j) AND mask 4 = cSerializeType (jcall j) \<and> smap_wf (extractMdFromClientCtx (cCtx (jcall j))) \<and>
     acceptable maxlen (body_size comps (job_request j)) \<and>
     offers senv server (cSerializeType (jcall j)) (cServicePath (jcall j)) (cServiceMethod (jcall j)) (jctx j) (jdata j)
       (jres j) (jrdata j) \<and>
     extractClientMdContexFromMd Background (case sent_md (jcall j) of None \<Rightarrow> [] | Some md \<Rightarrow> md) = Inr (jctx j) \<and>
     md_wf (sent_back (jres j))"

text \<open>A message that the server read is the request of the job, and a frame it wrote is the answer.\<close>

definition arrived_as :: "'x job \<Rightarrow> message \<Rightarrow> bool" where
  "arrived_as j req \<longleftrightarrow> hdr_wf (mheader req) \<and> ServicePath req = cServicePath (jcall j) \<and>
     ServiceMethod req = cServiceMethod (jcall j) \<and> Payload req = jdata j \<and> Seq (mheader req) = jseq j \<and>
     SerializeType (mheader req) = cSerializeType (jcall j) \<and> IsHeartbeat (mheader req) = cHeartBeat (jcall j) \<and>
     \<not> IsOneway (mheader req) \<and> MessageStatusType (mheader req) = Normal \<and> CheckMagicNumber (mheader req) \<and>
     Metadata req = sent_md (jcall j)"

definition answers :: "compressors \<Rightarrow> 'x job \<Rightarrow> bytes \<Rightarrow> bool" where
  "answers comps j d \<longleftrightarrow> (\<exists>m. d = snd (Encode comps m) \<and> sendable m \<and> CompressType (mheader m) = NoCompress \<and>
     Seq (mheader m) = jseq j \<and> SerializeType (mheader m) = cSerializeType (jcall j) \<and> \<not> IsHeartbeat (mheader m) \<and>
     MessageStatusType (mheader m) = Normal \<and> Metadata m = sent_back (jres j) \<and> Payload m = jrdata j \<and>
     ServicePath m = cServicePath (jcall j) \<and> ServiceMethod m = cServiceMethod (jcall j))"

lemma job_arrives:
  assumes "servable senv server comps maxlen j" "clean t" "compressors_ok comps"
    and "bufio_rest b = job_wire comps j @ tail"
  shows "\<exists>req b'. Decode bufio_readfull comps maxlen t b = Some (req, None, b') \<and> bufio_rest b' = tail \<and> arrived_as j req"
  using request_arrives [of "jpooled j" "jcall j" t comps maxlen "jseq j" "jdata j" b tail] assms
  by (auto simp: servable_def job_request_def job_wire_def arrived_as_def)

lemma job_answered:
  assumes j: "servable senv server comps maxlen j" and req: "arrived_as j req"
    and w: "\<not> env_UsePool senv" "pool_ok (msgPool w)"
  shows "\<exists>d w'. handleTrueRequest senv comps server ch Background req w = Some (Some d, w') \<and> answers comps j d"
proof -
  have r: "hdr_wf (mheader req)" "\<not> IsOneway (mheader req)" "CheckMagicNumber (mheader req)"
    using req by (simp_all add: arrived_as_def)
  obtain pd w' where ans: "clean pd" "handleTrueRequest senv comps server ch Background req w =
      Some (Some (snd (Encode comps (reply_message req pd (jres j) (jrdata j)))), w')"
    using server_answers [OF r, of senv server "jctx j" "jres j" "jrdata j" w comps ch] j req w
    by (auto simp: servable_def arrived_as_def)
  have md: "md_wf (sent_back (jres j))" using j by (simp add: servable_def)
  have "answers comps j (snd (Encode comps (reply_message req pd (jres j) (jrdata j))))"
    unfolding answers_def
    by (rule exI [of _ "reply_message req pd (jres j) (jrdata j)"])
      (use reply_message_fields [OF ans(1) r(1,3) md, of "jrdata j"] req j in
        \<open>simp add: arrived_as_def servable_def reply_message_def Clone_def del: protocol_consts\<close>)
  then show ?thesis using ans(2) by blast
qed

section \<open>The server under every interleaving\<close>

text \<open>
  While the connection is open, the jobs that arrived are the first ones of the stream, and they are divided into
  those whose handlers run and those that are answered.
\<close>

definition serving :: "compressors \<Rightarrow> 'x job list \<Rightarrow> 'x conn_state \<Rightarrow> bool" where
  "serving comps js st \<longleftrightarrow> \<not> crashed st \<and> length (arrived st) \<le> length js \<and>
     bufio_rest (reader st) = concat (map (job_wire comps) (drop (length (arrived st)) js)) \<and>
     (\<exists>rs as. mset (take (length (arrived st)) js) = mset rs + mset as \<and> list_all2 arrived_as rs (running st) \<and>
        list_all2 (answers comps) as (written st))"

lemma serving_read:
  assumes s: "serving comps js st" and n: "length (arrived st) < length js" and op: "\<not> shut st"
    and js: "\<forall>j \<in> set js. servable senv server comps maxlen j" and comps: "compressors_ok comps"
    and w: "pool_ok (msgPool (cpools st))"
  shows "serving comps js (serve_round comps maxlen ch st)" "\<not> shut (serve_round comps maxlen ch st)"
    "length (arrived (serve_round comps maxlen ch st)) = Suc (length (arrived st))"
proof -
  let ?n = "length (arrived st)"
  have rest: "bufio_rest (reader st) = job_wire comps (js ! ?n) @ concat (map (job_wire comps) (drop (Suc ?n) js))"
    using s n by (simp add: serving_def flip: Cons_nth_drop_Suc)
  obtain t mp where get: "GetPooledMsg ch (msgPool (cpools st)) = (t, mp)" by fastforce
  have j: "servable senv server comps maxlen (js ! ?n)" using js n by simp
  from job_arrives [OF j _ comps rest] GetPooledMsg_ok [OF w get]
  obtain req b where d: "Decode bufio_readfull comps maxlen t (reader st) = Some (req, None, b)"
    "bufio_rest b = concat (map (job_wire comps) (drop (Suc ?n) js))" "arrived_as (js ! ?n) req" by blast
  have hb: "\<not> IsHeartbeat (mheader req)" using d(3) j by (simp add: arrived_as_def servable_def)
  obtain rs as where ra: "mset (take ?n js) = mset rs + mset as" "list_all2 arrived_as rs (running st)"
    "list_all2 (answers comps) as (written st)" using s by (auto simp: serving_def)
  have round: "serve_round comps maxlen ch st = st\<lparr>cpools := (cpools st)\<lparr>msgPool := mp\<rparr>, reader := b, arrived := arrived st @ [req],
      running := running st @ [req]\<rparr>"
    using d(1) hb by (simp add: serve_round_def readRequest_def get Let_def)
  have "mset (take (Suc ?n) js) = mset (rs @ [js ! ?n]) + mset as"
    using ra(1) n by (simp add: take_Suc_conv_app_nth)
  moreover have "list_all2 arrived_as (rs @ [js ! ?n]) (running st @ [req])"
    using ra(2) d(3) by (simp add: list_all2_appendI)
  ultimately show "serving comps js (serve_round comps maxlen ch st)" "\<not> shut (serve_round comps maxlen ch st)"
    "length (arrived (serve_round comps maxlen ch st)) = Suc (length (arrived st))"
    using round s ra(3) d(2) n op by (auto simp: serving_def simp del: mset_append)
qed

lemma mset_take_drop: "i < length xs \<Longrightarrow> mset xs = add_mset (xs ! i) (mset (take i xs @ drop (Suc i) xs))"
  by (subst id_take_nth_drop [of i xs]) simp_all

lemma list_all2_remove: "list_all2 P xs ys \<Longrightarrow> list_all2 P (take i xs @ drop (Suc i) xs) (take i ys @ drop (Suc i) ys)"
  by (intro list_all2_appendI list_all2_takeI list_all2_dropI)

lemma serving_finish:
  assumes s: "serving comps js st" and i: "i < length (running st)" and op: "\<not> shut st"
    and js: "\<forall>j \<in> set js. servable senv server comps maxlen j"
    and w: "\<not> env_UsePool senv" "pool_ok (msgPool (cpools st))"
  shows "serving comps js (finish senv comps server ch i st)" "\<not> shut (finish senv comps server ch i st)"
    "arrived (finish senv comps server ch i st) = arrived st"
    "Suc (length (running (finish senv comps server ch i st))) = length (running st)"
proof -
  let ?n = "length (arrived st)"
  obtain rs as where ra: "mset (take ?n js) = mset rs + mset as" "list_all2 arrived_as rs (running st)"
    "list_all2 (answers comps) as (written st)" using s by (auto simp: serving_def)
  have ir: "i < length rs" using ra(2) i by (simp add: list_all2_lengthD)
  have "rs ! i \<in> set (take ?n js)" using ra(1) ir by (metis nth_mem set_mset_mset union_iff)
  then have j: "servable senv server comps maxlen (rs ! i)" using js by (auto dest: in_set_takeD)
  have req: "arrived_as (rs ! i) (running st ! i)" using list_all2_nthD [OF ra(2) ir] .
  obtain d w' where d: "handleTrueRequest senv comps server ch Background (running st ! i) (cpools st) = Some (Some d, w')"
    "answers comps (rs ! i) d" using job_answered [OF j req w] by blast
  have fin: "finish senv comps server ch i st = st\<lparr>running := take i (running st) @ drop (Suc i) (running st), cpools := w',
      written := written st @ [d]\<rparr>" using d(1) op by (simp add: finish_def)
  have "mset (take ?n js) = mset (take i rs @ drop (Suc i) rs) + mset (as @ [rs ! i])"
    using ra(1) mset_take_drop [OF ir] by simp
  moreover have "list_all2 arrived_as (take i rs @ drop (Suc i) rs) (take i (running st) @ drop (Suc i) (running st))"
    using ra(2) by (rule list_all2_remove)
  moreover have "list_all2 (answers comps) (as @ [rs ! i]) (written st @ [d])"
    using ra(3) d(2) by (simp add: list_all2_appendI)
  ultimately show "serving comps js (finish senv comps server ch i st)" "\<not> shut (finish senv comps server ch i st)"
    "arrived (finish senv comps server ch i st) = arrived st"
    "Suc (length (running (finish senv comps server ch i st))) = length (running st)"
    using fin s op i by (auto simp: serving_def simp del: mset_append)
qed

lemma shut_step: "conn_step env comps maxlen server st st' \<Longrightarrow> shut st \<Longrightarrow> shut st'"
  by (auto elim!: conn_stepE simp: finish_def split: option.splits)

lemma serving_start:
  "concat (pieces c) = concat (map (job_wire comps) js) \<Longrightarrow> serving comps js (newEasyConn c w)"
  by (simp add: serving_def newEasyConn_def NewReaderSize_def bufio_rest_def)

lemma serving_reach:
  assumes "conn_reach senv comps maxlen server st0 st" "serving comps js st0" "conn_inv comps st0" "\<not> shut st"
    and "\<forall>j \<in> set js. servable senv server comps maxlen j" "compressors_ok comps" "\<not> env_UsePool senv"
  shows "serving comps js st"
  using assms
proof (induction rule: conn_reach.induct)
  case (step st0 st1 st2)
  have op: "\<not> shut st1" using shut_step [OF step.hyps(2)] step.prems(3) by blast
  have s: "serving comps js st1" using step.IH step.prems op by simp
  have w: "pool_ok (msgPool (cpools st1))"
    using conn_reach_inv [OF step.hyps(1) step.prems(2)] by (simp add: conn_inv_def)
  show ?case using step.hyps(2)
  proof (cases rule: conn_step.cases)
    case (read ch)
    then have "16 \<le> length (bufio_rest (reader st1))"
      using serve_round_progress [OF w _ op, of comps maxlen ch] step.prems(3) by simp
    then have "length (arrived st1) < length js" using s by (cases "length (arrived st1) < length js") (auto simp: serving_def)
    then show ?thesis using serving_read(1) [OF s _ op step.prems(4,5) w] read by simp
  next
    case (done_ i ch)
    then show ?thesis using serving_finish(1) [OF s _ op step.prems(4,6) w, of i ch] by simp
  qed
qed simp

text \<open>When all handlers are done the frames written answer the jobs that arrived, in some order.\<close>

lemma serving_all_answered:
  assumes "serving comps js st" "running st = []" "length (arrived st) = length js"
  shows "\<exists>as. mset as = mset js \<and> list_all2 (answers comps) as (written st)"
  using assms by (auto simp: serving_def)

lemma serving_frames:
  fixes js :: "'x job list"
  assumes "serving comps js st"
  shows "[] \<notin> set (written st)"
proof
  assume "[] \<in> set (written st)"
  then obtain i where i: "i < length (written st)" "written st ! i = []" by (auto simp: in_set_conv_nth)
  obtain as :: "'x job list" where "list_all2 (answers comps) as (written st)" using assms unfolding serving_def by blast
  then have "answers comps (as ! i) (written st ! i)" using i(1) by (simp add: list_all2_conv_all_nth)
  then obtain m where "written st ! i = snd (Encode comps m)" "sendable m" unfolding answers_def by blast
  then have "length (written st ! i) \<noteq> 0" by (simp add: Encode_frame_sendable frame_def)
  then show False using i(2) by simp
qed

text \<open>The server does get there: it can read everything and finish everything, in any order.\<close>

lemma conn_reach_trans:
  "conn_reach env comps maxlen server st1 st2 \<Longrightarrow> conn_reach env comps maxlen server st0 st1 \<Longrightarrow>
   conn_reach env comps maxlen server st0 st2"
  by (induction rule: conn_reach.induct) (auto intro: conn_reach.step)

lemma serving_reads_all:
  assumes "serving comps js st" "\<not> shut st" "conn_inv comps st"
    and "\<forall>j \<in> set js. servable senv server comps maxlen j" "compressors_ok comps"
  shows "\<exists>st'. conn_reach senv comps maxlen server st st' \<and> serving comps js st' \<and> \<not> shut st' \<and>
    length (arrived st') = length js"
  using assms
proof (induction "length js - length (arrived st)" arbitrary: st)
  case 0
  then have "length (arrived st) = length js" by (simp add: serving_def)
  then show ?case using 0 conn_reach.init by blast
next
  case (Suc k)
  let ?st = "serve_round comps maxlen None st"
  have n: "length (arrived st) < length js" using Suc.hyps(2) by simp
  have w: "pool_ok (msgPool (cpools st))" using Suc.prems(3) by (simp add: conn_inv_def)
  note r = serving_read [OF Suc.prems(1) n Suc.prems(2,4,5) w, of None]
  have "\<not> crashed st" using Suc.prems(1) by (simp add: serving_def)
  then have "conn_reach senv comps maxlen server st ?st"
    using conn_step.read [OF Suc.prems(2)] conn_reach.init conn_reach.step by metis
  then show ?case
    using Suc.hyps(1) [OF _ r(1,2) serve_round_inv [OF Suc.prems(3)] Suc.prems(4,5)] Suc.hyps(2) r(3)
      conn_reach_trans by (metis Suc_diff_Suc diff_Suc_Suc n nat.inject)
qed

lemma serving_finishes_all:
  assumes "serving comps js st" "\<not> shut st" "conn_inv comps st"
    and "\<forall>j \<in> set js. servable senv server comps maxlen j" "\<not> env_UsePool senv"
  shows "\<exists>st'. conn_reach senv comps maxlen server st st' \<and> serving comps js st' \<and> \<not> shut st' \<and> running st' = [] \<and>
    arrived st' = arrived st"
  using assms
proof (induction "length (running st)" arbitrary: st)
  case 0
  then show ?case using conn_reach.init by fastforce
next
  case (Suc k)
  obtain ch :: choices where True by blast
  let ?i = "k" and ?ch = "ch"
  let ?st = "finish senv comps server ?ch ?i st"
  have i: "?i < length (running st)" using Suc.hyps(2) by simp
  have w: "pool_ok (msgPool (cpools st))" using Suc.prems(3) by (simp add: conn_inv_def)
  note f = serving_finish [OF Suc.prems(1) i Suc.prems(2,4,5) w, of ?ch]
  have "\<not> crashed st" using Suc.prems(1) by (simp add: serving_def)
  then have "conn_reach senv comps maxlen server st ?st"
    using conn_step.done_ [OF i] conn_reach.init conn_reach.step by metis
  moreover have "k = length (running ?st)" using f(4) Suc.hyps(2) by simp
  ultimately show ?case
    using Suc.hyps(1) [OF _ f(1,2) finish_inv [OF Suc.prems(3) i] Suc.prems(4,5)] f(3) conn_reach_trans by metis
qed

lemma all_jobs_answered:
  assumes "concat (pieces c) = concat (map (job_wire comps) js)" "pool_ok (msgPool w)"
    and "\<forall>j \<in> set js. servable senv server comps maxlen j" "compressors_ok comps" "\<not> env_UsePool senv"
  shows "\<exists>st. conn_reach senv comps maxlen server (newEasyConn c w) st \<and> \<not> shut st \<and> running st = [] \<and>
    length (arrived st) = length js \<and> serving comps js st"
proof -
  note s = serving_start [OF assms(1), of w] and ci = conn_inv_start [OF assms(2), of comps c]
  have "\<not> shut (newEasyConn c w)" by (simp add: newEasyConn_def)
  from serving_reads_all [OF s this ci assms(3,4)]
  obtain st1 where st1: "conn_reach senv comps maxlen server (newEasyConn c w) st1" "serving comps js st1" "\<not> shut st1"
    "length (arrived st1) = length js" by blast
  from serving_finishes_all [OF st1(2,3) conn_reach_inv [OF st1(1) ci] assms(3,5)] st1(1,4) conn_reach_trans
  show ?thesis by metis
qed

section \<open>The client's side\<close>

text \<open>The calls are registered at the client, can be encoded, and their replies decode.\<close>

definition registered :: "'x client_env \<Rightarrow> 'x RPCClient \<Rightarrow> 'x job \<Rightarrow> bool" where
  "registered cenv client j \<longleftrightarrow> jid j < length (calls client) \<and> calls client ! jid j = jcall j \<and>
     map_of (pending client) (jseq j) = Some (jid j) \<and> cSerializeType (jcall j) \<noteq> SerializeNone \<and>
     (\<exists>codec. ce_codecs cenv (cSerializeType (jcall j)) = Some codec \<and>
        codec_Encode (ce_libs cenv) codec (cArgs (jcall j)) = Some (jdata j, None) \<and>
        codec_Decode (ce_libs cenv) codec (jrdata j) (cReply (jcall j)) = Some (None, jreply j)) \<and>
     acceptable (ce_maxlen cenv) (16 + length (cServicePath (jcall j)) + length (cServiceMethod (jcall j)) +
        length (encodeMetadata (sent_back (jres j))) + length (jrdata j))"

text \<open>The goroutines of the callers transmit one after the other, in the order of the list.\<close>

fun transmit_all :: "'x client_env \<Rightarrow> 'x job list \<Rightarrow> 'x RPCClient \<Rightarrow> 'x RPCClient option" where
  "transmit_all cenv [] client = Some client"
| "transmit_all cenv (j # js) client = (case send_transmit cenv (jpooled j) None (jid j) (jseq j) client of
      None \<Rightarrow> None
    | Some client \<Rightarrow> transmit_all cenv js client)"

lemma transmit_all_ok:
  assumes "\<forall>j \<in> set js. registered cenv client j \<and> servable senv server (ce_comps cenv) maxlen j" "distinct (map jid js)"
  shows "\<exists>client'. transmit_all cenv js client = Some client' \<and>
    outbox client' = outbox client @ map (job_wire (ce_comps cenv)) js \<and> pending client' = pending client \<and>
    dones client' = dones client \<and> resp client' = resp client \<and> length (calls client') = length (calls client) \<and>
    (\<forall>i. i \<notin> jid ` set js \<longrightarrow> calls client' ! i = calls client ! i) \<and>
    (\<forall>i. cReply (calls client' ! i) = cReply (calls client ! i) \<and> cError (calls client' ! i) = cError (calls client ! i))"
  using assms
proof (induction js arbitrary: client)
  case (Cons j js)
  have j: "registered cenv client j" "servable senv server (ce_comps cenv) maxlen j" using Cons.prems by auto
  have h: "hdr_wf (mheader (jpooled j))" using j(2) new_header_fields(4) by (simp add: servable_def clean_def)
  obtain codec where codec: "ce_codecs cenv (cSerializeType (jcall j)) = Some codec"
    "codec_Encode (ce_libs cenv) codec (cArgs (jcall j)) = Some (jdata j, None)" using j(1) by (auto simp: registered_def)
  define client1 where "client1 = client\<lparr>insend := remove1 (jid j, jseq j) (insend client),
    calls := (calls client)[jid j := (jcall j)\<lparr>cSeq := jseq j\<rparr>],
    outbox := outbox client @ [job_wire (ce_comps cenv) j]\<rparr>"
  have send: "send_transmit cenv (jpooled j) None (jid j) (jseq j) client = Some client1"
    using client_sends [of "jid j" client "jpooled j" cenv codec "jdata j" "jseq j"] j h codec
    by (simp add: client1_def registered_def servable_def job_wire_def job_request_def)
  have "\<forall>j' \<in> set js. registered cenv client1 j' \<and> servable senv server (ce_comps cenv) maxlen j'"
  proof
    fix j' assume j': "j' \<in> set js"
    then have "jid j \<noteq> jid j'" using Cons.prems(2) by auto
    then show "registered cenv client1 j' \<and> servable senv server (ce_comps cenv) maxlen j'"
      using Cons.prems(1) j' by (simp add: registered_def client1_def)
  qed
  from Cons.IH [OF this] Cons.prems(2) send j(1) show ?case
    by (auto simp: client1_def registered_def nth_list_update split: if_splits)
qed simp

text \<open>Rounds of \<open>input\<close> in which a response is read and handled.\<close>

fun input_rounds :: "'x client_env \<Rightarrow> nat \<Rightarrow> 'x RPCClient \<Rightarrow> 'x RPCClient option" where
  "input_rounds cenv 0 client = Some client"
| "input_rounds cenv (Suc n) client = (case readResponse cenv (resp client) (cstream client) of
      Some (m, None, s) \<Rightarrow> (case handle_response cenv m (client\<lparr>cstream := s\<rparr>) of
          None \<Rightarrow> None
        | Some client \<Rightarrow> input_rounds cenv n client)
    | _ \<Rightarrow> None)"

definition awaits :: "'x client_env \<Rightarrow> 'x RPCClient \<Rightarrow> 'x job \<Rightarrow> bool" where
  "awaits cenv client j \<longleftrightarrow> jid j < length (calls client) \<and> map_of (pending client) (jseq j) = Some (jid j) \<and>
     (\<exists>codec. ce_codecs cenv (cSerializeType (jcall j)) = Some codec \<and>
        codec_Decode (ce_libs cenv) codec (jrdata j) (cReply (calls client ! jid j)) = Some (None, jreply j)) \<and>
     acceptable (ce_maxlen cenv) (16 + length (cServicePath (jcall j)) + length (cServiceMethod (jcall j)) +
        length (encodeMetadata (sent_back (jres j))) + length (jrdata j))"

text \<open>One response.\<close>

lemma input_round_ok:
  assumes j: "awaits cenv client j" "answers (ce_comps cenv) j (concat qs)" "[] \<notin> set qs"
    and c: "receiver (resp client)" "compressors_ok (ce_comps cenv)" "cstream client = \<lparr>pieces = qs @ ps, cend = e\<rparr>"
  shows "\<exists>client1. input_rounds cenv (Suc n) client = input_rounds cenv n client1 \<and> receiver (resp client1) \<and>
    cstream client1 = \<lparr>pieces = ps, cend = e\<rparr> \<and> length (calls client1) = length (calls client) \<and>
    cReply (calls client1 ! jid j) = jreply j \<and> cError (calls client1 ! jid j) = cError (calls client ! jid j) \<and>
    (\<forall>i. i \<noteq> jid j \<longrightarrow> calls client1 ! i = calls client ! i) \<and> dones client1 = dones client @ [jid j] \<and>
    pending client1 = AList.delete (jseq j) (pending client)"
proof -
  obtain m where m: "concat qs = snd (Encode (ce_comps cenv) m)" "sendable m" "CompressType (mheader m) = NoCompress"
    "Seq (mheader m) = jseq j" "SerializeType (mheader m) = cSerializeType (jcall j)" "\<not> IsHeartbeat (mheader m)"
    "MessageStatusType (mheader m) = Normal" "Metadata m = sent_back (jres j)" "Payload m = jrdata j"
    "ServicePath m = cServicePath (jcall j)" "ServiceMethod m = cServiceMethod (jcall j)"
    using j(2) by (auto simp: answers_def)
  have size: "acceptable (ce_maxlen cenv) (body_size (ce_comps cenv) m)"
    using j(1) m by (simp add: awaits_def body_size_def encode_payload_def add.assoc)
  obtain t where t: "readResponse cenv (resp client) (cstream client) = Some (t, None, \<lparr>pieces = ps, cend = e\<rparr>)"
    "received (ce_comps cenv) m (resp client) t" "receiver t"
    using readResponse_within [OF m(2) c(1,2) size m(1) j(3)] c(3) by auto
  note h = encode_header_fields [OF sendableD(1) [OF m(2)], of "ce_comps cenv"]
  have f: "Seq (mheader t) = jseq j" "\<not> IsHeartbeat (mheader t)" "MessageStatusType (mheader t) = Normal"
    "SerializeType (mheader t) = cSerializeType (jcall j)" "Payload t = jrdata j"
    using t(2) h m by (simp_all add: received_def)
  let ?client = "client\<lparr>cstream := \<lparr>pieces = ps, cend = e\<rparr>\<rparr>"
  obtain codec where codec: "ce_codecs cenv (cSerializeType (jcall j)) = Some codec"
    "codec_Decode (ce_libs cenv) codec (jrdata j) (cReply (calls client ! jid j)) = Some (None, jreply j)"
    using j(1) by (auto simp: awaits_def)
  have p: "map_of (pending ?client) (Seq (mheader t)) = Some (jid j)" "jid j < length (calls ?client)"
    "ce_codecs cenv (SerializeType (mheader t)) = Some codec"
    "codec_Decode (ce_libs cenv) codec (Payload t) (cReply (calls ?client ! jid j)) = Some (None, jreply j)"
    using j(1) f codec by (simp_all add: awaits_def)
  from handle_response_delivers [OF p(1,2) f(2,3) p(3,4)] obtain client1 where
    client1: "handle_response cenv t ?client = Some client1" "cReply (calls client1 ! jid j) = jreply j"
      "cError (calls client1 ! jid j) = cError (calls client ! jid j)"
      "\<forall>i. i \<noteq> jid j \<longrightarrow> calls client1 ! i = calls client ! i" "dones client1 = dones client @ [jid j]"
      "pending client1 = AList.delete (jseq j) (pending client)"
    by (auto simp: f)
  show ?thesis using t client1 handle_response_keeps [OF client1(1)] by (intro exI [of _ client1]) simp
qed

text \<open>All responses, in the order in which they arrive.\<close>

lemma input_rounds_ok:
  assumes "list_all2 (\<lambda>j qs. answers (ce_comps cenv) j (concat qs) \<and> [] \<notin> set qs) as qss"
    and "\<forall>j \<in> set as. awaits cenv client j" "distinct (map jid as)" "distinct (map jseq as)"
    and "receiver (resp client)" "compressors_ok (ce_comps cenv)" "cstream client = \<lparr>pieces = concat qss @ ps, cend = e\<rparr>"
  shows "\<exists>client'. input_rounds cenv (length as) client = Some client' \<and>
    (\<forall>j \<in> set as. cReply (calls client' ! jid j) = jreply j \<and> cError (calls client' ! jid j) = cError (calls client ! jid j)) \<and>
    (\<forall>i. i \<notin> jid ` set as \<longrightarrow> calls client' ! i = calls client ! i) \<and> dones client' = dones client @ map jid as \<and>
    (\<forall>sq. map_of (pending client') sq = (if sq \<in> jseq ` set as then None else map_of (pending client) sq)) \<and>
    cstream client' = \<lparr>pieces = ps, cend = e\<rparr>"
  using assms
proof (induction as arbitrary: qss client)
  case (Cons j as)
  obtain qs qss1 where qss: "qss = qs # qss1" "answers (ce_comps cenv) j (concat qs)" "[] \<notin> set qs"
    "list_all2 (\<lambda>j qs. answers (ce_comps cenv) j (concat qs) \<and> [] \<notin> set qs) as qss1"
    using Cons.prems(1) by (auto simp: list_all2_Cons1)
  have aw: "awaits cenv client j" using Cons.prems(2) by simp
  have st: "cstream client = \<lparr>pieces = qs @ (concat qss1 @ ps), cend = e\<rparr>" using Cons.prems(7) qss(1) by simp
  from input_round_ok [OF aw qss(2,3) Cons.prems(5,6) st, of "length as"] obtain client1 where
    c1: "input_rounds cenv (Suc (length as)) client = input_rounds cenv (length as) client1" "receiver (resp client1)"
      "cstream client1 = \<lparr>pieces = concat qss1 @ ps, cend = e\<rparr>" "length (calls client1) = length (calls client)"
      "cReply (calls client1 ! jid j) = jreply j" "cError (calls client1 ! jid j) = cError (calls client ! jid j)"
      "\<forall>i. i \<noteq> jid j \<longrightarrow> calls client1 ! i = calls client ! i" "dones client1 = dones client @ [jid j]"
      "pending client1 = AList.delete (jseq j) (pending client)" by blast
  have other: "jid j' \<noteq> jid j" "jseq j' \<noteq> jseq j" if "j' \<in> set as" for j'
    using Cons.prems(3,4) that by (auto simp: rev_image_eqI)
  have "\<forall>j' \<in> set as. awaits cenv client1 j'"
    using Cons.prems(2) other c1(4,7,9) by (auto simp: awaits_def delete_conv')
  from Cons.IH [OF qss(4) this _ _ c1(2) Cons.prems(6) c1(3)] Cons.prems(3,4) obtain client' where
    c': "input_rounds cenv (length as) client1 = Some client'"
      "\<forall>j \<in> set as. cReply (calls client' ! jid j) = jreply j \<and> cError (calls client' ! jid j) = cError (calls client1 ! jid j)"
      "\<forall>i. i \<notin> jid ` set as \<longrightarrow> calls client' ! i = calls client1 ! i" "dones client' = dones client1 @ map jid as"
      "\<forall>sq. map_of (pending client') sq = (if sq \<in> jseq ` set as then None else map_of (pending client1) sq)"
      "cstream client' = \<lparr>pieces = ps, cend = e\<rparr>" by auto
  have "jid j \<notin> jid ` set as" using Cons.prems(3) by simp
  then show ?case using c1 c' other
    by (intro exI [of _ client']) (auto simp: delete_conv')
qed simp

section \<open>Properties\<close>

text \<open>C2. Many calls share one connection: the callers transmit their requests in any order, the network delivers the bytes in any
  pieces, the server reads and its handlers run and finish under any interleaving, and when all are done and no piece
  of the way back spans two responses, every call gets the reply that its own method call computed; every call is
  signalled exactly once, exactly these calls leave the table, and no other call is touched.\<close>

theorem multiplexed_calls:
  assumes jobs: "\<forall>j \<in> set js. registered cenv client j \<and> servable senv server (ce_comps cenv) maxlen j"
      "distinct (map jid js)" "distinct (map jseq js)"
    and env: "compressors_ok (ce_comps cenv)" "\<not> env_UsePool senv" "pool_ok (msgPool w)" "receiver (resp client)"
    and sent: "transmit_all cenv js client = Some client1"
    and up: "concat (pieces up) = concat (drop (length (outbox client)) (outbox client1))"
    and served: "conn_reach senv (ce_comps cenv) maxlen server (newEasyConn up w) st" "\<not> shut st" "running st = []"
      "length (arrived st) = length js"
    and down: "map concat qss = written st" "\<forall>qs \<in> set qss. [] \<notin> set qs"
  shows "\<exists>client2. input_rounds cenv (length js) (client1\<lparr>cstream := \<lparr>pieces = concat qss @ ps, cend = e\<rparr>\<rparr>) = Some client2 \<and>
    (\<forall>j \<in> set js. cReply (calls client2 ! jid j) = jreply j \<and> cError (calls client2 ! jid j) = cError (jcall j)) \<and>
    (\<forall>i. i \<notin> jid ` set js \<longrightarrow> calls client2 ! i = calls client ! i) \<and>
    mset (dones client2) = mset (dones client) + mset (map jid js) \<and>
    (\<forall>sq. map_of (pending client2) sq = (if sq \<in> jseq ` set js then None else map_of (pending client) sq))"
proof -
  let ?comps = "ce_comps cenv"
  have c1: "outbox client1 = outbox client @ map (job_wire ?comps) js" "pending client1 = pending client"
    "dones client1 = dones client" "resp client1 = resp client" "length (calls client1) = length (calls client)"
    "\<forall>i. i \<notin> jid ` set js \<longrightarrow> calls client1 ! i = calls client ! i"
    "\<forall>i. cReply (calls client1 ! i) = cReply (calls client ! i) \<and> cError (calls client1 ! i) = cError (calls client ! i)"
    using transmit_all_ok [OF jobs(1,2)] sent by auto
  have sv: "\<forall>j \<in> set js. servable senv server ?comps maxlen j" using jobs(1) by blast
  have "serving ?comps js (newEasyConn up w)" using up c1(1) by (intro serving_start) simp
  from serving_reach [OF served(1) this conn_inv_start [OF env(3)] served(2) sv env(1,2)]
  obtain as where as: "mset as = mset js" "list_all2 (answers ?comps) as (written st)"
    using serving_all_answered served(3,4) by blast
  have "mset (map jid as) = mset (map jid js)" "mset (map jseq as) = mset (map jseq js)" using as(1) by simp_all
  then have same: "set as = set js" "length as = length js" "distinct (map jid as)" "distinct (map jseq as)"
    using jobs(2,3) mset_eq_setD [OF as(1)] mset_eq_length [OF as(1)] mset_eq_imp_distinct_iff by blast+
  let ?client = "client1\<lparr>cstream := \<lparr>pieces = concat qss @ ps, cend = e\<rparr>\<rparr>"
  have qss: "list_all2 (\<lambda>j qs. answers ?comps j (concat qs) \<and> [] \<notin> set qs) as qss"
    using as(2) down(2) unfolding down(1) [symmetric] by (auto simp: list_all2_conv_all_nth)
  have "\<forall>j \<in> set as. awaits cenv ?client j"
    using jobs(1) c1 by (auto simp: same(1) awaits_def registered_def)
  from input_rounds_ok [OF qss this same(3,4), of ps e] env(1,4) c1
  obtain client2 where "input_rounds cenv (length as) ?client = Some client2"
    "\<forall>j \<in> set as. cReply (calls client2 ! jid j) = jreply j \<and> cError (calls client2 ! jid j) = cError (calls client1 ! jid j)"
    "\<forall>i. i \<notin> jid ` set as \<longrightarrow> calls client2 ! i = calls client1 ! i" "dones client2 = dones client1 @ map jid as"
    "\<forall>sq. map_of (pending client2) sq = (if sq \<in> jseq ` set as then None else map_of (pending client1) sq)" by auto
  moreover have "\<forall>j \<in> set js. cError (calls client ! jid j) = cError (jcall j)" using jobs(1) by (auto simp: registered_def)
  ultimately show ?thesis using c1 same as(1) by (intro exI [of _ client2]) auto
qed

text \<open>Two calls on one connection of the demo client and the demo server.\<close>

definition demo_two :: "nat list RPCClient" where
  "demo_two = snd (the (Go 4 Background ''mul'' (GoObj [2, 5]) (GoObj []) None [SetCallSerializeType JSON] demo_called))"

lemma Go_registers:
  assumes "status client = ConnAvailable" "map_of (pending client) (cseq client + 1) = None"
  shows "snd (the (Go now c m args reply None [SetCallSerializeType st] client)) = client\<lparr>
    calls := calls client @ [\<lparr>cCtx = c, cServicePath = servicePath client, cServiceMethod = m, cArgs = args,
           cReply = reply, cError = None, cDone = length (chans client), cMetadata = None, cHeartBeat = False,
           cCompressType = NoCompress, cSerializeType = st, cSeq = 0, cAfterCalls = []\<rparr>],
    chans := chans client @ [(10, [])], cseq := cseq client + 1, pending := pending client @ [(cseq client + 1, length (calls client))],
    lastSend := now, insend := insend client @ [(length (calls client), cseq client + 1)]\<rparr>"
proof -
  have "AList.update k v al = al @ [(k, v)]" if "map_of al k = None" for k v and al :: "(u64 \<times> nat) list"
    using that by (induction al) (auto split: if_splits)
  then show ?thesis using assms
    by (simp add: Go_def new_call_def send_register_def SetCallSerializeType_def add_option_def apply_option_simps Let_def)
qed

lemma demo_called_simps:
  "demo_called = demo_client\<lparr>
    calls := [\<lparr>cCtx = Background, cServicePath = ''arith'', cServiceMethod = ''mul'', cArgs = GoObj [6, 7],
           cReply = GoObj [], cError = None, cDone = 0, cMetadata = None, cHeartBeat = False,
           cCompressType = NoCompress, cSerializeType = JSON, cSeq = 0, cAfterCalls = []\<rparr>],
    chans := [(10, [])], cseq := 1, pending := [(1, 0)], lastSend := 3, insend := [(0, 1)]\<rparr>"
  "status demo_client = ConnAvailable" "dones demo_client = []" "outbox demo_client = []" "resp demo_client = NewMessage"
  "servicePath demo_client = ''arith''"
proof -
  show "status demo_client = ConnAvailable" "dones demo_client = []" "outbox demo_client = []" "resp demo_client = NewMessage"
    by (simp_all add: demo_client_def make_client_def)
  show sp: "servicePath demo_client = ''arith''"
    by (simp add: demo_client_def make_client_def demo_conf_def ToLower_def lower_char_def char_of_def bit_0)
  show "demo_called = demo_client\<lparr>
    calls := [\<lparr>cCtx = Background, cServicePath = ''arith'', cServiceMethod = ''mul'', cArgs = GoObj [6, 7],
           cReply = GoObj [], cError = None, cDone = 0, cMetadata = None, cHeartBeat = False,
           cCompressType = NoCompress, cSerializeType = JSON, cSeq = 0, cAfterCalls = []\<rparr>],
    chans := [(10, [])], cseq := 1, pending := [(1, 0)], lastSend := 3, insend := [(0, 1)]\<rparr>"
    unfolding demo_called_def
    by (subst Go_registers) (simp_all add: sp del: protocol_consts, simp_all add: demo_client_def make_client_def)
qed

lemma demo_two_calls:
  "length (calls demo_two) = 2" "pending demo_two = [(1, 0), (2, 1)]" "outbox demo_two = []" "dones demo_two = []"
  "resp demo_two = NewMessage" "calls demo_two ! 0 = calls demo_called ! 0"
  "calls demo_two ! Suc 0 = (calls demo_called ! 0)\<lparr>cArgs := GoObj [2, 5], cDone := 1\<rparr>"
  unfolding demo_two_def
  by (subst Go_registers; simp add: demo_called_simps del: protocol_consts)+

definition demo_job :: "nat \<Rightarrow> byte \<Rightarrow> byte \<Rightarrow> nat list job" where
  "demo_job i a b = \<lparr>jid = i, jcall = calls demo_two ! i, jseq = word_of_nat (Suc i), jpooled = NewMessage, jdata = [a, b],
     jctx = Background, jres = \<lparr>hOutcome = Returns None, hArg = GoObj [unat a, unat b], hReply = GoObj [unat a * unat b], hSent = []\<rparr>,
     jrdata = [word_of_nat (unat a * unat b)], jreply = GoObj [unat a * unat b]\<rparr>"

lemma demo_job_fields:
  assumes "i = 0 \<or> i = Suc 0"
  shows "cHeartBeat (jcall (demo_job i a b)) = False" "cSerializeType (jcall (demo_job i a b)) = JSON"
    "cServicePath (jcall (demo_job i a b)) = ''arith''" "cServiceMethod (jcall (demo_job i a b)) = ''mul''"
    "extractMdFromClientCtx (cCtx (jcall (demo_job i a b))) = []" "cCompressType (jcall (demo_job i a b)) = NoCompress"
    "cReply (jcall (demo_job i a b)) = GoObj []" "jid (demo_job i a b) = i" "jcall (demo_job i a b) = calls demo_two ! i"
    "jseq (demo_job i a b) = word_of_nat (Suc i)" "jpooled (demo_job i a b) = NewMessage" "jdata (demo_job i a b) = [a, b]"
    "jctx (demo_job i a b) = Background" "jrdata (demo_job i a b) = [word_of_nat (unat a * unat b)]"
    "jreply (demo_job i a b) = GoObj [unat a * unat b]" "sent_back (jres (demo_job i a b)) = None"
    "jres (demo_job i a b) = \<lparr>hOutcome = Returns None, hArg = GoObj [unat a, unat b], hReply = GoObj [unat a * unat b], hSent = []\<rparr>"
  using assms by (auto simp: demo_job_def demo_two_calls demo_called_names demo_called_fields sent_back_def simp del: protocol_consts)

lemma demo_registered:
  "i = 0 \<and> a = 6 \<and> b = 7 \<or> i = Suc 0 \<and> a = 2 \<and> b = 5 \<Longrightarrow> registered demo_client_env demo_two (demo_job i a b)"
  by (auto simp: registered_def demo_job_def demo_two_calls demo_called_fields demo_called_names sent_back_def demo_client_env_def
      codec_Encode_def codec_Decode_def JSONCodec_Encode_def JSONCodec_Decode_def demo_libs_def demo_marshal_def demo_unmarshal_def
      Codecs_def acceptable_def encodeMetadata_def)

lemma demo_servable:
  assumes "i = 0 \<or> i = Suc 0"
  shows "servable demo_env demo_server Map.empty 0 (demo_job i a b)"
proof -
  have "acceptable 0 (body_size Map.empty (job_request (demo_job i a b)))"
    using demo_job_fields [OF assms, of a b]
    by (simp add: acceptable_def body_size_def job_request_def request_of_def encode_payload_def NewMessage_def encodeMetadata_def
        split: prod.splits option.splits)
  then show ?thesis
    using demo_offers_values [of Background a b] demo_job_fields [OF assms, of a b]
    by (simp add: servable_def JSON_mask sent_md_def demo_extract md_wf_def smap_wf_def clean_NewMessage)
qed

lemma demo_jobs:
  "\<forall>j \<in> set [demo_job 0 6 7, demo_job 1 2 5]. registered demo_client_env demo_two j \<and> servable demo_env demo_server Map.empty 0 j"
  using demo_registered [of 0 6 7] demo_registered [of "Suc 0" 2 5] demo_servable [of 0] demo_servable [of "Suc 0"] by simp

theorem multiplexed_calls_witness:
  "\<exists>client1 st qss client2. transmit_all demo_client_env [demo_job 0 6 7, demo_job 1 2 5] demo_two = Some client1 \<and>
     conn_reach demo_env Map.empty 0 demo_server (newEasyConn \<lparr>pieces = outbox client1, cend = EOF\<rparr> demo_pools) st \<and>
     map concat qss = written st \<and>
     input_rounds demo_client_env 2 (client1\<lparr>cstream := \<lparr>pieces = concat qss, cend = EOF\<rparr>\<rparr>) = Some client2 \<and>
     cReply (calls client2 ! 0) = GoObj [42] \<and> cReply (calls client2 ! 1) = GoObj [10] \<and> mset (dones client2) = {#0, 1#}"
proof -
  let ?js = "[demo_job 0 6 7, demo_job 1 2 5]"
  have env: "ce_comps demo_client_env = Map.empty" "compressors_ok (ce_comps demo_client_env)" "\<not> env_UsePool demo_env"
      "pool_ok (msgPool demo_pools)" "receiver (resp demo_two)"
    by (simp_all add: demo_client_env_def compressors_ok_def demo_env_def demo_pools_def pool_ok_def demo_two_calls)
  have d: "distinct (map jid ?js)" "distinct (map jseq ?js)" by (simp_all add: demo_job_fields)
  have js: "\<forall>j \<in> set ?js. registered demo_client_env demo_two j \<and> servable demo_env demo_server (ce_comps demo_client_env) 0 j"
    using demo_jobs by (simp add: env(1))
  obtain client1 where c1: "transmit_all demo_client_env ?js demo_two = Some client1"
    "outbox client1 = map (job_wire (ce_comps demo_client_env)) ?js"
    using transmit_all_ok [OF js d(1)] by (auto simp: demo_two_calls)
  let ?up = "\<lparr>pieces = outbox client1, cend = EOF\<rparr>"
  have srv: "\<forall>j \<in> set ?js. servable demo_env demo_server (ce_comps demo_client_env) 0 j" using js by blast
  have up: "concat (pieces ?up) = concat (map (job_wire (ce_comps demo_client_env)) ?js)" using c1(2) by simp
  obtain st where st: "conn_reach demo_env (ce_comps demo_client_env) 0 demo_server (newEasyConn ?up demo_pools) st"
    "\<not> shut st" "running st = []" "length (arrived st) = length ?js"
    "serving (ce_comps demo_client_env) ?js st"
    using all_jobs_answered [OF up env(4) srv env(2,3)] by blast
  let ?qss = "map (\<lambda>bs. [bs]) (written st)"
  have sent: "concat (pieces ?up) = concat (drop (length (outbox demo_two)) (outbox client1))" by (simp add: demo_two_calls)
  have "[] \<notin> set (written st)" using st(5) by (rule serving_frames)
  then have qss: "map concat ?qss = written st" "\<forall>qs \<in> set ?qss. [] \<notin> set qs" by (auto simp: comp_def)
  note all = multiplexed_calls [OF js d env(2-5) c1(1) sent st(1-4) qss, of "[]" EOF]
  obtain client2 where c2: "input_rounds demo_client_env (length ?js) (client1\<lparr>cstream := \<lparr>pieces = concat ?qss @ [], cend = EOF\<rparr>\<rparr>) = Some client2"
    "\<forall>j \<in> set ?js. cReply (calls client2 ! jid j) = jreply j \<and> cError (calls client2 ! jid j) = cError (jcall j)"
    "mset (dones client2) = mset (dones demo_two) + mset (map jid ?js)"
    using all by blast
  have "cReply (calls client2 ! 0) = GoObj [42]" "cReply (calls client2 ! 1) = GoObj [10]" "mset (dones client2) = {#0, 1#}"
    using c2(2,3) by (simp_all add: demo_job_fields demo_two_calls)
  moreover have "input_rounds demo_client_env 2 (client1\<lparr>cstream := \<lparr>pieces = concat ?qss, cend = EOF\<rparr>\<rparr>) = Some client2"
    using c2(1) by (simp add: numeral_2_eq_2)
  moreover have "conn_reach demo_env Map.empty 0 demo_server (newEasyConn ?up demo_pools) st" using st(1) unfolding env(1) .
  ultimately show ?thesis using c1(1) qss(1) by blast
qed

end
