(* ===== verification/FailedCall.thy ===== *)
theory FailedCall
  imports EndToEnd
begin

text \<open>
  A call that fails on the server, as its caller sees it: the request crosses the wire, the server's handler ends in an
  error, and nothing comes back.
\<close>

section \<open>The request and its outcome\<close>

text \<open>The outcome of a request depends on its names, its serialization type, its payload and its one-way flag.\<close>

lemma rpc_spec_same:
  assumes "ServicePath req = ServicePath req'" "ServiceMethod req = ServiceMethod req'" "Payload req = Payload req'"
    and "SerializeType (mheader req) = SerializeType (mheader req')" "IsOneway (mheader req) = IsOneway (mheader req')"
  shows "rpc_spec env server c req = rpc_spec env server c req'"
  by (simp only: rpc_spec_def assms)

lemma server_round_error:
  assumes p: "clean pooled" "cSerializeType call AND mask 4 = cSerializeType call" "\<not> cHeartBeat call"
      "smap_wf (extractMdFromClientCtx (cCtx call))"
    and comps: "compressors_ok comps"
    and ok: "acceptable maxlen (body_size comps (request_of pooled call sq data))"
    and up: "concat (pieces c) = snd (Encode comps (request_of pooled call sq data))"
    and cx: "extractClientMdContexFromMd Background (case sent_md call of None \<Rightarrow> [] | Some md \<Rightarrow> md) = Inr cx"
    and err: "rpc_spec senv server cx (request_of pooled call sq data) = Some (RpcError e)"
    and w: "pool_ok (msgPool w)" "pools_ok senv (set (table_types (serviceMap server))) (argsReplyPools w)"
  shows "written (finish senv comps server ch2 0 (serve_round comps maxlen ch1 (newEasyConn c w))) = []"
proof -
  obtain t mp where get: "GetPooledMsg ch1 (msgPool w) = (t, mp)" by fastforce
  then have t: "clean t" using GetPooledMsg_ok [OF w(1)] by auto
  have "bufio_rest (NewReaderSize c 1024) = snd (Encode comps (request_of pooled call sq data)) @ []"
    using up by (simp add: bufio_rest_def NewReaderSize_def)
  from request_arrives [OF p(1,2,4) t comps ok this]
  obtain req rd where req: "Decode bufio_readfull comps maxlen t (NewReaderSize c 1024) = Some (req, None, rd)"
    "ServicePath req = cServicePath call" "ServiceMethod req = cServiceMethod call" "Payload req = data"
    "SerializeType (mheader req) = cSerializeType call" "IsHeartbeat (mheader req) = cHeartBeat call" "\<not> IsOneway (mheader req)"
    "Metadata req = sent_md call" by blast
  note sr = server_round [OF get req(1)]
  have "\<not> IsOneway (mheader (request_of pooled call sq data))"
    using request_of_clean(6) [OF p(1,2,4), of sq data] request_header_fields [OF new_header_fields(4) p(2), of sq] new_header_fields(1)
    by simp
  then have "rpc_spec senv server cx req = Some (RpcError e)"
    using err rpc_spec_same [of req "request_of pooled call sq data" senv server cx] req(2-5,7)
      request_of_clean [OF p(1,2,4), of sq data] request_header_fields [OF new_header_fields(4) p(2), of sq] by simp
  then obtain w' where "handleTrueRequest senv comps server ch2 Background req (w\<lparr>msgPool := mp\<rparr>) = Some (None, w')"
    using handleTrueRequest_error [where req = req and c = Background and c' = cx and w = "w\<lparr>msgPool := mp\<rparr>" and env = senv and server = server and comps = comps and ch = ch2] cx req(8) w(2) by auto
  then show ?thesis using sr p(3) req(6) by (simp add: finish_def)
qed

section \<open>The caller waits\<close>

text \<open>
  \<open>Call\<close> up to its \<^verbatim>\<open>select\<close>, and what the server's connection writes for the request: the call's number, the client
  that waits, and the bytes.
\<close>

definition unanswered_Call ::
  "'x client_env \<Rightarrow> 'x server_env \<Rightarrow> 'x server \<Rightarrow> compressors \<Rightarrow> int \<Rightarrow> message \<Rightarrow> nat option \<Rightarrow> choices
     \<Rightarrow> (bytes \<Rightarrow> conn) \<Rightarrow> 'x pools \<Rightarrow> int \<Rightarrow> ctx \<Rightarrow> string \<Rightarrow> 'x goval \<Rightarrow> 'x goval
     \<Rightarrow> BeforeOrAfterCallOption list \<Rightarrow> 'x RPCClient \<Rightarrow> (nat \<times> 'x RPCClient \<times> bytes list) option" where
  "unanswered_Call cenv senv server comps maxlen pooled ch1 ch2 up w now c m args reply opts client = do {
     (i, client1) \<leftarrow> call_start now c m args reply opts client;
     client2 \<leftarrow> send_transmit cenv pooled None i (cseq client1) client1;
     (case drop (length (outbox client)) (outbox client2) of
        [wire] \<Rightarrow> Some (i, client2, written (finish senv comps server ch2 0 (serve_round comps maxlen ch1 (newEasyConn (up wire) w))))
      | _ \<Rightarrow> None)
   }"

text \<open>C32. An error on the server becomes a timeout for the caller: whatever the error of the request (no such service or
  method, no codec, a payload that does not decode, an error or a panic of the method), the server writes nothing, so the
  caller's \<open>select\<close> has only the context to wait for, \<open>Call\<close> returns \<open>ErrTimeOut\<close> and not the error, the reply is untouched,
  and the call stays in the table of pending calls.\<close>

theorem server_error_becomes_timeout:
  assumes start: "call_start now c m args reply opts client = Some (i, client1)" "status client = ConnAvailable"
    and call: "callable cenv client1 i (cseq client1) codec data" "clean pooled"
    and comps: "compressors_ok (ce_comps cenv)"
    and size: "acceptable maxlen (body_size (ce_comps cenv) (request_of pooled (calls client1 ! i) (cseq client1) data))"
    and cx: "extractClientMdContexFromMd Background
      (case sent_md (calls client1 ! i) of None \<Rightarrow> [] | Some md \<Rightarrow> md) = Inr cx"
    and err: "rpc_spec senv server cx (request_of pooled (calls client1 ! i) (cseq client1) data) = Some (RpcError e)"
    and srv: "pool_ok (msgPool w)" "pools_ok senv (set (table_types (serviceMap server))) (argsReplyPools w)"
    and net: "delivers up"
  shows "\<exists>client2. unanswered_Call cenv senv server (ce_comps cenv) maxlen pooled ch1 ch2 up w now c m args reply opts client =
      Some (i, client2, []) \<and>
    call_await False (length (chans client)) client2 = None \<and>
    call_await True (length (chans client)) client2 = Some (Some ErrTimeOut, client2) \<and>
    cReply (calls client2 ! i) = reply \<and> map_of (pending client2) (cseq client1) = Some i \<and> dones client2 = dones client"
proof -
  note f = call_start_fields [OF start]
  let ?call = "calls client1 ! i" and ?sq = "cseq client1"
  let ?wire = "snd (Encode (ce_comps cenv) (request_of pooled ?call ?sq data))"
  have c: "i < length (calls client1)" "map_of (pending client1) ?sq = Some i" "\<not> cHeartBeat ?call"
    "cSerializeType ?call AND mask 4 = cSerializeType ?call" "cSerializeType ?call \<noteq> SerializeNone"
    "ce_codecs cenv (cSerializeType ?call) = Some codec" "smap_wf (extractMdFromClientCtx (cCtx ?call))"
    "codec_Encode (ce_libs cenv) codec (cArgs ?call) = Some (data, None)"
    using call(1) by (simp_all add: callable_def Let_def)
  have h: "hdr_wf (mheader pooled)" using call(2) by (simp add: clean_def new_header_fields)
  obtain client2 where send: "send_transmit cenv pooled None i ?sq client1 = Some client2"
    and c2: "outbox client2 = outbox client @ [?wire]" "pending client2 = pending client1" "dones client2 = dones client"
      "calls client2 = (calls client1)[i := ?call\<lparr>cSeq := ?sq\<rparr>]" "chans client2 = chans client @ [(1, [])]"
    using client_sends [OF c(1) h c(4,5,6,8), of ?sq] f by simp
  have "concat (pieces (up ?wire)) = ?wire" using net by (simp add: delivers_def)
  from server_round_error [OF call(2) c(4,3,7) comps size this cx err srv]
  have "unanswered_Call cenv senv server (ce_comps cenv) maxlen pooled ch1 ch2 up w now c m args reply opts client = Some (i, client2, [])"
    using start(1) send c2(1) by (simp add: unanswered_Call_def)
  then show ?thesis using c2 c(1,2) f by (auto simp: call_await_def)
qed

theorem server_error_becomes_timeout_witness:
  "\<exists>client2. unanswered_Call demo_client_env demo_env empty_server Map.empty 0 NewMessage None demo_choices halves demo_pools
      3 Background ''mul'' (GoObj [6, 7]) (GoObj []) [SetCallSerializeType JSON] demo_client = Some (0, client2, []) \<and>
    call_await True 0 client2 = Some (Some ErrTimeOut, client2)"
proof -
  let ?client1 = "demo_called\<lparr>chans := [(1, [])]\<rparr>" and ?call = "calls demo_called ! 0"
  have sq: "cseq demo_called = 1" "status demo_client = ConnAvailable" "chans demo_client = []"
    by (simp_all add: demo_called_def Go_def new_call_def demo_client_def make_client_def send_register_def
      SetCallSerializeType_def add_option_def apply_option_simps del: protocol_consts)
  have call: "callable demo_client_env ?client1 0 (cseq ?client1) JSONCodec [6, 7]"
    by (simp add: callable_def Let_def demo_called_fields demo_called_names demo_client_env_def codec_Encode_def sq
        JSONCodec_Encode_def demo_libs_def demo_marshal_def smap_wf_def Codecs_def JSON_mask)
  have size: "acceptable 0 (body_size Map.empty (request_of NewMessage ?call 1 [6, 7]))"
    by (simp add: acceptable_def body_size_def request_of_def demo_called_names encode_payload_def NewMessage_def
        encodeMetadata_def split: prod.splits option.splits)
  have err: "rpc_spec demo_env empty_server Background (request_of NewMessage ?call 1 [6, 7]) =
      Some (RpcError (cannot_find ''service'' (cServicePath ?call)))"
    by (simp add: rpc_spec_def empty_server_def request_of_def)
  have "pools_ok demo_env (set (table_types (serviceMap empty_server))) (argsReplyPools demo_pools)"
    by (simp add: pools_ok_def demo_env_def)
  then show ?thesis
    using server_error_becomes_timeout [OF demo_start sq(2) call, of NewMessage 0 Background demo_env empty_server
        "cannot_find ''service'' (cServicePath ?call)" demo_pools halves] size err demo_extract
    by (auto simp: sq demo_client_env_def compressors_ok_def demo_pools_def pool_ok_def delivers_def halves_def demo_called_names sent_md_def)
qed

end
