(* ===== verification/KeepaliveLoop.thy ===== *)
theory KeepaliveLoop
  imports EndToEnd
begin

text \<open>
  The goroutine \<open>keepalive\<close> of \<^verbatim>\<open>client/rpcclient.go\<close> as a loop, and what a failed heartbeat does to the client for good: the
  status is \<open>ConnClose\<close> from then on, so nothing completes the calls that wait for a response, and nothing closes the
  channel that would end the goroutine.
\<close>

section \<open>The loop\<close>

text \<open>
  A round: what the other goroutines do to the client before the timer fires, the time then, and the heartbeat. The result
  is whether the goroutine has ended, the timer's new durations, and the client. Where the timer and \<^verbatim>\<open>doneChan\<close> are both
  ready the \<^verbatim>\<open>select\<close> may take either; here it ends.
\<close>

type_synonym 'x ka_round = "('x RPCClient \<Rightarrow> 'x RPCClient) \<times> int \<times> ('x RPCClient \<Rightarrow> goerr option \<times> 'x RPCClient)"

fun keepalive_loop :: "'x ka_round list \<Rightarrow> 'x RPCClient \<Rightarrow> bool \<times> int list \<times> 'x RPCClient" where
  "keepalive_loop [] client = (False, [], client)"
| "keepalive_loop ((others, now, hb) # rounds) client =
     (let client = others client in
      if doneClosed client then (True, [], client)
      else (case keepalive_round now hb client of
          (nextKaInterval, client) \<Rightarrow> (case keepalive_loop rounds client of
            (ended, resets, client) \<Rightarrow> (ended, nextKaInterval # resets, client))))"

section \<open>The abandoned client\<close>

definition abandoned :: "'x RPCClient \<Rightarrow> bool" where
  "abandoned client \<longleftrightarrow> status client = ConnClose \<and> suicide client \<and> connClosed client \<and> \<not> doneClosed client \<and>
     phase client \<noteq> Reconnecting"

text \<open>While the client reconnects its status is not \<open>ConnAvailable\<close>.\<close>

definition reconnecting_inv :: "'x RPCClient \<Rightarrow> bool" where
  "reconnecting_inv client \<longleftrightarrow> (phase client = Reconnecting \<longrightarrow> status client \<noteq> ConnAvailable)"

definition life :: "'x RPCClient \<Rightarrow> ConnStatus \<times> bool \<times> bool \<times> phase" where
  "life client = (status client, suicide client, connClosed client, phase client)"

lemma life_invs: "life client' = life client \<Longrightarrow> reconnecting_inv client' = reconnecting_inv client"
  by (simp add: life_def reconnecting_inv_def)

lemma new_call_life:
  "new_call c sm args reply doneCh options client = Some (i, client1) \<Longrightarrow>
   life client1 = life client \<and> insend client1 = insend client"
  by (auto simp: new_call_def Let_def life_def split: option.splits if_splits prod.splits)

lemma Go_life: "Go now c sm args reply doneCh options client = Some (i, client') \<Longrightarrow> life client' = life client"
  by (auto simp: Go_def send_register_def Let_def life_def dest!: new_call_life split: option.splits if_splits)

lemma drop_pending_life: "life (drop_pending sq e client) = life client"
  by (simp add: drop_pending_def Let_def life_def split: option.splits)

lemma send_transmit_life: "send_transmit env pooled we i sq client = Some client' \<Longrightarrow> life client' = life client"
  by (auto simp: send_transmit_def Let_def drop_pending_life life_def drop_pending_def split: option.splits sum.splits)

lemma deliver_life: "deliver env m i client = Some client' \<Longrightarrow> life client' = life client"
  by (auto simp: deliver_def Let_def life_def split: option.splits prod.splits)

lemma handle_response_life: "handle_response env m client = Some client' \<Longrightarrow> life client' = life client"
  by (auto simp: handle_response_def Let_def dest!: deliver_life split: if_splits option.splits) (auto simp: life_def)

lemma call_await_life: "call_await False d client = Some (err, client') \<Longrightarrow> life client' = life client"
  by (auto simp: call_await_def life_def split: prod.splits list.splits)

lemma close_status: "Close order client = Some client' \<Longrightarrow> status client' = ConnClose"
  using Close_available [of order client client'] by (cases "status client = ConnClose") (auto simp: Close_def close_def)

lemma reconnecting_step:
  assumes "client_step env client client'" "reconnecting_inv client"
  shows "reconnecting_inv client'"
  using assms(1)
proof (cases rule: client_step.cases)
  case (go doneCh now c sm args reply options i)
  then show ?thesis using assms(2) Go_life life_invs by blast
next
  case (transmit i sq pooled we)
  then show ?thesis using assms(2) send_transmit_life life_invs by blast
next
  case (response m s)
  then have "life client' = life client" using handle_response_life [OF response(5)] by (simp add: life_def)
  then show ?thesis using assms(2) life_invs by blast
next
  case (closed order)
  then show ?thesis using close_status [OF closed(3)] by (simp add: reconnecting_inv_def)
next
  case (await d err)
  then show ?thesis using assms(2) call_await_life life_invs by blast
qed (use assms(2) in \<open>auto simp: reconnecting_inv_def read_failed_def reconnect_begin_def reconnected_def input_exit_def mutex_Lock_def
    keepalive_fail_def split: prod.splits option.splits if_splits\<close>)

lemma reconnecting_reach: "client_reach env client client' \<Longrightarrow> reconnecting_inv client \<Longrightarrow> reconnecting_inv client'"
  by (induction rule: client_reach.induct) (auto intro: reconnecting_step)

text \<open>The end of \<open>input\<close> in a client with the status \<open>ConnClose\<close>.\<close>

lemma input_exit_closed:
  "input_exit order err client = Some client' \<Longrightarrow> status client = ConnClose \<Longrightarrow> client' = client\<lparr>mutex := False, phase := Exited\<rparr>"
  using input_exit_cases by fastforce

text \<open>A call that has been sent and waits, in a client with the status \<open>ConnClose\<close>.\<close>

definition waits :: "u64 \<Rightarrow> nat \<Rightarrow> 'x RPCClient \<Rightarrow> bool" where
  "waits sq i client \<longleftrightarrow> map_of (pending client) sq = Some i \<and> sq \<notin> snd ` set (insend client) \<and> i < length (calls client) \<and>
     i \<notin> set (dones client) \<and> (\<forall>sq'. map_of (pending client) sq' = Some i \<longrightarrow> sq' = sq)"

lemma waits_fields:
  "waits sq i client \<Longrightarrow> pending client' = pending client \<Longrightarrow> set (insend client') \<subseteq> set (insend client) \<Longrightarrow>
   length (calls client) \<le> length (calls client') \<Longrightarrow> i \<notin> set (dones client') \<Longrightarrow> waits sq i client'"
  by (auto simp: waits_def)

lemma waits_Go:
  assumes "Go now c sm args reply doneCh options client = Some (j, client')" "status client = ConnClose" "waits sq i client"
  shows "waits sq i client'"
proof -
  obtain client1 where n: "new_call c sm args reply doneCh options client = Some (j, client1)"
    "client' = send_register now j client1"
    using assms(1) by (auto simp: Go_def split: option.splits)
  note s = new_call_same [OF n(1)] new_call_life [OF n(1)]
  have "client' = fail_call ErrShutdown j client1" using s(2) assms(2) n(2) by (simp add: send_register_def life_def)
  then show ?thesis using s assms(3) by (intro waits_fields [OF assms(3)]) (auto simp: waits_def)
qed

lemma waits_drop:
  assumes w: "waits sq i client" and ne: "sq' \<noteq> sq"
  shows "waits sq i (drop_pending sq' e client)"
proof -
  have "waits sq i (client\<lparr>pending := AList.delete sq' (pending client)\<rparr>)"
    using w ne by (auto simp: waits_def delete_conv' split: if_splits)
  moreover have "j \<noteq> i" if "map_of (pending client) sq' = Some j" for j using that w ne by (auto simp: waits_def)
  ultimately show ?thesis by (auto simp: drop_pending_def Let_def waits_def split: option.splits)
qed

lemma waits_transmit:
  assumes "send_transmit env pooled we j sq' client = Some client'" "(j, sq') \<in> set (insend client)" "waits sq i client"
  shows "waits sq i client'"
proof -
  obtain call res where cr: "createRequest env pooled (calls client ! j) sq' = Some (call, res)"
    using assms(1) by (auto simp: send_transmit_def Let_def split: option.splits)
  let ?client = "client\<lparr>insend := remove1 (j, sq') (insend client), calls := (calls client)[j := call]\<rparr>"
  have w: "waits sq i ?client"
    by (rule waits_fields [OF assms(3)]) (use assms(3) in \<open>simp_all add: waits_def set_remove1_subset\<close>)
  have "sq' \<in> snd ` set (insend client)" using imageI [OF assms(2), of snd] by simp
  then have ne: "sq' \<noteq> sq" using assms(3) unfolding waits_def by blast
  have "(\<exists>out. client' = ?client\<lparr>outbox := out\<rparr>) \<or> (\<exists>e. client' = drop_pending sq' e ?client)"
    using assms(1) cr by (auto simp: send_transmit_def Let_def split: sum.splits option.splits)
  then show ?thesis
  proof (elim disjE exE)
    fix e assume "client' = drop_pending sq' e ?client"
    then show ?thesis using waits_drop [OF w ne] by simp
  qed (use w in \<open>simp add: waits_def\<close>)
qed

lemma abandoned_step:
  assumes "client_step env client client'" "abandoned client"
  shows "abandoned client' \<and> (waits sq i client \<longrightarrow> waits sq i client')"
  using assms(1)
proof (cases rule: client_step.cases)
  case (go doneCh now c sm args reply options j)
  then show ?thesis using assms(2) Go_life [OF go(3)] doneClosed_Go [OF go(3)] waits_Go [OF go(3), of sq i]
    by (auto simp: abandoned_def life_def)
next
  case (transmit j sq' pooled we)
  then show ?thesis
    using assms(2) send_transmit_life [OF transmit(4)] send_transmit_doneClosed [OF transmit(4)] waits_transmit [OF transmit(4,2), of sq i]
    by (auto simp: abandoned_def life_def)
next
  case (closed order)
  then show ?thesis using assms(2) by (simp add: Close_def close_def abandoned_def)
next
  case (await d err)
  then obtain cs where "client' = client\<lparr>chans := cs\<rparr>"
    by (auto simp: call_await_def split: prod.splits list.splits)
  then show ?thesis using assms(2) by (simp add: abandoned_def waits_def)
next
  case (leave client1)
  then have "client' = client\<lparr>mutex := True, phase := Holding\<rparr>" by (auto simp: mutex_Lock_def split: if_splits)
  then show ?thesis using assms(2) by (simp add: abandoned_def waits_def)
next
  case (exit order err)
  then show ?thesis using assms(2) input_exit_closed [OF exit(3)] by (simp add: abandoned_def waits_def)
qed (use assms(2) in \<open>auto simp: abandoned_def read_failed_def keepalive_fail_def waits_def\<close>)

lemma abandoned_reach:
  "client_reach env client client' \<Longrightarrow> abandoned client \<Longrightarrow> abandoned client' \<and> (waits sq i client \<longrightarrow> waits sq i client')"
proof (induction rule: client_reach.induct)
  case (step client client1 client2)
  then show ?case using abandoned_step [OF step.hyps(2), of sq i] by blast
qed simp

section \<open>What is left after a failed heartbeat\<close>

text \<open>The rounds of a keepalive goroutine whose client changes by steps of the other goroutines only.\<close>

definition others_step :: "'x client_env \<Rightarrow> 'x ka_round list \<Rightarrow> bool" where
  "others_step env rounds \<longleftrightarrow> (\<forall>(others, now, hb) \<in> set rounds. \<forall>c. client_reach env c (others c))"

lemma abandoned_round: "abandoned client \<Longrightarrow> keepalive_round now hb client = (heartBeatInterval client, client)"
  by (simp add: abandoned_def keepalive_round_def)

lemma keepalive_never_ends:
  "others_step env rounds \<Longrightarrow> abandoned client \<Longrightarrow> \<not> fst (keepalive_loop rounds client)"
proof (induction rounds client rule: keepalive_loop.induct)
  case (2 others now hb rounds client)
  have reach: "client_reach env client (others client)" using 2(2) by (auto simp: others_step_def)
  have a: "abandoned (others client)" using abandoned_reach [OF reach 2(3)] by blast
  have "others_step env rounds" using 2(2) by (auto simp: others_step_def)
  then have "\<not> fst (keepalive_loop rounds (others client))"
    using 2(1) [OF refl] a by (auto simp: abandoned_round abandoned_def)
  then show ?case using a
    by (cases "keepalive_loop rounds (others client)") (simp add: abandoned_round abandoned_def Let_def)
qed simp

lemma sent_call_waits:
  assumes "client_reach env (make_client conf c) client" "\<not> doneClosed client"
    and "map_of (pending client) sq = Some i" "sq \<notin> snd ` set (insend client)"
  shows "waits sq i client"
proof -
  have "once (make_client conf c)" by (simp add: once_def once_ids_def make_client_def)
  then have o: "once client" using client_reach_once [OF assms(1)] assms(2) by simp
  then have d: "distinct (map snd (pending client))" "\<forall>(k, j) \<in> set (pending client). j < length (calls client) \<and> j \<notin> set (dones client)"
    by (simp_all add: once_def once_ids_def)
  have k: "(sq, i) \<in> set (pending client)" using map_of_SomeD [OF assms(3)] .
  then have "i < length (calls client) \<and> i \<notin> set (dones client)" using d(2) by blast
  moreover have "\<forall>sq'. map_of (pending client) sq' = Some i \<longrightarrow> sq' = sq"
  proof (intro allI impI)
    fix sq' assume "map_of (pending client) sq' = Some i"
    from snd_unique [OF d(1) map_of_SomeD [OF this] k] show "sq' = sq" .
  qed
  ultimately show ?thesis unfolding waits_def using assms(3,4) by blast
qed

text \<open>C35. A failed heartbeat strands the calls that wait: it sets the status to \<open>ConnClose\<close> without completing them, so from
  then on, whatever the goroutines and callers do, \<open>Close\<close> included, a call that was sent and has no response yet stays in
  the table and is never signalled; and the goroutine that sent the heartbeat never ends.\<close>

theorem failed_heartbeat_strands_calls:
  assumes reach: "client_reach env (make_client conf c) client" and avail: "status client = ConnAvailable" "\<not> doneClosed client"
    and sent: "map_of (pending client) sq = Some i" "sq \<notin> snd ` set (insend client)"
    and later: "client_reach env (keepalive_fail client) client'"
  shows "status client' = ConnClose \<and> map_of (pending client') sq = Some i \<and> i \<notin> set (dones client') \<and>
    Close order client' = Some client' \<and> (\<forall>rounds. others_step env rounds \<longrightarrow> \<not> fst (keepalive_loop rounds client'))"
proof -
  have "reconnecting_inv client"
    using reconnecting_reach [OF reach] by (simp add: reconnecting_inv_def make_client_def)
  then have "abandoned (keepalive_fail client)" using avail by (simp add: abandoned_def keepalive_fail_def reconnecting_inv_def)
  moreover have "waits sq i (keepalive_fail client)"
    using sent_call_waits [OF reach avail(2) sent] avail(1) by (simp add: keepalive_fail_def waits_def)
  ultimately have "abandoned client'" "waits sq i client'" using abandoned_reach [OF later] by blast+
  then show ?thesis using keepalive_never_ends by (auto simp: abandoned_def waits_def Close_def close_def)
qed

theorem failed_heartbeat_strands_calls_witness:
  "\<exists>client. client_reach demo_client_env (make_client demo_conf \<lparr>pieces = [], cend = EOF\<rparr>) client \<and>
    map_of (pending (keepalive_fail client)) 1 = Some 0 \<and> 0 \<notin> set (dones (keepalive_fail client)) \<and>
    \<not> fst (keepalive_loop [(id, 7, \<lambda>c. (None, c)), (id, 12, \<lambda>c. (None, c))] (keepalive_fail client))"
proof -
  have h: "hdr_wf (mheader NewMessage)" by (simp add: NewMessage_def new_header_fields)
  have "ce_codecs demo_client_env JSON = Some JSONCodec" "codec_Encode (ce_libs demo_client_env) JSONCodec (GoObj [6, 7]) = Some ([6, 7], None)"
    by (simp_all add: demo_client_env_def codec_Encode_def JSONCodec_Encode_def demo_libs_def demo_marshal_def Codecs_def)
  then obtain c where send: "send_transmit demo_client_env NewMessage None 0 1 demo_called = Some c"
    and c: "insend c = []" "pending c = [(1, 0)]" "status c = ConnAvailable" "\<not> doneClosed c"
    using client_sends [of 0 demo_called NewMessage demo_client_env JSONCodec "[6, 7]" 1] h
    by (simp add: demo_called_fields JSON_mask)
  have "client_reach demo_client_env demo_client demo_called"
    using demo_call_step client_reach.init client_reach.step by blast
  moreover have "client_step demo_client_env demo_called c"
    using send demo_called_fields by (intro client_step.transmit [of _ _ 0 1 NewMessage _ None]) auto
  ultimately have r: "client_reach demo_client_env (make_client demo_conf \<lparr>pieces = [], cend = EOF\<rparr>) c"
    using client_reach.step unfolding demo_client_def by blast
  have o: "others_step demo_client_env [(id, 7, \<lambda>c. (None, c)), (id, 12, \<lambda>c. (None, c))]"
    by (simp add: others_step_def client_reach.init)
  have "map_of (pending c) 1 = Some 0" "1 \<notin> snd ` set (insend c)" using c by simp_all
  from failed_heartbeat_strands_calls [OF r c(3,4) this client_reach.init] o r show ?thesis by blast
qed

end
