(* ===== verification/HeartbeatCall.thy ===== *)
theory HeartbeatCall
  imports KeepaliveLoop
begin

text \<open>
  A heartbeat from \<open>keepalive\<close> over the wire and back: the client sends a request without names and payload, the server's
  reading loop answers it itself (\<^verbatim>\<open>server/easyconn.go\<close>), and the client signals the call. So an idle connection to a server
  that runs is kept.
\<close>

section \<open>The heartbeat call\<close>

definition heartbeat_Call ::
  "'x client_env \<Rightarrow> compressors \<Rightarrow> int \<Rightarrow> message \<Rightarrow> nat option \<Rightarrow> (bytes \<Rightarrow> conn) \<Rightarrow> (bytes \<Rightarrow> conn) \<Rightarrow> 'x pools \<Rightarrow> int
     \<Rightarrow> 'x RPCClient \<Rightarrow> (goerr option \<times> 'x RPCClient) option" where
  "heartbeat_Call cenv comps maxlen pooled ch up down w now client = do {
     (i, client1) \<leftarrow> call_start now Background '''' GoNil GoNil heartbeat_options client;
     client2 \<leftarrow> send_transmit cenv pooled None i (cseq client1) client1;
     client3 \<leftarrow> (case drop (length (outbox client)) (outbox client2) of
         [wire] \<Rightarrow> (case written (serve_round comps maxlen ch (newEasyConn (up wire) w)) of
             [bs] \<Rightarrow> (case readResponse cenv (resp client2) (down bs) of
                 Some (m, None, c) \<Rightarrow> handle_response cenv m client2
               | _ \<Rightarrow> None)
           | _ \<Rightarrow> None)
       | _ \<Rightarrow> None);
     call_await False (length (chans client)) client3
   }"

text \<open>\<open>sendHeartBeat\<close> when its first attempt is this call; one that never returns runs into the timeout.\<close>

definition answered_heartbeat ::
  "'x client_env \<Rightarrow> compressors \<Rightarrow> int \<Rightarrow> message \<Rightarrow> nat option \<Rightarrow> (bytes \<Rightarrow> conn) \<Rightarrow> (bytes \<Rightarrow> conn) \<Rightarrow> 'x pools \<Rightarrow> int
     \<Rightarrow> 'x RPCClient \<Rightarrow> goerr option \<times> 'x RPCClient" where
  "answered_heartbeat cenv comps maxlen pooled ch up down w now client =
    (case heartbeat_Call cenv comps maxlen pooled ch up down w now client of
       None \<Rightarrow> (fst (sendHeartBeat (\<lambda>_. Some ErrTimeOut) client), client)
     | Some (err, client) \<Rightarrow> (fst (sendHeartBeat (\<lambda>_. err) client), client))"

definition heartbeat_of :: "'x RPCClient \<Rightarrow> 'x Call" where
  "heartbeat_of client = \<lparr>cCtx = Background, cServicePath = servicePath client, cServiceMethod = '''', cArgs = GoNil, cReply = GoNil,
     cError = None, cDone = length (chans client), cMetadata = None, cHeartBeat = True, cCompressType = NoCompress,
     cSerializeType = SerializeNone, cSeq = 0, cAfterCalls = []\<rparr>"

lemma heartbeat_start:
  assumes "status client = ConnAvailable"
  shows "call_start now Background '''' GoNil GoNil heartbeat_options client = Some (length (calls client),
    client\<lparr>chans := chans client @ [(1, [])], calls := calls client @ [heartbeat_of client], cseq := cseq client + 1,
      pending := AList.update (cseq client + 1) (length (calls client)) (pending client), lastSend := now,
      insend := insend client @ [(length (calls client), cseq client + 1)]\<rparr>)"
  using assms by (simp add: call_start_def Go_def new_call_def send_register_def heartbeat_options_def add_option_def
      SetCallSerializeType_def SetCallHeartBeat_def apply_option_simps heartbeat_of_def nth_append Let_def del: protocol_consts)

text \<open>Without serialization the request keeps the type of a clean message, which is none.\<close>

lemma plain_type:
  assumes "hdr_wf h" "SerializeType h = SerializeNone"
  shows "SetSerializeType SerializeNone h = h"
  using serialize_field.put_get [OF assms(1)] assms(2) by simp

lemma new_header_types: "SerializeType new_header = SerializeNone" "CompressType new_header = NoCompress"
  by code_simp+

lemma createRequest_heartbeat:
  assumes "clean pooled"
  shows "createRequest env pooled (heartbeat_of client) sq =
    Some ((heartbeat_of client)\<lparr>cSeq := sq\<rparr>, Inr (request_of pooled (heartbeat_of client) sq []))"
proof -
  have h: "mheader pooled = new_header" "Payload pooled = []" "Metadata pooled = None" using assms by (simp_all add: clean_def)
  have "SetSerializeType SerializeNone (SetSeq sq (SetHeartbeat True new_header)) = SetSeq sq (SetHeartbeat True new_header)"
    by (rule plain_type) (use new_header_types in \<open>simp_all add: hdr del: protocol_consts\<close>)
  then show ?thesis
    by (simp add: createRequest_def request_of_def request_header_def heartbeat_of_def h extractMdFromClientCtx_def
        Background_def Let_def del: protocol_consts)
qed

lemma heartbeat_sent:
  assumes "clean pooled" "calls client ! i = heartbeat_of client0"
  shows "send_transmit env pooled None i sq client = Some (client\<lparr>insend := remove1 (i, sq) (insend client),
    calls := (calls client)[i := (heartbeat_of client0)\<lparr>cSeq := sq\<rparr>],
    outbox := outbox client @ [snd (Encode (ce_comps env) (request_of pooled (heartbeat_of client0) sq []))]\<rparr>)"
  by (simp add: send_transmit_def Let_def createRequest_heartbeat [OF assms(1)] assms(2))

section \<open>The server answers it\<close>


lemma server_answers_heartbeat:
  assumes p: "clean pooled" and comps: "compressors_ok comps" and w: "pool_ok (msgPool w)"
    and ok: "acceptable maxlen (16 + length (servicePath client))"
    and up: "concat (pieces c) = snd (Encode comps (request_of pooled (heartbeat_of client) sq []))"
  shows "\<exists>m. written (serve_round comps maxlen ch (newEasyConn c w)) = [snd (Encode comps m)] \<and> sendable m \<and>
    IsHeartbeat (mheader m) \<and> Seq (mheader m) = sq \<and> Metadata m = None \<and>
    body_size comps m = 16 + length (servicePath client)"
proof -
  let ?call = "heartbeat_of client"
  have call: "cSerializeType ?call AND mask 4 = cSerializeType ?call" "smap_wf (extractMdFromClientCtx (cCtx ?call))"
    "sent_md ?call = None" "cHeartBeat ?call" "cServicePath ?call = servicePath client" "cServiceMethod ?call = ''''"
    "cCompressType ?call = NoCompress"
    by (simp_all add: heartbeat_of_def extractMdFromClientCtx_def Background_def smap_wf_def sent_md_def)
  obtain t mp where get: "GetPooledMsg ch (msgPool w) = (t, mp)" by fastforce
  then have t: "clean t" using GetPooledMsg_ok [OF w] by auto
  have rc: "CompressType (mheader (request_of pooled ?call sq [])) = NoCompress"
    using p new_header_types by (simp add: request_of_def clean_def request_header_def heartbeat_of_def hdr del: protocol_consts)
  have "body_size comps (request_of pooled ?call sq []) = 16 + length (servicePath client)"
    using plain_body_size [OF rc, of comps] request_of_clean [OF p call(1,2), of sq "[]"] call by (simp add: encodeMetadata_def)
  then have size: "acceptable maxlen (body_size comps (request_of pooled ?call sq []))" using ok by simp
  have "bufio_rest (NewReaderSize c 1024) = snd (Encode comps (request_of pooled ?call sq [])) @ []"
    using up by (simp add: bufio_rest_def NewReaderSize_def)
  from request_arrives [OF p call(1,2) t comps size this, unfolded call(3,5,6)]
  obtain req rd where req: "Decode bufio_readfull comps maxlen t (NewReaderSize c 1024) = Some (req, None, rd)"
    "ServicePath req = servicePath client" "ServiceMethod req = ''''" "Payload req = []" "Seq (mheader req) = sq"
    "IsHeartbeat (mheader req) = cHeartBeat ?call" "Metadata req = None"
    "mheader req = mheader (fst (Encode comps (request_of pooled ?call sq [])))"
    by blast
  have s: "sendable req" using bufio.Decode_ok [OF req(1)] t by (simp add: clean_def md_wf_def)
  then have h: "hdr_wf (mheader req)" by (rule sendableD)
  let ?m = "req\<lparr>mheader := SetMessageType Response (mheader req)\<rparr>"
  have m: "sendable ?m" "writeResponse comps ?m = Encode comps ?m"
    using s h by (auto simp: sendable_def msg_wf_def hdr intro: writeResponse_Encode)
  have "CompressType (mheader req) = NoCompress" using req(8) plain_header [OF rc, of comps] rc by simp
  then have "CompressType (mheader ?m) = NoCompress" using h by (simp add: hdr del: protocol_consts)
  then have "body_size comps ?m = 16 + length (servicePath client)"
    using plain_body_size [of ?m comps] req by (simp add: encodeMetadata_def)
  moreover have "written (serve_round comps maxlen ch (newEasyConn c w)) = [snd (Encode comps ?m)]"
    using req(1,6) call(4) m(2) by (simp add: serve_round_def readRequest_def newEasyConn_def get Let_def case_prod_beta)
  ultimately show ?thesis using m(1) req(2-7) call(4) h by (intro exI [of _ ?m]) (simp add: hdr)
qed

section \<open>The client is told\<close>

lemma call_done_rest:
  "status (call_done i c) = status c" "servicePath (call_done i c) = servicePath c" "resp (call_done i c) = resp c"
  "lastSend (call_done i c) = lastSend c" "heartBeatInterval (call_done i c) = heartBeatInterval c" "cseq (call_done i c) = cseq c"
  by (simp_all add: call_done_def Let_def split: prod.splits)

lemma heartbeat_returns:
  assumes avail: "status client = ConnAvailable" and rs: "receiver (resp client)" and p: "clean pooled"
    and comps: "compressors_ok (ce_comps cenv)" and w: "pool_ok (msgPool w)" and net: "delivers up" "delivers down"
    and ok: "acceptable maxlen (16 + length (servicePath client))" "acceptable (ce_maxlen cenv) (16 + length (servicePath client))"
  shows "\<exists>client'. heartbeat_Call cenv (ce_comps cenv) maxlen pooled ch up down w now client = Some (None, client') \<and>
    status client' = ConnAvailable \<and> lastSend client' = now \<and> receiver (resp client') \<and>
    servicePath client' = servicePath client \<and> heartBeatInterval client' = heartBeatInterval client \<and>
    doneClosed client' = doneClosed client \<and> dones client' = dones client @ [length (calls client)] \<and>
    pending client' = AList.delete (cseq client + 1) (pending client) \<and>
    length (calls client') = Suc (length (calls client)) \<and>
    (\<forall>j < length (calls client). calls client' ! j = calls client ! j)"
proof -
  let ?comps = "ce_comps cenv" and ?i = "length (calls client)" and ?sq = "cseq client + 1"
  let ?wire = "snd (Encode ?comps (request_of pooled (heartbeat_of client) ?sq []))"
  define client1 where "client1 = client\<lparr>chans := chans client @ [(1, [])], calls := calls client @ [heartbeat_of client],
    cseq := ?sq, pending := AList.update ?sq ?i (pending client), lastSend := now, insend := insend client @ [(?i, ?sq)]\<rparr>"
  define client2 where "client2 = client1\<lparr>insend := remove1 (?i, ?sq) (insend client1),
    calls := (calls client1)[?i := (heartbeat_of client)\<lparr>cSeq := ?sq\<rparr>], outbox := outbox client1 @ [?wire]\<rparr>"
  have start: "call_start now Background '''' GoNil GoNil heartbeat_options client = Some (?i, client1)"
    unfolding client1_def by (rule heartbeat_start [OF avail])
  have send: "send_transmit cenv pooled None ?i ?sq client1 = Some client2"
    unfolding client2_def by (rule heartbeat_sent [OF p]) (simp add: client1_def)
  obtain m where m: "written (serve_round ?comps maxlen ch (newEasyConn (up ?wire) w)) = [snd (Encode ?comps m)]" "sendable m"
    "IsHeartbeat (mheader m)" "Seq (mheader m) = ?sq" "Metadata m = None" "body_size ?comps m = 16 + length (servicePath client)"
    using server_answers_heartbeat [OF p comps w ok(1), of "up ?wire" ?sq] net(1) by (auto simp: delivers_def)
  have "concat (pieces (down (snd (Encode ?comps m)))) = snd (Encode ?comps m)" using net(2) by (simp add: delivers_def)
  from client_reads [OF m(2) rs comps _ this] m(6) ok(2)
  obtain m' s where read: "readResponse cenv (resp client) (down (snd (Encode ?comps m))) = Some (m', None, s)"
    "received ?comps m (resp client) m'" "receiver m'" by auto
  have m': "IsHeartbeat (mheader m')" "Seq (mheader m') = ?sq"
    using read(2) encode_header_fields [OF sendableD(1) [OF m(2)], of ?comps] m(3,4) by (simp_all add: received_def)
  define client3 where "client3 = call_done ?i (client2\<lparr>pending := AList.delete ?sq (pending client2), resp := m'\<rparr>)"
  have f: "pending client2 = AList.update ?sq ?i (pending client)" "resp client2 = resp client" "outbox client2 = outbox client @ [?wire]"
    "cseq client1 = ?sq" "chans client2 = chans client @ [(1, [])]" "calls client2 ! ?i = (heartbeat_of client)\<lparr>cSeq := ?sq\<rparr>"
    "status client2 = ConnAvailable" "lastSend client2 = now" "servicePath client2 = servicePath client" "dones client2 = dones client"
    "heartBeatInterval client2 = heartBeatInterval client" "doneClosed client2 = doneClosed client"
    "\<forall>j < ?i. calls client2 ! j = calls client ! j" "length (calls client2) = Suc ?i"
    by (simp_all add: client2_def client1_def avail nth_append)
  have handle: "handle_response cenv m' client2 = Some client3"
    using m' f(1) by (simp add: handle_response_def client3_def update_conv' Let_def)
  have c3: "chans client3 = chans client @ [(1, [?i])]" "cError (calls client3 ! ?i) = None"
    using f(5,6) by (simp_all add: client3_def call_done_chans queue_signal_def heartbeat_of_def nth_append list_update_append)
  have pend: "pending client3 = AList.delete ?sq (pending client)" using f(1) by (simp add: client3_def delete_update_same)
  have "call_await False (length (chans client)) client3 =
      Some (None, client3\<lparr>chans := (chans client3)[length (chans client) := (1, [])]\<rparr>)"
    using c3 by (simp add: call_await_def)
  moreover have "heartbeat_Call cenv ?comps maxlen pooled ch up down w now client =
      call_await False (length (chans client)) client3"
    using start send f(2-4) m(1) read(1) handle by (simp add: heartbeat_Call_def)
  ultimately show ?thesis using f(7-14) pend read(3) by (simp add: client3_def call_done_rest)
qed

section \<open>An idle connection\<close>

lemma sendHeartBeat_succeeds: "fst (sendHeartBeat (\<lambda>_. None) client) = None"
proof -
  obtain n where "heartbeat_tries client = Suc n" by (cases "heartbeat_tries client") (simp_all add: heartbeat_tries_def split: if_splits)
  then show ?thesis by (simp add: sendHeartBeat_def)
qed

text \<open>
  The rounds of \<open>keepalive\<close> on a connection that nobody uses: the timer fires every \<open>interval\<close> seconds from \<open>t\<close> on, and each
  heartbeat has a network and pools of its own.
\<close>

type_synonym 'x hb_net = "message \<times> nat option \<times> (bytes \<Rightarrow> conn) \<times> (bytes \<Rightarrow> conn) \<times> 'x pools"

fun idle_rounds :: "'x client_env \<Rightarrow> compressors \<Rightarrow> int \<Rightarrow> int \<Rightarrow> int \<Rightarrow> 'x hb_net list \<Rightarrow> 'x ka_round list" where
  "idle_rounds cenv comps maxlen interval t [] = []"
| "idle_rounds cenv comps maxlen interval t ((pooled, ch, up, down, w) # xs) =
     (id, t, answered_heartbeat cenv comps maxlen pooled ch up down w t) # idle_rounds cenv comps maxlen interval (t + interval) xs"

definition hb_net_ok :: "'x hb_net \<Rightarrow> bool" where
  "hb_net_ok x = (case x of (pooled, ch, up, down, w) \<Rightarrow> clean pooled \<and> delivers up \<and> delivers down \<and> pool_ok (msgPool w))"

lemma idle_loop:
  assumes "compressors_ok (ce_comps cenv)" "\<forall>x \<in> set xs. hb_net_ok x" "0 < interval"
    and "acceptable maxlen (16 + length sp)" "acceptable (ce_maxlen cenv) (16 + length sp)"
  shows "status client = ConnAvailable \<Longrightarrow> \<not> doneClosed client \<Longrightarrow> receiver (resp client) \<Longrightarrow> servicePath client = sp \<Longrightarrow>
    heartBeatInterval client = interval \<Longrightarrow> lastSend client + interval \<le> t \<Longrightarrow>
    \<exists>client'. keepalive_loop (idle_rounds cenv (ce_comps cenv) maxlen interval t xs) client = (False, replicate (length xs) interval, client') \<and>
      status client' = ConnAvailable \<and> \<not> doneClosed client' \<and> length (dones client') = length (dones client) + length xs \<and>
      (xs \<noteq> [] \<longrightarrow> lastSend client' = t + interval * int (length xs - 1)) \<and>
      (\<forall>j < length (calls client). calls client' ! j = calls client ! j)"
  using assms(2)
proof (induction xs arbitrary: t client)
  case (Cons x xs)
  obtain pooled ch up down w where x: "x = (pooled, ch, up, down, w)" by (cases x)
  have ok: "clean pooled" "delivers up" "delivers down" "pool_ok (msgPool w)" using Cons.prems(7) by (simp_all add: x hb_net_ok_def)
  obtain c1 where c1: "heartbeat_Call cenv (ce_comps cenv) maxlen pooled ch up down w t client = Some (None, c1)"
    "status c1 = ConnAvailable" "lastSend c1 = t" "receiver (resp c1)" "servicePath c1 = sp" "heartBeatInterval c1 = interval"
    "\<not> doneClosed c1" "dones c1 = dones client @ [length (calls client)]" "\<forall>j < length (calls client). calls c1 ! j = calls client ! j"
    "length (calls client) \<le> length (calls c1)"
    using heartbeat_returns [OF Cons.prems(1,3) ok(1) assms(1) ok(4,2,3), of maxlen ch t] assms(4,5) Cons.prems by auto
  have "\<forall>y \<in> set xs. hb_net_ok y" using Cons.prems(7) by simp
  from Cons.IH [OF c1(2,7,4,5,6) _ this, of "t + interval"] c1(3)
  obtain c2 where c2: "keepalive_loop (idle_rounds cenv (ce_comps cenv) maxlen interval (t + interval) xs) c1 =
      (False, replicate (length xs) interval, c2)" "status c2 = ConnAvailable" "\<not> doneClosed c2"
    "length (dones c2) = length (dones c1) + length xs"
    "xs \<noteq> [] \<longrightarrow> lastSend c2 = t + interval + interval * int (length xs - 1)"
    "\<forall>j < length (calls c1). calls c2 ! j = calls c1 ! j" by auto
  have "answered_heartbeat cenv (ce_comps cenv) maxlen pooled ch up down w t client = (None, c1)"
    using c1(1) by (simp add: answered_heartbeat_def sendHeartBeat_succeeds)
  then have "keepalive_round t (answered_heartbeat cenv (ce_comps cenv) maxlen pooled ch up down w t) client = (interval, c1)"
    using Cons.prems(1,5,6) by (simp add: keepalive_round_def)
  then have k: "keepalive_loop (idle_rounds cenv (ce_comps cenv) maxlen interval t (x # xs)) client =
      (False, replicate (length (x # xs)) interval, c2)"
    using c2(1) Cons.prems(2) by (simp add: x)
  have "lastSend c2 = t + interval * int (length xs)"
  proof (cases "xs = []")
    case True
    then show ?thesis using c2(1) c1(3) by simp
  next
    case False
    then have "interval + interval * int (length xs - 1) = interval * int (length xs)"
      by (cases xs) (simp_all add: algebra_simps)
    then show ?thesis using c2(5) False by simp
  qed
  then show ?case using k c2(2-4,6) c1(8-10) by simp
qed simp

text \<open>C36. A healthy connection is kept: while nobody uses it the timer fires every interval, each time the client sends one
  heartbeat, the server's reading loop answers it, the client signals that call without an error, and after any number of
  rounds the connection is available, the goroutine still runs and no other call is touched.\<close>

theorem idle_connection_kept:
  assumes avail: "status client = ConnAvailable" "\<not> doneClosed client" "receiver (resp client)"
    and timer: "0 < heartBeatInterval client" "lastSend client + heartBeatInterval client \<le> t"
    and comps: "compressors_ok (ce_comps cenv)" and net: "\<forall>x \<in> set xs. hb_net_ok x"
    and sizes: "acceptable maxlen (16 + length (servicePath client))" "acceptable (ce_maxlen cenv) (16 + length (servicePath client))"
  shows "\<exists>client'. keepalive_loop (idle_rounds cenv (ce_comps cenv) maxlen (heartBeatInterval client) t xs) client =
      (False, replicate (length xs) (heartBeatInterval client), client') \<and>
    status client' = ConnAvailable \<and> \<not> doneClosed client' \<and> length (dones client') = length (dones client) + length xs \<and>
    (xs \<noteq> [] \<longrightarrow> lastSend client' = t + heartBeatInterval client * int (length xs - 1)) \<and>
    (\<forall>j < length (calls client). calls client' ! j = calls client ! j)"
  by (rule idle_loop [OF comps net timer(1) sizes avail refl refl timer(2)])

theorem idle_connection_kept_witness:
  "\<exists>client'. keepalive_loop (idle_rounds demo_client_env Map.empty 0 5 9 (replicate 3 (NewMessage, None, halves, halves, demo_pools))) demo_client =
    (False, [5, 5, 5], client') \<and> status client' = ConnAvailable \<and> lastSend client' = 19"
proof -
  have c: "status demo_client = ConnAvailable" "\<not> doneClosed demo_client" "receiver (resp demo_client)" "heartBeatInterval demo_client = 5"
    "lastSend demo_client = 0" "servicePath demo_client = ''arith''"
    by (simp_all add: demo_client_def make_client_def defHeatBeatInterval_def demo_conf_def ToLower_def lower_char_def char_of_def bit_0)
  show ?thesis
    using idle_connection_kept [OF c(1-3), of 9 demo_client_env "replicate 3 (NewMessage, None, halves, halves, demo_pools)" 0] c(4-6)
    by (auto simp: demo_client_env_def compressors_ok_def hb_net_ok_def delivers_def halves_def demo_pools_def pool_ok_def acceptable_def
        numeral_3_eq_3)
qed

end
