(* ===== verification/RawReply.thy ===== *)
theory RawReply
  imports EndToEnd
begin

text \<open>
  Replies without serialization share memory: \<open>Decode\<close> makes the payload a part of the message's own array, \<open>ByteCodec\<close> stores
  that slice in the caller's variable, and \<open>input\<close> decodes every response into the same message, whose array \<open>Decode\<close> reuses
  when it is large enough. The other theories have the bytes of such a reply at the time it is delivered; here are the
  arrays and what later responses do to them.
\<close>

section \<open>Arrays\<close>

text \<open>
  The arrays that the message of \<open>input\<close> has had, the one in use last, and a slice of one of them. \<open>after_decode\<close> is what decoding
  into \<open>t\<close> with the result \<open>t'\<close> does: \<^verbatim>\<open>cap(m.data) >= totalL\<close> decides whether the array is reused.
\<close>

record raw_slice =
  rArr :: nat
  rLo :: nat
  rHi :: nat

definition deref :: "bytes list \<Rightarrow> raw_slice \<Rightarrow> bytes" where
  "deref arrays s = take (rHi s - rLo s) (drop (rLo s) (arrays ! rArr s))"

definition after_decode :: "message \<Rightarrow> message \<Rightarrow> bytes list \<Rightarrow> bytes list" where
  "after_decode t t' arrays =
    (if slice_cap (mdata t) \<ge> slice_len (mdata t') then arrays[length arrays - 1 := smem (mdata t')]
     else arrays @ [smem (mdata t')])"

text \<open>The payload of an uncompressed message is the end of its array's used part.\<close>

definition payload_slice :: "message \<Rightarrow> bytes list \<Rightarrow> raw_slice" where
  "payload_slice t arrays = \<lparr>rArr = length arrays - 1, rLo = shi (mdata t) - length (Payload t), rHi = shi (mdata t)\<rparr>"

section \<open>Rounds of \<open>input\<close> with raw replies\<close>

text \<open>\<open>rreplies\<close>: what the variable of a call refers to. A round is that of a response without serialization, compression or error.\<close>

record raw_input =
  rresp :: message
  rarrays :: "bytes list"
  rpending :: "(u64 \<times> nat) list"
  rreplies :: "nat \<Rightarrow> raw_slice option"

definition raw_response :: "message \<Rightarrow> bool" where
  "raw_response m \<longleftrightarrow> \<not> IsHeartbeat (mheader m) \<and> checkReplyError m = None \<and> SerializeType (mheader m) = SerializeNone \<and>
     CompressType (mheader m) = NoCompress"

definition raw_round :: "'x client_env \<Rightarrow> raw_input \<Rightarrow> conn \<Rightarrow> (raw_input \<times> conn) option" where
  "raw_round env st c = (case readResponse env (rresp st) c of
      Some (t, None, c) \<Rightarrow>
        (if raw_response t then
           (let sq = Seq (mheader t);
                arrays = after_decode (rresp st) t (rarrays st);
                call = map_of (rpending st) sq;
                st = st\<lparr>rresp := t, rarrays := arrays, rpending := AList.delete sq (rpending st)\<rparr>
            in Some (case call of
                 None \<Rightarrow> st
               | Some i \<Rightarrow> st\<lparr>rreplies := (rreplies st)(i \<mapsto> payload_slice t arrays)\<rparr>, c))
         else None)
    | _ \<Rightarrow> None)"

section \<open>Where the body is\<close>

lemma slice_sub_from_SomeD: "slice_sub_from d n = Some p \<Longrightarrow> p = drop n (slice_bytes d) \<and> n \<le> slice_len d"
  by (auto simp: slice_sub_from_def reslice_from_def slice_bytes_def slice_len_def drop_take add.commute split: if_splits)

lemma decode_payload_none:
  assumes "decode_payload comps m = (m', e)" "CompressType (mheader m') = NoCompress"
  shows "m' = m"
proof -
  have "CompressType (mheader m) = NoCompress" using decode_payload_keeps [OF assms(1)] assms(2) by simp
  then show ?thesis using assms(1) by (simp add: decode_payload_def)
qed

text \<open>The payload is the end of the body.\<close>

lemma decode_fields_mdata:
  "decode_fields comps m d = Some (m', None) \<Longrightarrow> CompressType (mheader m') = NoCompress \<Longrightarrow>
   mdata m' = mdata m \<and> (\<exists>n. Payload m' = drop n (slice_bytes d) \<and> n \<le> slice_len d)"
  by (simp only: decode_fields_def bind_eq_Some_conv Let_def, elim exE conjE,
      simp only: split: if_split_asm prod.split_asm)
    (auto simp: bind_eq_Some_conv simp del: protocol_consts dest!: slice_sub_from_SomeD decode_payload_none)

text \<open>Where a decoded message has its body: in its old array, if that is large enough, or in one that is just as large.\<close>

definition body_at :: "slice \<Rightarrow> bytes \<Rightarrow> slice \<Rightarrow> bool" where
  "body_at old body d \<longleftrightarrow> slo d = 0 \<and> shi d = length body \<and>
     smem d = (if length body \<le> slice_cap old then body @ drop (length body) (smem old) else body)"

context byte_reader
begin

lemma Decode_body_at:
  assumes "Decode_body readfull comps m n r = Some (t, None, r')" "slo (mdata m) = 0" "CompressType (mheader t) = NoCompress"
  shows "\<exists>body k. length body = n \<and> body_at (mdata m) body (mdata t) \<and> Payload t = drop k body \<and> k \<le> n \<and>
    length (rest r) = n + length (rest r')"
proof -
  obtain b r1 where b: "readfull r n = (b, None, r1)"
    using assms(1) by (auto simp: Decode_body_def Let_def split: prod.splits if_splits)
  have l: "length b = n" "length (rest r) = n + length (rest r1)" using readfull_None [OF b] by auto
  let ?d = "body_slice (mdata m) n"
  let ?d' = "?d\<lparr>smem := blit (smem ?d) (slo ?d) b\<rparr>"
  have f: "decode_fields comps (m\<lparr>mdata := ?d'\<rparr>) ?d' = Some (t, None)" "r' = r1"
    using assms(1) by (auto simp: Decode_body_def Let_def b split: option.splits)
  obtain k where "mdata t = ?d'" "Payload t = drop k (slice_bytes ?d')" "k \<le> slice_len ?d'"
    using decode_fields_mdata [OF f(1) assms(3)] by auto
  then show ?thesis using l f(2) assms(2)
    by (intro exI [of _ b] exI [of _ k], cases "n \<le> slice_cap (mdata m)")
      (auto simp: body_slice_def make_slice_def blit_def body_at_def slice_bytes_def slice_len_def slice_cap_def)
qed

lemma Decode_at:
  assumes dec: "Decode readfull comps maxlen m r = Some (t, None, r')" and "slo (mdata m) = 0"
    and "CompressType (mheader t) = NoCompress"
  shows "\<exists>body k. body_at (mdata m) body (mdata t) \<and> Payload t = drop k body \<and> k \<le> length body \<and>
    length (rest r) = 16 + length body + length (rest r')"
proof -
  obtain b1 r1 where r1: "readfull r 1 = (b1, None, r1)"
    using dec by (auto simp: Decode_def Let_def split: prod.splits if_splits)
  obtain h b2 r2 where r2: "readfull r1 11 = (b2, None, r2)"
    and total: "Decode_total readfull comps maxlen (m\<lparr>mheader := h\<rparr>) r2 = Some (t, None, r')"
    using dec by (auto simp: Decode_def Let_def r1 split: prod.splits if_splits simp del: One_nat_def)
  obtain b3 r3 where r3: "readfull r2 4 = (b3, None, r3)"
    using total by (auto simp: Decode_total_def Let_def split: prod.splits if_splits)
  have body: "Decode_body readfull comps (m\<lparr>mheader := h\<rparr>) (unat (be_get32 b3)) r3 = Some (t, None, r')"
    using total by (auto simp: Decode_total_def Let_def r3 split: if_splits)
  obtain bd k where "body_at (mdata m) bd (mdata t)" "Payload t = drop k bd" "k \<le> length bd"
    "length (rest r3) = length bd + length (rest r')"
    using Decode_body_at [OF body _ assms(3)] assms(2) by auto
  moreover have "length (rest r) = 16 + length (rest r3)"
    using readfull_None [OF r1] readfull_None [OF r2] readfull_None [OF r3] by simp
  ultimately show ?thesis by (intro exI [of _ bd] exI [of _ k]) simp
qed

end

section \<open>A round\<close>

lemma deref_last:
  assumes "body_at old body (mdata t)" "Payload t = drop k body" "k \<le> length body" "arrays \<noteq> []"
    "last arrays = smem (mdata t)"
  shows "deref arrays (payload_slice t arrays) = Payload t"
  using assms by (auto simp: deref_def payload_slice_def body_at_def last_conv_nth)

text \<open>What the client reads: a response to a raw call.\<close>

definition raw_sendable :: "message \<Rightarrow> bool" where
  "raw_sendable m \<longleftrightarrow> sendable m \<and> \<not> IsHeartbeat (mheader m) \<and> MessageStatusType (mheader m) = Normal \<and>
     SerializeType (mheader m) = SerializeNone \<and> CompressType (mheader m) = NoCompress"

lemma raw_round_reads:
  assumes m: "raw_sendable m" and st: "receiver (rresp st)" "slo (mdata (rresp st)) = 0" "rarrays st \<noteq> []"
    and env: "compressors_ok (ce_comps env)" "acceptable (ce_maxlen env) (body_size (ce_comps env) m)"
    and c: "concat (pieces c) = snd (Encode (ce_comps env) m)" and p: "map_of (rpending st) (Seq (mheader m)) = Some i"
  shows "\<exists>st' c' body k. raw_round env st c = Some (st', c') \<and> receiver (rresp st') \<and> rarrays st' = after_decode (rresp st) (rresp st') (rarrays st) \<and>
    rpending st' = AList.delete (Seq (mheader m)) (rpending st) \<and>
    rreplies st' = (rreplies st)(i \<mapsto> payload_slice (rresp st') (rarrays st')) \<and> Payload (rresp st') = Payload m \<and>
    body_at (mdata (rresp st)) body (mdata (rresp st')) \<and> Payload m = drop k body \<and> k \<le> length body \<and>
    length body = body_size (ce_comps env) m"
proof -
  have s: "sendable m" using m by (simp add: raw_sendable_def)
  have r: "bufio_rest (NewReaderSize c 1024) = snd (Encode (ce_comps env) m) @ []"
    using c by (simp add: bufio_rest_def NewReaderSize_def)
  obtain t r' where d: "Decode bufio_readfull (ce_comps env) (ce_maxlen env) (rresp st) (NewReaderSize c 1024) = Some (t, None, r')"
    "received (ce_comps env) m (rresp st) t" "receiver t" "bufio_rest r' = []"
    using bufio.Decode_Encode [OF s st(1) env r] by blast
  note h = encode_header_fields [OF sendableD(1) [OF s], of "ce_comps env"]
  have z: "CompressType (mheader t) = NoCompress" "Payload t = Payload m"
    using d(2) m by (simp_all add: received_def Encode_message encode_payload_def raw_sendable_def)
  have raw: "raw_response t" "Seq (mheader t) = Seq (mheader m)"
    using d(2) h m z by (simp_all add: received_def raw_sendable_def raw_response_def checkReplyError_def)
  obtain body k where b: "body_at (mdata (rresp st)) body (mdata t)" "Payload t = drop k body" "k \<le> length body"
    "length (bufio_rest (NewReaderSize c 1024)) = 16 + length body + length (bufio_rest r')"
    using bufio.Decode_at [OF d(1) st(2) z(1)] by blast
  have "length body = body_size (ce_comps env) m"
    using b(4) d(4) unfolding r by (simp add: Encode_frame_sendable [OF s] length_frame encode_payload_header [OF s] body_size_def)
  then show ?thesis using d b z raw p
    by (intro exI [of _ "st\<lparr>rresp := t, rarrays := after_decode (rresp st) t (rarrays st), rpending := AList.delete (Seq (mheader m)) (rpending st),
        rreplies := (rreplies st)(i \<mapsto> payload_slice t (after_decode (rresp st) t (rarrays st)))\<rparr>"] exI [of _ "bconn r'"] exI [of _ body] exI [of _ k])
      (simp add: raw_round_def readResponse_def Let_def)
qed

lemma after_decode_last: "arrays \<noteq> [] \<Longrightarrow> last (after_decode t t' arrays) = smem (mdata t') \<and> after_decode t t' arrays \<noteq> []"
  by (auto simp: after_decode_def last_conv_nth)

lemma body_at_cap: "body_at old body d \<Longrightarrow> length body \<le> slice_cap d"
  by (auto simp: body_at_def slice_cap_def)

section \<open>Properties\<close>

text \<open>C33. A raw reply does not last: the variable of a completed call shows the payload of its response until a response of the
  same size comes for another call, and then shows that one's payload, although its own call was completed before.\<close>

theorem raw_reply_overwritten:
  assumes m: "raw_sendable m1" "raw_sendable m2"
    and same: "body_size (ce_comps env) m2 = body_size (ce_comps env) m1" "length (Payload m2) = length (Payload m1)"
    and st: "receiver (rresp st)" "slo (mdata (rresp st)) = 0" "rarrays st \<noteq> []"
    and p: "map_of (rpending st) (Seq (mheader m1)) = Some i" "map_of (rpending st) (Seq (mheader m2)) = Some j"
      "Seq (mheader m2) \<noteq> Seq (mheader m1)" "j \<noteq> i"
    and env: "compressors_ok (ce_comps env)" "acceptable (ce_maxlen env) (body_size (ce_comps env) m1)"
    and c: "concat (pieces c1) = snd (Encode (ce_comps env) m1)" "concat (pieces c2) = snd (Encode (ce_comps env) m2)"
  shows "\<exists>st1 d1 st2 d2 s. raw_round env st c1 = Some (st1, d1) \<and> raw_round env st1 c2 = Some (st2, d2) \<and>
    rreplies st1 i = Some s \<and> deref (rarrays st1) s = Payload m1 \<and>
    rreplies st2 i = Some s \<and> deref (rarrays st2) s = Payload m2"
proof -
  obtain st1 d1 b1 k1 where r1: "raw_round env st c1 = Some (st1, d1)" "receiver (rresp st1)"
    "rarrays st1 = after_decode (rresp st) (rresp st1) (rarrays st)" "rpending st1 = AList.delete (Seq (mheader m1)) (rpending st)"
    "rreplies st1 = (rreplies st)(i \<mapsto> payload_slice (rresp st1) (rarrays st1))" "Payload (rresp st1) = Payload m1"
    "body_at (mdata (rresp st)) b1 (mdata (rresp st1))" "Payload m1 = drop k1 b1" "k1 \<le> length b1"
    "length b1 = body_size (ce_comps env) m1"
    using raw_round_reads [OF m(1) st env c(1) p(1)] by blast
  have a1: "rarrays st1 \<noteq> []" "last (rarrays st1) = smem (mdata (rresp st1))" "slo (mdata (rresp st1)) = 0"
    using after_decode_last [OF st(3)] r1(3,7) by (simp_all add: body_at_def)
  have p2: "map_of (rpending st1) (Seq (mheader m2)) = Some j" using r1(4) p by (simp add: delete_conv')
  have ok2: "acceptable (ce_maxlen env) (body_size (ce_comps env) m2)" using env(2) same(1) by simp
  obtain st2 d2 b2 k2 where r2: "raw_round env st1 c2 = Some (st2, d2)"
    "rarrays st2 = after_decode (rresp st1) (rresp st2) (rarrays st1)"
    "rreplies st2 = (rreplies st1)(j \<mapsto> payload_slice (rresp st2) (rarrays st2))" "Payload (rresp st2) = Payload m2"
    "body_at (mdata (rresp st1)) b2 (mdata (rresp st2))" "Payload m2 = drop k2 b2" "k2 \<le> length b2"
    "length b2 = body_size (ce_comps env) m2"
    using raw_round_reads [OF m(2) r1(2) a1(3,1) env(1) ok2 c(2) p2] by blast
  let ?s = "payload_slice (rresp st1) (rarrays st1)"
  have fits: "slice_len (mdata (rresp st2)) \<le> slice_cap (mdata (rresp st1))"
    using body_at_cap [OF r1(7)] r1(10) r2(5,8) same(1) by (auto simp: body_at_def slice_len_def)
  have "deref (rarrays st1) ?s = Payload m1"
    using deref_last [OF r1(7)] r1(6,8,9) a1 by simp
  moreover have "?s = payload_slice (rresp st2) (rarrays st2)"
    using r2(2,4,5,8) r1(6,7,10) fits same by (simp add: payload_slice_def after_decode_def body_at_def)
  moreover have "deref (rarrays st2) (payload_slice (rresp st2) (rarrays st2)) = Payload m2"
    using deref_last [OF r2(5)] r2(2,4,6,7) after_decode_last [OF a1(1)] by simp
  ultimately show ?thesis using r1(1,5) r2(1,3) p(4) by auto
qed

definition raw_message :: "u64 \<Rightarrow> bytes \<Rightarrow> message" where
  "raw_message sq p = NewMessage\<lparr>mheader := SetSeq sq new_header, Payload := p\<rparr>"

lemma raw_message_sendable: "raw_sendable (raw_message 1 p)" "raw_sendable (raw_message 2 p)"
    "Seq (mheader (raw_message 1 p)) = 1" "Seq (mheader (raw_message 2 p)) = 2"
proof -
  have h: "hdr_wf (SetSeq sq new_header)" "Seq (SetSeq sq new_header) = sq" "CheckMagicNumber (SetSeq sq new_header)"
    "\<not> IsHeartbeat (SetSeq sq new_header)" "MessageStatusType (SetSeq sq new_header) = Normal"
    "SerializeType (SetSeq sq new_header) = SerializeNone" "CompressType (SetSeq sq new_header) = NoCompress" for sq
    by (simp_all add: hdr new_header_fields del: protocol_consts) code_simp+
  then show "raw_sendable (raw_message 1 p)" "raw_sendable (raw_message 2 p)"
    "Seq (mheader (raw_message 1 p)) = 1" "Seq (mheader (raw_message 2 p)) = 2"
    using clean_sendable [OF clean_NewMessage]
    by (simp_all add: raw_sendable_def raw_message_def sendable_def msg_wf_def del: protocol_consts)
qed

theorem raw_reply_overwritten_witness:
  "\<exists>st1 d1 st2 d2 s.
     raw_round demo_client_env \<lparr>rresp = NewMessage, rarrays = [[]], rpending = [(1, 0), (2, 1)], rreplies = Map.empty\<rparr>
       (halves (snd (Encode Map.empty (raw_message 1 [5, 6])))) = Some (st1, d1) \<and>
     raw_round demo_client_env st1 (halves (snd (Encode Map.empty (raw_message 2 [7, 8])))) = Some (st2, d2) \<and>
     rreplies st1 0 = Some s \<and> deref (rarrays st1) s = [5, 6] \<and> rreplies st2 0 = Some s \<and> deref (rarrays st2) s = [7, 8]"
proof -
  have b: "body_size Map.empty (raw_message sq [x, y]) = 18" for sq x y
  proof -
    have "CompressType (SetSeq sq new_header) = NoCompress" using new_header_fields(4) by (simp add: hdr) code_simp
    then show ?thesis by (simp add: body_size_def encode_payload_def raw_message_def NewMessage_def encodeMetadata_def)
  qed
  have e: "ce_comps demo_client_env = Map.empty" "ce_maxlen demo_client_env = 0" "compressors_ok Map.empty"
    by (simp_all add: demo_client_env_def compressors_ok_def)
  have p: "Payload (raw_message sq p) = p" for sq p by (simp add: raw_message_def)
  show ?thesis
    using raw_reply_overwritten [of "raw_message 1 [5, 6]" "raw_message 2 [7, 8]" demo_client_env
        "\<lparr>rresp = NewMessage, rarrays = [[]], rpending = [(1, 0), (2, 1)], rreplies = Map.empty\<rparr>" 0 1
        "halves (snd (Encode Map.empty (raw_message 1 [5, 6])))" "halves (snd (Encode Map.empty (raw_message 2 [7, 8])))"]
      raw_message_sendable e b p clean_receiver [OF clean_NewMessage]
    by (simp add: acceptable_def halves_def NewMessage_def make_slice_def)
qed

text \<open>A response that does not fit gets an array of its own.\<close>

theorem raw_reply_kept:
  assumes "rArr s < length arrays" "slice_cap (mdata t) < slice_len (mdata t')"
  shows "deref (after_decode t t' arrays) s = deref arrays s"
  using assms by (simp add: after_decode_def deref_def nth_append)

end
