(* ===== verification/Examples.thy ===== *)
theory Examples
  imports EndToEnd ServerLife
begin

text \<open>
  The programs of \<^verbatim>\<open>examples/\<close>: a service \<open>Arith\<close> and clients that call it. They are written here against the model as they
  are written against the library, and the theorems follow one call from the client's \<^verbatim>\<open>main\<close> through the server's method
  back to the line that is logged. The pauses of the programs are left out, and so are the examples that no longer
  compile (\<^verbatim>\<open>error/client.go\<close>, \<^verbatim>\<open>gateway/client.go\<close>, \<^verbatim>\<open>tracing/\<close> and \<^verbatim>\<open>gatewayalone/\<close> use functions with other parameters or
  other names than the library has).
\<close>

section \<open>The objects and the methods\<close>

text \<open>\<^verbatim>\<open>int\<close> has 64 bits.\<close>

record Args =
  argA :: "64 word"
  argB :: "64 word"

record Reply =
  repC :: "64 word"

datatype arith = ArgsObj Args | ReplyObj Reply

text \<open>\<^verbatim>\<open>reflect\<close> passes only objects of the declared types to a method; it panics on others.\<close>

definition wrong_types :: "arith goval \<Rightarrow> arith goval \<Rightarrow> arith handler_result" where
  "wrong_types args reply = \<lparr>hOutcome = Panics ''reflect: Call using wrong type'', hArg = args, hReply = reply, hSent = []\<rparr>"

definition Mul :: "arith handler" where
  "Mul c args reply = (case (args, reply) of
      (GoObj (ArgsObj a), GoObj (ReplyObj r)) \<Rightarrow>
        \<lparr>hOutcome = Returns None, hArg = args, hReply = GoObj (ReplyObj (r\<lparr>repC := argA a * argB a\<rparr>)), hSent = []\<rparr>
    | _ \<Rightarrow> wrong_types args reply)"

definition Add :: "arith handler" where
  "Add c args reply = (case (args, reply) of
      (GoObj (ArgsObj a), GoObj (ReplyObj r)) \<Rightarrow>
        \<lparr>hOutcome = Returns None, hArg = args, hReply = GoObj (ReplyObj (r\<lparr>repC := argA a + argB a\<rparr>)), hSent = []\<rparr>
    | _ \<Rightarrow> wrong_types args reply)"

text \<open>The methods of \<^verbatim>\<open>metadata/server.go\<close> (which also logs the metadata it got) and \<^verbatim>\<open>gateway/server.go\<close> send metadata back.\<close>

definition metadata_Mul :: "arith handler" where
  "metadata_Mul c args reply = (case (args, reply) of
      (GoObj (ArgsObj a), GoObj (ReplyObj r)) \<Rightarrow>
        \<lparr>hOutcome = Returns None, hArg = args, hReply = GoObj (ReplyObj (r\<lparr>repC := argA a * argB a\<rparr>)),
         hSent = [Some [(''server'', ''hi this is server md'')]]\<rparr>
    | _ \<Rightarrow> wrong_types args reply)"

definition gateway_Mul :: "arith handler" where
  "gateway_Mul c args reply = (case (args, reply) of
      (GoObj (ArgsObj a), GoObj (ReplyObj r)) \<Rightarrow>
        \<lparr>hOutcome = Returns None, hArg = args, hReply = GoObj (ReplyObj (r\<lparr>repC := argA a * argB a\<rparr>)),
         hSent = [Some [(''server'', ''hi this is server md''), (''server2'', ''enjoy yourself here'')]]\<rparr>
    | _ \<Rightarrow> wrong_types args reply)"

section \<open>The servers\<close>

text \<open>What reflection shows of \<^verbatim>\<open>new(Arith)\<close>; a pointer to the pointer has no methods.\<close>

definition Context :: gotype where
  "Context = TBase ''Context'' ''context''"

definition arith_method :: "string \<Rightarrow> arith handler \<Rightarrow> arith rmethod" where
  "arith_method nm h = \<lparr>mName = nm, mPkgPath = '''',
     mIn = [TPtr (TBase ''Arith'' ''main''), Context, TPtr (TBase ''Args'' ''main''), TPtr (TBase ''Reply'' ''main'')],
     mOut = [typeOfError], mCall = h\<rparr>"

definition Arith :: "arith rmethod list \<Rightarrow> arith receiver" where
  "Arith ms = \<lparr>rTypeString = ''*main.Arith'', rName = ''Arith'', rMethods = ms, rPtrMethods = []\<rparr>"

text \<open>\<^verbatim>\<open>main\<close> up to \<open>Serve\<close>, which gets the outcome of listening; the error of \<open>RegisterName\<close> is dropped. \<open>None\<close> is a panic.\<close>

definition serve_arith ::
  "ServerOption list \<Rightarrow> arith rmethod list \<Rightarrow> goerr option \<Rightarrow> (string + arith server_pub) option" where
  "serve_arith opts ms listen = (case NewServer opts of
      None \<Rightarrow> None
    | Some (s, pub) \<Rightarrow>
       (let s = snd (RegisterName (\<lambda>t. t = Context) ''Arith'' (Arith ms) s) in Some (Serve listen ''tcp'' (s, pub))))"

definition basic_server :: "goerr option \<Rightarrow> (string + arith server_pub) option" where
  "basic_server = serve_arith [] [arith_method ''Mul'' Mul]"

definition ratelimit_server :: "goerr option \<Rightarrow> (string + arith server_pub) option" where
  "ratelimit_server = serve_arith [] [arith_method ''Add'' Add, arith_method ''Mul'' Mul]"

definition metadata_server :: "goerr option \<Rightarrow> (string + arith server_pub) option" where
  "metadata_server = serve_arith [] [arith_method ''Mul'' metadata_Mul]"

definition gateway_server :: "goerr option \<Rightarrow> (string + arith server_pub) option" where
  "gateway_server = serve_arith [SetGateWayMode] [arith_method ''Mul'' gateway_Mul]"

text \<open>The first of the three servers of \<^verbatim>\<open>discovery/\<close>; \<open>newErr\<close> is the outcome of making the etcd client.\<close>

definition discovery_server :: "goerr option \<Rightarrow> goerr option \<Rightarrow> (string + arith server_pub) option" where
  "discovery_server newErr = serve_arith [SetEtcdPublisher newErr ''127.0.0.1:8972''] [arith_method ''Mul'' Mul]"

section \<open>The clients\<close>

text \<open>
  \<open>rpc\<close> is \<open>Call\<close> of an RPC client together with what the network and the server do meanwhile; it gets the context, the
  method, the argument, the reply and the options, and returns the error, the reply and the client.
\<close>

type_synonym rpc = "ctx \<Rightarrow> string \<Rightarrow> arith goval \<Rightarrow> arith goval \<Rightarrow> BeforeOrAfterCallOption list \<Rightarrow> arith RPCClient
  \<Rightarrow> ((goerr option \<times> arith goval) \<times> arith RPCClient) option"

definition call_through ::
  "rpc \<Rightarrow> ctx \<Rightarrow> string \<Rightarrow> arith goval \<Rightarrow> arith goval \<Rightarrow> BeforeOrAfterCallOption list \<Rightarrow> (arith, 'c, 'l) Client
     \<Rightarrow> ((goerr option \<times> arith goval) \<times> (arith, 'c, 'l) Client) option" where
  "call_through rpc c m args reply opts cl = (case Client_Call cl m of
      None \<Rightarrow> None
    | Some (None, cl) \<Rightarrow> Some ((None, reply), cl)
    | Some (Some (DefaultTarget, m), cl) \<Rightarrow> (case defaultRPCClient cl of
          None \<Rightarrow> None
        | Some r \<Rightarrow> map_option (\<lambda>(res, r). (res, cl\<lparr>defaultRPCClient := Some r\<rparr>)) (rpc c m args reply opts r))
    | Some (Some (CachedTarget i, m), cl) \<Rightarrow>
        map_option (\<lambda>(res, r). (res, cl\<lparr>cachedClient := (cachedClient cl)[i := r]\<rparr>))
          (rpc c m args reply opts (cachedClient cl ! i)))"

text \<open>What a client logs: a product or a sum with its operands, an error, metadata.\<close>

datatype logged = Product "64 word" "64 word" "64 word" | Sum "64 word" "64 word" "64 word" | Failed goerr | Metadata_from_server "smap option"

definition log_product :: "Args \<Rightarrow> arith goval \<Rightarrow> logged" where
  "log_product a reply = Product (argA a) (argB a) (case reply of GoObj (ReplyObj r) \<Rightarrow> repC r | _ \<Rightarrow> 0)"

text \<open>\<^verbatim>\<open>main\<close> of \<^verbatim>\<open>basic/client.go\<close>; the error of the call is dropped. \<open>None\<close> is a panic or a call that never returns.\<close>

definition basic_client :: "net_lib \<Rightarrow> (goerr \<Rightarrow> string) \<Rightarrow> rpc \<Rightarrow> logged list option" where
  "basic_client N txt rpc =
    (case (NewClient N txt ''tcp'' '':8972'' ''Arith'' [] :: (goerr + (arith, unit, unit) Client) option) of
       Some (Inr cl) \<Rightarrow>
         (let args = \<lparr>argA = 25, argB = 15\<rparr>; reply = \<lparr>repC = 0\<rparr> in
          case call_through rpc Background ''Mul'' (GoObj (ArgsObj args)) (GoObj (ReplyObj reply)) [] cl of
            None \<Rightarrow> None
          | Some ((err, reply), cl) \<Rightarrow> Some [log_product args reply])
     | _ \<Rightarrow> None)"

text \<open>\<^verbatim>\<open>main\<close> of \<^verbatim>\<open>metadata/client.go\<close>; its variable \<^verbatim>\<open>mdFromServer\<close> has number 0 and holds an empty map.\<close>

definition metadata_client :: "net_lib \<Rightarrow> (goerr \<Rightarrow> string) \<Rightarrow> rpc \<Rightarrow> logged list option" where
  "metadata_client N txt rpc =
    (case (NewClient N txt ''tcp'' '':8972'' ''Arith'' [] :: (goerr + (arith, unit, unit) Client) option) of
       Some (Inr cl) \<Rightarrow>
         (let args = \<lparr>argA = 10, argB = 20\<rparr>; reply = \<lparr>repC = 0\<rparr>;
              c = NewClientMdContext Background [(''testmd'', ''md''), (''testMd2'', ''md2'')];
              cl = cl\<lparr>defaultRPCClient := map_option (\<lambda>r. r\<lparr>vars := (vars r)(0 := Some [])\<rparr>) (defaultRPCClient cl)\<rparr> in
          case call_through rpc c ''Mul'' (GoObj (ArgsObj args)) (GoObj (ReplyObj reply)) [GetMetadataFromServer 0] cl of
            None \<Rightarrow> None
          | Some ((err, reply), cl) \<Rightarrow>
              Some ((case err of None \<Rightarrow> [] | Some err \<Rightarrow> [Failed err]) @
                [log_product args reply, Metadata_from_server (vars (the (defaultRPCClient cl)) 0)]))
     | _ \<Rightarrow> None)"

section \<open>What the servers offer\<close>

definition arith_mt :: "string \<Rightarrow> arith handler \<Rightarrow> arith methodType" where
  "arith_mt nm h = \<lparr>mtMethod = arith_method nm h, ArgType = TPtr (TBase ''Args'' ''main''), ReplyType = TPtr (TBase ''Reply'' ''main'')\<rparr>"

lemma arith_suitable: "suitableMethod (\<lambda>t. t = Context) (arith_method nm h) = ([], Some (arith_mt nm h))"
  by (simp add: suitableMethod_def arith_method_def arith_mt_def Let_def typeOfError_def is_ptr_def isExported_def)

lemma lower_names: "ToLower ''Arith'' = ''arith''" "ToLower ''Mul'' = ''mul''" "ToLower ''Add'' = ''add''"
  by (simp_all add: ToLower_def lower_char_def char_of_def bit_0)

lemma Arith_registered:
  "ms \<noteq> [] \<Longrightarrow> RegisterName (\<lambda>t. t = Context) ''Arith'' (Arith ms) s =
    (if fst (suitableMethods (\<lambda>t. t = Context) ms True) = []
     then (Some (ErrText ''rpc.Register: type Arith has no exported methods of suitable type''), s\<lparr>sname := ''Arith''\<rparr>)
     else (None, s\<lparr>sname := ''Arith'', serviceMap := AList.update ''arith''
       \<lparr>svcName = ''Arith'', svcMethod = fst (suitableMethods (\<lambda>t. t = Context) ms True)\<rparr> (serviceMap s)\<rparr>))"
  by (simp add: RegisterName_def register_def Arith_def Let_def suitableMethods_def lower_names)

lemma arith_methods:
  "fst (suitableMethods (\<lambda>t. t = Context) [arith_method ''Mul'' h] True) = [(''mul'', arith_mt ''Mul'' h)]"
  "fst (suitableMethods (\<lambda>t. t = Context) [arith_method ''Add'' g, arith_method ''Mul'' h] True) =
     [(''add'', arith_mt ''Add'' g), (''mul'', arith_mt ''Mul'' h)]"
  by (simp_all add: suitableMethods_def arith_suitable lower_names) (simp_all add: arith_method_def lower_names)

text \<open>The server has the method: what the mains install.\<close>

definition has_method :: "string \<Rightarrow> arith handler \<Rightarrow> arith server \<Rightarrow> bool" where
  "has_method nm h server \<longleftrightarrow> (\<exists>svc. map_of (serviceMap server) ''arith'' = Some svc \<and>
     map_of (svcMethod svc) (ToLower nm) = Some (arith_mt nm h))"

lemma servers_have_methods:
  "basic_server None = Some (Inr (s, pub)) \<Longrightarrow> has_method ''Mul'' Mul s"
  "ratelimit_server None = Some (Inr (s, pub)) \<Longrightarrow> has_method ''Mul'' Mul s \<and> has_method ''Add'' Add s"
  "metadata_server None = Some (Inr (s, pub)) \<Longrightarrow> has_method ''Mul'' metadata_Mul s"
  "gateway_server None = Some (Inr (s, pub)) \<Longrightarrow> has_method ''Mul'' gateway_Mul s"
  "discovery_server None None = Some (Inr (s, pub)) \<Longrightarrow> has_method ''Mul'' Mul s"
  by (auto simp: basic_server_def ratelimit_server_def metadata_server_def gateway_server_def discovery_server_def
      serve_arith_def NewServer_def SetGateWayMode_def SetEtcdPublisher_def apply_server_option_def NewEtcdPublisher_def
      Arith_registered arith_methods Serve_def has_method_def lower_names Let_def)

lemma servers_start:
  "\<exists>s pub. basic_server None = Some (Inr (s, pub))" "\<exists>s pub. metadata_server None = Some (Inr (s, pub))"
  by (simp_all add: basic_server_def metadata_server_def serve_arith_def NewServer_def Serve_def Arith_registered arith_methods)

section \<open>The libraries\<close>

text \<open>
  Msgpack as documented, for these objects: encoding succeeds, and decoding into an object of the same type gives the object
  encoded; an object is far below the limits of the protocol.
\<close>

fun same_type :: "arith \<Rightarrow> arith \<Rightarrow> bool" where
  "same_type (ArgsObj _) (ArgsObj _) = True"
| "same_type (ReplyObj _) (ReplyObj _) = True"
| "same_type _ _ = False"

definition msgpack_documented :: "arith codec_libs \<Rightarrow> bool" where
  "msgpack_documented libs \<longleftrightarrow> (\<forall>x. snd (msgpack_Encode libs (GoObj x)) = None \<and>
     length (fst (msgpack_Encode libs (GoObj x))) < 1000 \<and>
     (\<forall>y. same_type x y \<longrightarrow> msgpack_Decode libs (fst (msgpack_Encode libs (GoObj x))) (GoObj y) = (None, GoObj x)))"

text \<open>The server's process: msgpack, the codecs of \<^verbatim>\<open>share\<close>, no pools of values, and \<^verbatim>\<open>reflect.New\<close> on the two types.\<close>

definition arith_process :: "arith server_env \<Rightarrow> bool" where
  "arith_process senv \<longleftrightarrow> msgpack_documented (env_libs senv) \<and> env_codecs senv = Codecs \<and> \<not> env_UsePool senv \<and>
     env_New senv (TBase ''Args'' ''main'') = GoObj (ArgsObj \<lparr>argA = 0, argB = 0\<rparr>) \<and>
     env_New senv (TBase ''Reply'' ''main'') = GoObj (ReplyObj \<lparr>repC = 0\<rparr>)"

definition msgpacked :: "arith codec_libs \<Rightarrow> arith \<Rightarrow> bytes" where
  "msgpacked libs x = fst (msgpack_Encode libs (GoObj x))"

lemma msgpack_codec:
  assumes "msgpack_documented libs"
  shows "codec_Encode libs MsgpackCodec (GoObj x) = Some (msgpacked libs x, None)" "length (msgpacked libs x) < 1000"
    "same_type x y \<Longrightarrow> codec_Decode libs MsgpackCodec (msgpacked libs x) (GoObj y) = Some (None, GoObj x)"
  using assms by (auto simp: msgpack_documented_def msgpacked_def codec_Encode_def codec_Decode_def MsgpackCodec_Encode_def
      MsgpackCodec_Decode_def prod_eq_iff)

lemma arith_offers:
  assumes p: "arith_process senv" and h: "has_method nm h server"
    and r: "h cx (GoObj (ArgsObj a)) (GoObj (ReplyObj \<lparr>repC = 0\<rparr>)) = r" "hOutcome r = Returns None" "hReply r = GoObj (ReplyObj rep)"
  shows "offers senv server MsgPack ''arith'' (ToLower nm) cx (msgpacked (env_libs senv) (ArgsObj a)) r
    (msgpacked (env_libs senv) (ReplyObj rep))"
proof -
  note c = msgpack_codec [of "env_libs senv"]
  obtain svc where "map_of (serviceMap server) ''arith'' = Some svc" "map_of (svcMethod svc) (ToLower nm) = Some (arith_mt nm h)"
    using h by (auto simp: has_method_def)
  then show ?thesis using p r c
    by (simp add: offers_def arith_process_def arith_mt_def arith_method_def typePools_New_def run_method_def is_ptr_def
        service_call_def Let_def Codecs_lookup del: protocol_consts)
qed

section \<open>A call\<close>

lemma new_header_plain: "CompressType new_header = NoCompress"
  by code_simp

lemma plain_request_size:
  assumes "clean pooled" "cCompressType call = NoCompress"
  shows "body_size comps (request_of pooled call sq data) = 16 + length (cServicePath call) + length (cServiceMethod call) +
    length (encodeMetadata (sent_md call)) + length data"
proof -
  have "CompressType (mheader (request_of pooled call sq data)) = NoCompress"
    using assms new_header_fields(4) new_header_plain by (simp add: request_of_def clean_def request_header_def hdr)
  then show ?thesis using assms(1)
    by (simp add: plain_body_size) (simp add: request_of_def clean_def sent_md_def Let_def)
qed

text \<open>The beginning of the first call of a client, whose options ask for metadata.\<close>

definition fresh_call :: "ctx \<Rightarrow> string \<Rightarrow> arith goval \<Rightarrow> arith goval \<Rightarrow> nat list \<Rightarrow> arith Call" where
  "fresh_call c m args reply vs = \<lparr>cCtx = c, cServicePath = ''arith'', cServiceMethod = m, cArgs = args, cReply = reply,
     cError = None, cDone = 0, cMetadata = None, cHeartBeat = False, cCompressType = NoCompress, cSerializeType = MsgPack,
     cSeq = 0, cAfterCalls = map GetMetadata vs\<rparr>"

definition arith_conf :: RPCClientConfig where
  "arith_conf = \<lparr>conf_network = ''tcp'', conf_address = '':8972'', conf_servicePath = ''Arith'', conf_dialTimeout = 0\<rparr>"

definition arith_client :: "conn \<Rightarrow> vars \<Rightarrow> arith RPCClient" where
  "arith_client d vs = (make_client arith_conf d)\<lparr>vars := vs\<rparr>"

lemma get_options: "fold add_option (map GetMetadataFromServer ns) (call, vs) =
  (call\<lparr>cAfterCalls := cAfterCalls call @ map GetMetadata ns\<rparr>, vs)"
  by (induction ns arbitrary: call) (simp_all add: add_option_def GetMetadataFromServer_def)

text \<open>A client of the service that can make a call; calls that have timed out may be pending.\<close>

definition ready :: "arith RPCClient \<Rightarrow> bool" where
  "ready r \<longleftrightarrow> status r = ConnAvailable \<and> servicePath r = ''arith'' \<and> receiver (resp r)"

lemma arith_client_ready [simp]: "ready (arith_client d vs)" "vars (arith_client d vs) = vs"
  by (simp_all add: ready_def arith_client_def arith_conf_def make_client_def lower_names)

definition started :: "int \<Rightarrow> arith Call \<Rightarrow> arith RPCClient \<Rightarrow> arith RPCClient" where
  "started now call r = r\<lparr>calls := calls r @ [call\<lparr>cDone := length (chans r)\<rparr>], chans := chans r @ [(1, [])], cseq := cseq r + 1,
     pending := AList.update (cseq r + 1) (length (calls r)) (pending r), lastSend := now, insend := insend r @ [(length (calls r), cseq r + 1)]\<rparr>"

lemma arith_start:
  assumes "ready r"
  shows "call_start now c m args reply (map GetMetadataFromServer ns) r =
    Some (length (calls r), started now (fresh_call c m args reply ns) r)"
  using assms by (simp add: ready_def started_def call_start_def Go_def new_call_def send_register_def get_options
      fresh_call_def nth_append Let_def del: protocol_consts)

lemma mul_name: "''mul'' = ToLower ''Mul''" "length ''mul'' < 1000"
  by (simp_all add: lower_names)

lemma MsgPack_facts: "MsgPack AND mask 4 = MsgPack" "MsgPack \<noteq> SerializeNone"
  by code_simp+

lemma arith_call:
  assumes srv: "arith_process senv" "has_method nm h server" "pool_ok (msgPool w)"
    and m: "m = ToLower nm" "length m < 1000"
    and r: "h cx (GoObj (ArgsObj a)) (GoObj (ReplyObj \<lparr>repC = 0\<rparr>)) = r" "hOutcome r = Returns None" "hReply r = GoObj (ReplyObj rep)"
      "md_wf (sent_back r)" "length (encodeMetadata (sent_back r)) < 1000"
    and cli: "ce_libs cenv = env_libs senv" "ce_codecs cenv = Codecs" "compressors_ok (ce_comps cenv)" "ce_maxlen cenv = 0"
    and c: "smap_wf (extractMdFromClientCtx c)" "length (encodeMetadata (sent_md (fresh_call c m args reply ns))) < 1000"
      "extractClientMdContexFromMd Background
        (case sent_md (fresh_call c m args reply ns) of None \<Rightarrow> [] | Some md \<Rightarrow> md) = Inr cx"
    and o: "args = GoObj (ArgsObj a)" "reply = GoObj (ReplyObj rep0)"
    and net: "clean pooled" "delivers up" "delivers down" and rc: "ready rc"
  shows "\<exists>client'. remote_Call cenv senv server (ce_comps cenv) 0 pooled ch1 ch2 up down w now c m args reply
      (map GetMetadataFromServer ns) rc = Some ((None, GoObj (ReplyObj rep)), client') \<and>
    (\<forall>v \<in> set ns. \<forall>md. sent_back r = Some md \<longrightarrow> md \<noteq> [] \<longrightarrow> vars client' v = Some md) \<and> ready client'"
proof -
  have libs: "msgpack_documented (env_libs senv)" using srv(1) by (simp add: arith_process_def)
  note k = msgpack_codec [OF libs]
  define i where "i = length (calls rc)"
  define client1 where "client1 = started now (fresh_call c m args reply ns) rc"
  define call where "call = calls client1 ! i"
  have start: "call_start now c m args reply (map GetMetadataFromServer ns) rc = Some (i, client1)"
    using arith_start [OF rc] by (simp add: i_def client1_def)
  have f: "cCtx call = c" "cServicePath call = ''arith''" "cServiceMethod call = m" "cArgs call = args" "\<not> cHeartBeat call"
    "cCompressType call = NoCompress" "cSerializeType call = MsgPack" "cAfterCalls call = map GetMetadata ns"
    "sent_md call = sent_md (fresh_call c m args reply ns)"
    by (simp_all add: call_def client1_def i_def started_def fresh_call_def sent_md_def del: protocol_consts)
  have g: "map_of (pending client1) (cseq client1) = Some i" "i < length (calls client1)" "receiver (resp client1)" "calls client1 ! i = call"
    using rc by (simp_all add: client1_def i_def started_def call_def ready_def update_conv')
  have call: "callable cenv client1 i (cseq client1) MsgpackCodec (msgpacked (env_libs senv) (ArgsObj a))"
    using k(1) c(1) cli o f g by (simp add: callable_def Let_def MsgPack_facts del: protocol_consts)
  have off: "offers senv server (cSerializeType call) (cServicePath call) (cServiceMethod call) cx
      (msgpacked (env_libs senv) (ArgsObj a)) r (msgpacked (env_libs senv) (ReplyObj rep))"
    using arith_offers [OF srv(1,2) r(1-3)] f m by simp
  have md: "extractClientMdContexFromMd Background (case sent_md call of None \<Rightarrow> [] | Some md \<Rightarrow> md) = Inr cx"
    using c(3) f(9) by simp
  have s1: "acceptable 0 (body_size (ce_comps cenv) (request_of pooled call (cseq client1) (msgpacked (env_libs senv) (ArgsObj a))))"
    using plain_request_size [OF net(1) f(6)] k(2) [of "ArgsObj a"] c(2) f m(2) by (simp add: acceptable_def)
  have dec: "codec_Decode (ce_libs cenv) MsgpackCodec (msgpacked (env_libs senv) (ReplyObj rep)) reply = Some (None, GoObj (ReplyObj rep))"
    using k(3) [of "ReplyObj rep" "ReplyObj rep0"] cli o by simp
  have s2: "acceptable (ce_maxlen cenv) (16 + length (cServicePath call) + length (cServiceMethod call) +
      length (encodeMetadata (sent_back r)) + length (msgpacked (env_libs senv) (ReplyObj rep)))"
    using k(2) [of "ReplyObj rep"] r(5) cli f m(2) by (simp add: acceptable_def)
  have pool: "\<not> env_UsePool senv" using srv(1) by (simp add: arith_process_def)
  have avail: "status rc = ConnAvailable" "servicePath rc = ''arith''" using rc by (simp_all add: ready_def)
  obtain client' where "remote_Call cenv senv server (ce_comps cenv) 0 pooled ch1 ch2 up down w now c m args reply
      (map GetMetadataFromServer ns) rc = Some ((None, GoObj (ReplyObj rep)), client')"
    "status client' = ConnAvailable"
    "servicePath client' = servicePath rc" "receiver (resp client')"
    "\<forall>v md. GetMetadata v \<in> set (cAfterCalls call) \<longrightarrow> sent_back r = Some md \<longrightarrow> md \<noteq> [] \<longrightarrow> vars client' v = Some md"
    using Call_returns [OF start avail(1) call net(1) g(3) cli(3), unfolded g(4),
        OF s1 s2 off md pool srv(3) r(4) net(2,3) dec] by blast
  then show ?thesis using avail g f by (auto simp: ready_def)
qed

section \<open>The examples\<close>

lemma arith_NewClient:
  assumes "net_Dial N ''tcp'' '':8972'' = Inr d"
  shows "\<exists>cl :: (arith, unit, unit) Client. NewClient N txt ''tcp'' '':8972'' ''Arith'' [] = Some (Inr cl) \<and>
    subscriber cl = False \<and> defaultRPCClient cl = Some (arith_client d (\<lambda>_. None))"
  using assms by (simp add: NewClient_def NewRPCClient_def Dial_def arith_client_def make_client_def arith_conf_def)

text \<open>One call through a client with one connection.\<close>

lemma call_through_default:
  assumes "\<not> subscriber cl" "defaultRPCClient cl = Some r" "rpc c (ToLower m) args reply opts r = Some (res, r')"
  shows "call_through rpc c m args reply opts cl = Some (res, cl\<lparr>defaultRPCClient := Some r'\<rparr>)"
  using assms by (simp add: call_through_def Client_Call_def selectRPCClient_def)

definition example_md :: smap where
  "example_md = [(''testmd'', ''md''), (''testMd2'', ''md2'')]"

lemma example_md_crosses:
  "extractMdFromClientCtx (NewClientMdContext Background example_md) = example_md"
  "smap_wf example_md" "length (encodeMetadata (Some example_md)) < 1000"
  "isl (extractClientMdContexFromMd Background example_md) = False"
  by (code_simp, code_simp, code_simp, code_simp)

text \<open>The basic example logs 25 * 15 = 375.\<close>

theorem basic_example:
  assumes srv: "arith_process senv" "basic_server None = Some (Inr (server, pub))" "pool_ok (msgPool w)"
    and cli: "ce_libs cenv = env_libs senv" "ce_codecs cenv = Codecs" "compressors_ok (ce_comps cenv)" "ce_maxlen cenv = 0"
    and net: "clean pooled" "delivers up" "delivers down" "net_Dial N ''tcp'' '':8972'' = Inr d"
  shows "basic_client N txt (remote_Call cenv senv server (ce_comps cenv) 0 pooled ch1 ch2 up down w now) = Some [Product 25 15 375]"
proof -
  let ?a = "\<lparr>argA = 25, argB = 15\<rparr>" and ?r = "\<lparr>repC = 0\<rparr>"
  let ?rpc = "remote_Call cenv senv server (ce_comps cenv) 0 pooled ch1 ch2 up down w now"
  obtain cl :: "(arith, unit, unit) Client" where cl: "NewClient N txt ''tcp'' '':8972'' ''Arith'' [] = Some (Inr cl)"
    "\<not> subscriber cl" "defaultRPCClient cl = Some (arith_client d (\<lambda>_. None))"
    using arith_NewClient [OF net(4)] by blast
  have md: "sent_md (fresh_call Background ''mul'' (GoObj (ArgsObj ?a)) (GoObj (ReplyObj ?r)) []) = None"
    "smap_wf (extractMdFromClientCtx Background)"
    by (simp_all add: sent_md_def fresh_call_def extractMdFromClientCtx_def Background_def smap_wf_def)
  have small: "length (encodeMetadata None) < 1000" by (simp add: encodeMetadata_def)
  obtain r' where "?rpc Background ''mul'' (GoObj (ArgsObj ?a)) (GoObj (ReplyObj ?r)) (map GetMetadataFromServer [])
      (arith_client d (\<lambda>_. None)) = Some ((None, GoObj (ReplyObj \<lparr>repC = 375\<rparr>)), r')"
    using arith_call [OF srv(1) servers_have_methods(1) [OF srv(2)] srv(3) mul_name _ _ _ _ _ cli md(2) _ _ refl refl net(1-3) arith_client_ready(1),
        where cx = Background and a = ?a and rep = "\<lparr>repC = 375\<rparr>" and ns = "[]" and ?rep0.0 = ?r] md small demo_extract
    by (fastforce simp: Mul_def sent_back_def md_wf_def)
  then have "call_through ?rpc Background ''Mul'' (GoObj (ArgsObj ?a)) (GoObj (ReplyObj ?r)) [] cl =
      Some ((None, GoObj (ReplyObj \<lparr>repC = 375\<rparr>)), cl\<lparr>defaultRPCClient := Some r'\<rparr>)"
    using call_through_default [OF cl(2,3), of ?rpc _ "''Mul''"] by (simp add: lower_names)
  then show ?thesis using cl(1) by (simp add: basic_client_def log_product_def)
qed

text \<open>The metadata example: the client's \<open>main\<close> against the server's \<open>main\<close> logs 10 * 20 = 200 and the metadata that the
  server's method sent, for every msgpack library that does what is documented, and over connections that deliver in any
  pieces.\<close>

theorem metadata_example:
  assumes srv: "arith_process senv" "metadata_server None = Some (Inr (server, pub))" "pool_ok (msgPool w)"
    and cli: "ce_libs cenv = env_libs senv" "ce_codecs cenv = Codecs" "compressors_ok (ce_comps cenv)" "ce_maxlen cenv = 0"
    and net: "clean pooled" "delivers up" "delivers down" "net_Dial N ''tcp'' '':8972'' = Inr d"
  shows "metadata_client N txt (remote_Call cenv senv server (ce_comps cenv) 0 pooled ch1 ch2 up down w now) =
    Some [Product 10 20 200, Metadata_from_server (Some [(''server'', ''hi this is server md'')])]"
proof -
  let ?a = "\<lparr>argA = 10, argB = 20\<rparr>" and ?r = "\<lparr>repC = 0\<rparr>" and ?c = "NewClientMdContext Background example_md"
  let ?rpc = "remote_Call cenv senv server (ce_comps cenv) 0 pooled ch1 ch2 up down w now"
  let ?md = "[(''server'', ''hi this is server md'')]"
  obtain cl0 :: "(arith, unit, unit) Client" where cl: "NewClient N txt ''tcp'' '':8972'' ''Arith'' [] = Some (Inr cl0)"
    "\<not> subscriber cl0" "defaultRPCClient cl0 = Some (arith_client d (\<lambda>_. None))"
    using arith_NewClient [OF net(4)] by blast
  let ?vs = "(\<lambda>_. None)(0 := Some [])"
  let ?cl = "cl0\<lparr>defaultRPCClient := Some (arith_client d ?vs)\<rparr>"
  have md: "sent_md (fresh_call ?c ''mul'' (GoObj (ArgsObj ?a)) (GoObj (ReplyObj ?r)) [0]) = Some example_md"
    using example_md_crosses(1) by (simp add: sent_md_def fresh_call_def example_md_def)
  obtain cx where cx: "extractClientMdContexFromMd Background example_md = Inr cx"
    using example_md_crosses(4) by (cases "extractClientMdContexFromMd Background example_md") auto
  have sb: "sent_back (metadata_Mul cx (GoObj (ArgsObj ?a)) (GoObj (ReplyObj ?r))) = Some ?md" "md_wf (Some ?md)"
    "length (encodeMetadata (Some ?md)) < 1000"
    by (simp add: metadata_Mul_def sent_back_def, simp add: md_wf_def smap_wf_def, code_simp)
  have m: "hOutcome (metadata_Mul cx (GoObj (ArgsObj ?a)) (GoObj (ReplyObj ?r))) = Returns None"
    "hReply (metadata_Mul cx (GoObj (ArgsObj ?a)) (GoObj (ReplyObj ?r))) = GoObj (ReplyObj \<lparr>repC = 200\<rparr>)"
    by (simp_all add: metadata_Mul_def)
  obtain r' where r': "?rpc ?c ''mul'' (GoObj (ArgsObj ?a)) (GoObj (ReplyObj ?r)) (map GetMetadataFromServer [0])
      (arith_client d ?vs) = Some ((None, GoObj (ReplyObj \<lparr>repC = 200\<rparr>)), r')" "vars r' 0 = Some ?md"
    using arith_call [OF srv(1) servers_have_methods(3) [OF srv(2)] srv(3) mul_name refl m _ _ cli _ _ _ refl refl net(1-3) arith_client_ready(1),
        where c = ?c and ns = "[0]" and ?rep0.0 = ?r] example_md_crosses md cx sb by fastforce
  have "call_through ?rpc ?c ''Mul'' (GoObj (ArgsObj ?a)) (GoObj (ReplyObj ?r)) [GetMetadataFromServer 0] ?cl =
      Some ((None, GoObj (ReplyObj \<lparr>repC = 200\<rparr>)), ?cl\<lparr>defaultRPCClient := Some r'\<rparr>)"
    using call_through_default [of ?cl _ ?rpc ?c "''Mul''"] r'(1) cl(2) by (simp add: lower_names)
  moreover have "cl0\<lparr>defaultRPCClient := map_option (\<lambda>r. r\<lparr>vars := (vars r)(0 := Some [])\<rparr>) (defaultRPCClient cl0)\<rparr> = ?cl"
    using cl(3) by (simp add: arith_client_def make_client_def)
  ultimately show ?thesis using cl(1) r'(2)
    by (simp add: metadata_client_def log_product_def flip: example_md_def)
qed

text \<open>A library that does what is documented: numbers of eight bytes.\<close>

definition plain_msgpack_Encode :: "arith goval \<Rightarrow> bytes \<times> goerr option" where
  "plain_msgpack_Encode i = (case i of
      GoObj (ArgsObj a) \<Rightarrow> (be_put64 (argA a) @ be_put64 (argB a), None)
    | GoObj (ReplyObj r) \<Rightarrow> (be_put64 (repC r), None)
    | _ \<Rightarrow> ([], Some (ErrText ''msgpack'')))"

definition plain_msgpack_Decode :: "bytes \<Rightarrow> arith goval \<Rightarrow> goerr option \<times> arith goval" where
  "plain_msgpack_Decode d i = (case i of
      GoObj (ArgsObj a) \<Rightarrow> (None, GoObj (ArgsObj \<lparr>argA = be_get64 (take 8 d), argB = be_get64 (drop 8 d)\<rparr>))
    | GoObj (ReplyObj r) \<Rightarrow> (None, GoObj (ReplyObj \<lparr>repC = be_get64 d\<rparr>))
    | _ \<Rightarrow> (Some (ErrText ''msgpack''), i))"

definition arith_libs :: "arith codec_libs" where
  "arith_libs = \<lparr>json_Marshal = plain_msgpack_Encode, json_Unmarshal = plain_msgpack_Decode,
     gogo_Marshal = \<lambda>_. None, gogo_Unmarshal = \<lambda>_ _. None, pb_Marshal = \<lambda>_. None, pb_Unmarshal = \<lambda>_ _. None,
     msgpack_Encode = plain_msgpack_Encode, msgpack_Decode = plain_msgpack_Decode,
     thrift_Write = \<lambda>_. None, thrift_Read = \<lambda>_ _. None, set_bytes = \<lambda>_ _. None, type_name = \<lambda>_. ''main.Args''\<rparr>"

definition arith_env :: "arith server_env" where
  "arith_env = \<lparr>env_libs = arith_libs, env_codecs = Codecs, env_UsePool = False,
     env_New = (\<lambda>t. if t = TBase ''Args'' ''main'' then GoObj (ArgsObj \<lparr>argA = 0, argB = 0\<rparr>) else GoObj (ReplyObj \<lparr>repC = 0\<rparr>)),
     env_Reset = \<lambda>_. None, env_Elem = \<lambda>v. v, env_show = \<lambda>_. ''args'', env_opentracing = \<lambda>_. ''span''\<rparr>"

lemma arith_libs_documented: "msgpack_documented arith_libs"
  unfolding msgpack_documented_def
proof (intro allI)
  fix x
  show "snd (msgpack_Encode arith_libs (GoObj x)) = None \<and> length (fst (msgpack_Encode arith_libs (GoObj x))) < 1000 \<and>
     (\<forall>y. same_type x y \<longrightarrow> msgpack_Decode arith_libs (fst (msgpack_Encode arith_libs (GoObj x))) (GoObj y) = (None, GoObj x))"
    by (cases x) (auto simp: arith_libs_def plain_msgpack_Encode_def plain_msgpack_Decode_def split: arith.splits)
qed

definition plain_net :: net_lib where
  "plain_net = \<lparr>net_DialTimeout = \<lambda>_ _ _. Inr \<lparr>pieces = [], cend = EOF\<rparr>, net_Dial = \<lambda>_ _. Inr \<lparr>pieces = [], cend = EOF\<rparr>,
     http_ReadResponse = \<lambda>_ _. Inr connected\<rparr>"

definition arith_client_env :: "arith client_env" where
  "arith_client_env = \<lparr>ce_libs = arith_libs, ce_codecs = Codecs, ce_comps = Map.empty, ce_maxlen = 0\<rparr>"

definition arith_pools :: "arith pools" where
  "arith_pools = \<lparr>msgPool = [], argsReplyPools = Map.empty\<rparr>"

theorem metadata_example_witness:
  "\<exists>server pub. metadata_server None = Some (Inr (server, pub)) \<and>
    metadata_client plain_net (\<lambda>_. ''error'') (remote_Call arith_client_env arith_env server Map.empty 0 NewMessage None demo_choices
      halves halves arith_pools 3) = Some [Product 10 20 200, Metadata_from_server (Some [(''server'', ''hi this is server md'')])]"
proof -
  obtain server pub where s: "metadata_server None = Some (Inr (server, pub))" using servers_start(2) by blast
  have p: "arith_process arith_env" using arith_libs_documented by (simp add: arith_process_def arith_env_def)
  show ?thesis
    using metadata_example [OF p s, of arith_pools arith_client_env NewMessage halves halves plain_net "\<lparr>pieces = [], cend = EOF\<rparr>"
        "\<lambda>_. ''error''" None demo_choices 3] s
    by (auto simp: arith_pools_def pool_ok_def arith_client_env_def arith_env_def compressors_ok_def delivers_def halves_def plain_net_def)
qed

text \<open>The discovery example publishes its server under the name and address that its client looks for.\<close>

lemma discovery_example_publishes:
  assumes "discovery_server None None = Some (Inr (s, pub))"
  shows "\<exists>p. pub = Some (Register_start \<lparr>si_Name = ''arith'', si_Addr = ''127.0.0.1:8972'', si_Network = ''tcp''\<rparr> p)"
  using assms
  by (auto simp: discovery_server_def serve_arith_def NewServer_def SetEtcdPublisher_def apply_server_option_def
      NewEtcdPublisher_def Arith_registered arith_methods Serve_def lower_names Let_def)

end
