(* ===== verification/Registry.thy ===== *)
theory Registry
  imports Discovery
begin

text \<open>
  What the nodes of a discovery client are, said without clients and slices: a list of pairs of name and address to which
  a put appends its node, unless the list has it or it cannot be dialled, and from which a delete takes its node. The
  locale \<open>node_table\<close> is the contract of \<open>addNodeFunc\<close> and \<open>delNodeFunc\<close> that the subscriber relies on; under it any
  sequence of events does to the client what it does to the abstract list.
\<close>

section \<open>The registry and the contract\<close>

type_synonym 'i change = "'i + 'i"

text \<open>\<open>Inl\<close> puts, \<open>Inr\<close> deletes.\<close>

fun registry_step :: "('i \<Rightarrow> 'n) \<Rightarrow> ('i \<Rightarrow> bool) \<Rightarrow> 'i change \<Rightarrow> 'n list \<Rightarrow> 'n list" where
  "registry_step node dials (Inl i) ns = (if node i \<in> set ns \<or> \<not> dials i then ns else ns @ [node i])"
| "registry_step node dials (Inr i) ns = filter (\<lambda>n. n \<noteq> node i) ns"

fun table_run :: "('i \<Rightarrow> 's \<Rightarrow> 's) \<Rightarrow> ('i \<Rightarrow> 's \<Rightarrow> 's option) \<Rightarrow> 'i change list \<Rightarrow> 's \<Rightarrow> 's option" where
  "table_run add del [] s = Some s"
| "table_run add del (Inl i # evs) s = table_run add del evs (add i s)"
| "table_run add del (Inr i # evs) s = (case del i s of None \<Rightarrow> None | Some s \<Rightarrow> table_run add del evs s)"

lemma registry_step_distinct: "distinct ns \<Longrightarrow> distinct (registry_step node dials ev ns)"
  by (cases ev) auto

locale node_table =
  fixes nodes :: "'s \<Rightarrow> 'n list" and node :: "'i \<Rightarrow> 'n" and valid :: "'i \<Rightarrow> bool" and dials :: "'s \<Rightarrow> 'i \<Rightarrow> bool"
    and add :: "'i \<Rightarrow> 's \<Rightarrow> 's" and del :: "'i \<Rightarrow> 's \<Rightarrow> 's option"
  assumes add_nodes: "valid i \<Longrightarrow> nodes (add i s) = registry_step node (dials s) (Inl i) (nodes s)"
    and add_dials: "dials (add i s) = dials s"
    and del_nodes: "distinct (nodes s) \<Longrightarrow>
      \<exists>s'. del i s = Some s' \<and> nodes s' = registry_step node (dials s) (Inr i) (nodes s) \<and> dials s' = dials s"
begin

lemma run_refines:
  "distinct (nodes s) \<Longrightarrow> \<forall>i. Inl i \<in> set evs \<longrightarrow> valid i \<Longrightarrow>
   \<exists>s'. table_run add del evs s = Some s' \<and> nodes s' = fold (registry_step node (dials s)) evs (nodes s) \<and>
     distinct (nodes s') \<and> dials s' = dials s"
proof (induction evs arbitrary: s)
  case (Cons ev evs)
  obtain s1 where s1: "table_run add del (ev # evs) s = table_run add del evs s1"
    "nodes s1 = registry_step node (dials s) ev (nodes s)" "dials s1 = dials s"
  proof (cases ev)
    case (Inl i)
    then show ?thesis using that [of "add i s"] add_nodes [of i s] add_dials Cons.prems by simp
  next
    case (Inr i)
    then show ?thesis using that del_nodes [OF Cons.prems(1), of i] by auto
  qed
  have "distinct (nodes s1)" using s1(2) registry_step_distinct [OF Cons.prems(1)] by simp
  then show ?case using Cons.IH [of s1] Cons.prems s1 by auto
qed simp

end

section \<open>The client's table\<close>

definition client_nodes :: "('x, 'c, 'l) Client \<Rightarrow> (string \<times> string) list" where
  "client_nodes c = map (\<lambda>r. (servicePath r, address r)) (cachedClient c)"

definition node_of :: "ServiceInfo \<Rightarrow> string \<times> string" where
  "node_of info = (si_Name info, si_Addr info)"

definition lower_name :: "ServiceInfo \<Rightarrow> bool" where
  "lower_name info \<longleftrightarrow> ToLower (si_Name info) = si_Name info"

text \<open>Whether dialling a node with the client's timeout succeeds.\<close>

definition dials_node :: "net_lib \<Rightarrow> (goerr \<Rightarrow> string) \<Rightarrow> int \<Rightarrow> ServiceInfo \<Rightarrow> bool" where
  "dials_node N txt timeout info \<longleftrightarrow>
     (if si_Network info = ''tcp'' then isl (Dial N (si_Network info) (si_Addr info) timeout) = False
      else if si_Network info = ''http'' then isl (DialHTTP N txt (si_Network info) (si_Addr info) timeout) = False
      else False)"

lemma dials_node_client:
  "dials_node N txt (cl_DialTimeout c) info \<longleftrightarrow> (\<exists>r :: 'x RPCClient. NewRPCClient N txt (node_conf info c) = Inr r)"
  by (auto simp: dials_node_def node_conf_def NewRPCClient_def split: sum.splits)

lemma node_of_same:
  "node_of info \<in> set (client_nodes c) \<longleftrightarrow> list_ex (same_node info) (cachedClient c)"
  by (auto simp: client_nodes_def node_of_def same_node_def list_ex_iff image_iff intro: sym) (metis+)?

lemma addNode_registry:
  fixes c :: "('x, 'c, 'l) Client"
  assumes "lower_name info"
  shows "client_nodes (snd (addNode N txt info c)) =
    registry_step node_of (dials_node N txt (cl_DialTimeout c)) (Inl info) (client_nodes c)"
proof (cases rule: addNode_cases [of N "txt" info c])
  case same
  then show ?thesis using dials_node_client [where 'x = 'x and c = c] by (auto simp: node_of_same)
next
  case (new r)
  have "servicePath r = si_Name info" "address r = si_Addr info"
    using NewRPCClient_fields [OF new(2)] assms by (simp_all add: node_conf_def lower_name_def)
  then have "client_nodes (snd (addNode N txt info c)) = client_nodes c @ [node_of info]"
    using new(1) by (simp add: client_nodes_def node_of_def)
  moreover have "dials_node N txt (cl_DialTimeout c) info" using dials_node_client [where 'x = 'x and c = c] new(2) by blast
  ultimately show ?thesis using new(3) by (simp add: node_of_same)
qed

lemma delNode_registry:
  assumes "distinct (client_nodes c)"
  shows "\<exists>c'. delNode info c = Some c' \<and> client_nodes c' = registry_step node_of dials (Inr info) (client_nodes c) \<and>
    cl_DialTimeout c' = cl_DialTimeout c"
  using delNode_distinct [of c info] assms
  by (auto simp: client_nodes_def filter_map o_def node_of_def same_node_def)

interpretation registry: node_table client_nodes node_of lower_name "\<lambda>c. dials_node N txt (cl_DialTimeout c)"
  "\<lambda>info c. snd (addNode N txt info c)" delNode for N and "txt"
proof
  fix i and s :: "('a, 'b, 'c) Client"
  show "dials_node N txt (cl_DialTimeout (snd (addNode N txt i s))) = dials_node N txt (cl_DialTimeout s)"
    using addNode_appends [of N "txt" i s] by auto
  show "distinct (client_nodes s) \<Longrightarrow> \<exists>s'. delNode i s = Some s' \<and>
      client_nodes s' = registry_step node_of (dials_node N txt (cl_DialTimeout s)) (Inr i) (client_nodes s) \<and>
      dials_node N txt (cl_DialTimeout s') = dials_node N txt (cl_DialTimeout s)"
    using delNode_registry by fastforce
qed (rule addNode_registry)

section \<open>The subscriber runs the table\<close>

text \<open>The events of etcd that carry a value that parses.\<close>

definition parsed :: "json_lib \<Rightarrow> node_event \<Rightarrow> ServiceInfo change list" where
  "parsed J ev = (case ev of
      EventTypePut v \<Rightarrow> (case info_Unmarshal J v of Inl _ \<Rightarrow> [] | Inr info \<Rightarrow> [Inl info])
    | EventTypeDelete v \<Rightarrow> (case info_Unmarshal J v of Inl _ \<Rightarrow> [] | Inr info \<Rightarrow> [Inr info]))"

lemma table_run_append:
  "table_run add del (evs @ evs') s = (case table_run add del evs s of None \<Rightarrow> None | Some s \<Rightarrow> table_run add del evs' s)"
  by (induction add del evs s rule: table_run.induct) (auto split: option.splits)

lemma WatchNodes_run:
  "WatchNodes J N txt evs c = table_run (\<lambda>info c. snd (addNode N txt info c)) delNode (concat (map (parsed J) evs)) c"
proof (induction evs arbitrary: c)
  case (Cons ev evs)
  have "watch_event J N txt ev c = table_run (\<lambda>info c. snd (addNode N txt info c)) delNode (parsed J ev) c"
    by (cases ev) (auto simp: watch_event_def parsed_def ValueToServiceInfo_def split: sum.splits option.splits)
  then show ?case by (simp add: table_run_append Cons.IH split: option.splits)
qed simp

lemma fetch_loop_run:
  "fetch_loop J N txt vs c = (None, c') \<Longrightarrow>
   table_run (\<lambda>info c. snd (addNode N txt info c)) delNode (concat (map (parsed J) (map EventTypePut vs))) c = Some c'"
  by (induction vs arbitrary: c)
    (auto simp: parsed_def ValueToServiceInfo_def split: sum.splits prod.splits)

definition lower_event :: "json_lib \<Rightarrow> node_event \<Rightarrow> bool" where
  "lower_event J ev \<longleftrightarrow> (\<forall>info. Inl info \<in> set (parsed J ev) \<longrightarrow> lower_name info)"

lemma lower_events: "\<forall>ev \<in> set evs. lower_event J ev \<Longrightarrow> \<forall>i. Inl i \<in> set (concat (map (parsed J) evs)) \<longrightarrow> lower_name i"
  by (auto simp: lower_event_def)

text \<open>The nodes that the values found at the start and the events after it leave in the registry.\<close>

definition registered ::
  "json_lib \<Rightarrow> net_lib \<Rightarrow> (goerr \<Rightarrow> string) \<Rightarrow> int \<Rightarrow> bytes list \<Rightarrow> node_event list \<Rightarrow> (string \<times> string) list" where
  "registered J N txt timeout vs evs =
    fold (registry_step node_of (dials_node N txt timeout)) (concat (map (parsed J) evs))
      (fold (registry_step node_of (dials_node N txt 0)) (concat (map (parsed J) (map EventTypePut vs))) [])"

lemma follows_registry:
  fixes c :: "('x, 'c, 'l) Client"
  assumes new: "NewDiscoveryClient J N txt newErr (Inr vs) sn opts = Some c"
    and low: "\<forall>ev \<in> set (map EventTypePut vs @ evs). lower_event J ev"
  shows "\<exists>c'. WatchNodes J N txt evs c = Some c' \<and> distinct (client_nodes c') \<and>
    client_nodes c' = registered J N txt (cl_DialTimeout c) vs evs"
proof -
  define c0 :: "('x, 'c, 'l) Client" where "c0 = \<lparr>cl_network = '''', cl_address = '''', cl_servicePath = ToLower sn, selectMode = RoundRobin,
    selector = Some NewRoundRobinSelector, cachedClient = [], subscriber = False, defaultRPCClient = None,
    cl_DialTimeout = 0, breakerConfig = None, limiterConfig = None\<rparr>"
  obtain e c1 where f: "fetch_loop J N txt vs c0 = (e, c1)" by fastforce
  have c1: "e = None" "cachedClient c = cachedClient c1"
    using new f by (auto simp: c0_def NewDiscoveryClient_def NewEtcdSubscriber_def FetchAllNodesInfo_def Let_def
        split: option.splits if_splits dest!: apply_client_options_nodes)
  have "distinct (client_nodes c0)" "client_nodes c0 = []" "cl_DialTimeout c0 = 0" by (simp_all add: client_nodes_def c0_def)
  then have n1: "client_nodes c1 = fold (registry_step node_of (dials_node N txt 0)) (concat (map (parsed J) (map EventTypePut vs))) []"
    "distinct (client_nodes c1)"
    using registry.run_refines [of c0 "concat (map (parsed J) (map EventTypePut vs))" N "txt"] fetch_loop_run [of J N "txt" vs c0 c1]
      lower_events [of "map EventTypePut vs" J] low f c1(1) by auto
  have "client_nodes c = client_nodes c1" using c1(2) by (simp add: client_nodes_def)
  then show ?thesis
    using registry.run_refines [of c "concat (map (parsed J) evs)" N "txt"] lower_events [of evs J] low n1
    by (auto simp: WatchNodes_run registered_def)
qed

section \<open>Property\<close>

text \<open>C18. The discovery client follows the registry, for nodes registered under names in lower case, as servers do it: after its
  construction from the values under its path and after any events, its nodes are those of the abstract list, without
  duplicates and in order, that a put with a readable value extends by a node that is new and can be dialled, and from which
  a delete with a readable value takes the node; events whose value cannot be read change nothing, and the watching goroutine
  never panics. (The delete events of etcd come without a value, so in fact no node is taken away, see
  \<open>nodes_never_removed\<close>.) The first nodes are dialled without a timeout, whatever the options say.\<close>

theorem discovery_client_follows_registry:
  fixes c :: "('x, 'c, 'l) Client"
  assumes new: "NewDiscoveryClient J N txt newErr (Inr vs) sn opts = Some c"
    and low: "\<forall>ev \<in> set (map EventTypePut vs @ evs). lower_event J ev"
  shows "\<exists>c'. WatchNodes J N txt evs c = Some c' \<and> distinct (client_nodes c') \<and>
    client_nodes c' = fold (registry_step node_of (dials_node N txt (cl_DialTimeout c))) (concat (map (parsed J) evs))
      (fold (registry_step node_of (dials_node N txt 0)) (concat (map (parsed J) (map EventTypePut vs))) [])"
  using follows_registry [OF assms] by (simp add: registered_def)

theorem discovery_client_follows_registry_witness:
  "\<exists>c'. WatchNodes demo_json demo_net (\<lambda>_. '''') [EventTypePut (info_Marshal demo_json demo_node),
      EventTypePut (info_Marshal demo_json (demo_node\<lparr>si_Addr := ''b:2''\<rparr>)), EventTypeDelete (info_Marshal demo_json demo_node),
      EventTypeDelete []] (demo_discovery\<lparr>cl_servicePath := ''arith''\<rparr>) = Some c' \<and>
    client_nodes c' = [(''arith'', ''b:2'')]"
proof -
  let ?n2 = "demo_node\<lparr>si_Addr := ''b:2''\<rparr>"
  let ?v = "info_Marshal demo_json demo_node" and ?v2 = "info_Marshal demo_json ?n2"
  have j: "info_Unmarshal demo_json ?v = Inr demo_node" "info_Unmarshal demo_json ?v2 = Inr ?n2" "\<exists>e. info_Unmarshal demo_json [] = Inl e"
    using demo_json_documented by (auto simp: json_documented_def)
  then have p: "parsed demo_json (EventTypePut ?v) = [Inl demo_node]" "parsed demo_json (EventTypePut ?v2) = [Inl ?n2]"
    "parsed demo_json (EventTypeDelete ?v) = [Inr demo_node]" "parsed demo_json (EventTypeDelete []) = []"
    by (auto simp: parsed_def)
  have low: "\<forall>ev \<in> set (map EventTypePut [] @ [EventTypePut ?v, EventTypePut ?v2, EventTypeDelete ?v, EventTypeDelete []]).
      lower_event demo_json ev"
    using p by (auto simp: lower_event_def lower_name_def demo_node_def ToLower_def lower_char_def)
  have "dials_node demo_net (\<lambda>_. '''') t demo_node" "dials_node demo_net (\<lambda>_. '''') t ?n2" for t
    by (simp_all add: dials_node_def demo_node_def Dial_def demo_net_def)
  then show ?thesis
    using discovery_client_follows_registry [OF demo_NewDiscoveryClient low] p by (auto simp: node_of_def demo_node_def)
qed

end
