(* ===== verification/ExampleLoops.thy ===== *)
theory ExampleLoops
  imports Examples Registry
begin

text \<open>
  The examples whose clients call the server in a loop: \<^verbatim>\<open>examples/keepalive\<close>, \<^verbatim>\<open>timeout\<close>, \<^verbatim>\<open>metrics\<close>, \<^verbatim>\<open>ratelimit\<close> and
  \<^verbatim>\<open>discovery\<close>. Each call of a loop has a network and pools of its own; the client and the reply object are carried from one
  call to the next. The heartbeats that a connection sends while it is idle, in the pauses and in long calls, are left out (what
  they do is in \<open>KeepaliveLoop\<close> and \<open>HeartbeatCall\<close>), and so are nodes that come during the loop of the discovery example.
\<close>

section \<open>The loops\<close>

text \<open>
  \<open>call i reply s\<close> is the \<open>i\<close>-th call with the state \<open>s\<close>, \<open>lg\<close> what is logged after it. \<open>None\<close> is a panic or a call that
  never returns.
\<close>

primrec call_loop ::
  "(goerr option \<Rightarrow> arith goval \<Rightarrow> logged list) \<Rightarrow> (nat \<Rightarrow> arith goval \<Rightarrow> 's \<Rightarrow> ((goerr option \<times> arith goval) \<times> 's) option)
     \<Rightarrow> nat \<Rightarrow> nat \<Rightarrow> arith goval \<Rightarrow> 's \<Rightarrow> (logged list \<times> arith goval \<times> 's) option" where
  "call_loop lg call i 0 reply s = Some ([], reply, s)"
| "call_loop lg call i (Suc n) reply s = (case call i reply s of
      None \<Rightarrow> None
    | Some ((err, reply), s) \<Rightarrow>
        map_option (\<lambda>(entries, last, s). (lg err reply @ entries, last, s)) (call_loop lg call (Suc i) n reply s))"

definition log_error :: "goerr option \<Rightarrow> logged list" where
  "log_error err = (case err of None \<Rightarrow> [] | Some err \<Rightarrow> [Failed err])"

type_synonym arith_Client = "(arith, unit, unit) Client"

text \<open>\<^verbatim>\<open>main\<close> of \<^verbatim>\<open>keepalive/client.go\<close>.\<close>

definition keepalive_client :: "net_lib \<Rightarrow> (goerr \<Rightarrow> string) \<Rightarrow> (nat \<Rightarrow> rpc) \<Rightarrow> logged list option" where
  "keepalive_client N txt rpcs =
    (case (NewClient N txt ''tcp'' '':8972'' ''Arith'' [] :: (goerr + arith_Client) option) of
       None \<Rightarrow> None
     | Some (Inl err) \<Rightarrow> Some [Failed err]
     | Some (Inr cl) \<Rightarrow>
         (let args = \<lparr>argA = 10, argB = 20\<rparr>; reply = \<lparr>repC = 0\<rparr> in
          map_option fst (call_loop (\<lambda>err reply. log_error err @ [log_product args reply])
            (\<lambda>i reply. call_through (rpcs i) Background ''Mul'' (GoObj (ArgsObj args)) reply []) 0 5 (GoObj (ReplyObj reply)) cl)))"

text \<open>
  \<^verbatim>\<open>main\<close> of \<^verbatim>\<open>timeout/client.go\<close> and of \<^verbatim>\<open>metrics/client.go\<close>. The first call has a context of five seconds, which adds nothing
  to the metadata; \<open>meanwhile\<close> is what happens to the reply object and to the client in the two seconds after it.
\<close>

definition timeout_client ::
  "net_lib \<Rightarrow> (goerr \<Rightarrow> string) \<Rightarrow> rpc \<Rightarrow> (arith goval \<Rightarrow> arith_Client \<Rightarrow> (arith goval \<times> arith_Client) option) \<Rightarrow> (nat \<Rightarrow> rpc)
     \<Rightarrow> logged list option" where
  "timeout_client N txt first meanwhile rpcs =
    (case (NewClient N txt ''tcp'' '':8972'' ''Arith'' [] :: (goerr + arith_Client) option) of
       Some (Inr cl) \<Rightarrow>
         (let args = \<lparr>argA = 10, argB = 20\<rparr>; reply = \<lparr>repC = 0\<rparr> in
          case call_through first Background ''Mul'' (GoObj (ArgsObj args)) (GoObj (ReplyObj reply)) [] cl of
            None \<Rightarrow> None
          | Some ((err, reply), cl) \<Rightarrow>
             (let entries = log_error err @ [log_product args reply] in
              case meanwhile reply cl of
                None \<Rightarrow> None
              | Some (reply, cl) \<Rightarrow>
                 (let args = \<lparr>argA = 25, argB = 15\<rparr> in
                  map_option (\<lambda>r. entries @ fst r) (call_loop (\<lambda>err reply. [log_product args reply])
                    (\<lambda>i reply. call_through (rpcs i) Background ''Mul'' (GoObj (ArgsObj args)) reply []) 1 50 reply cl))))
     | _ \<Rightarrow> None)"

text \<open>The limiter of \<^verbatim>\<open>ratelimit/client.go\<close>: the interval in seconds, the capacity and the quantum.\<close>

record LimiterConfig =
  FillInterval :: int
  Capacity :: int
  Quantum :: int

text \<open>A call through the one connection of a client, behind the guards of that connection.\<close>

definition guarded_through ::
  "('b \<Rightarrow> ((arith goval \<times> arith RPCClient) option \<Rightarrow> goerr option \<times> (arith goval \<times> arith RPCClient) option)
       \<Rightarrow> (arith goval \<times> arith RPCClient) option \<Rightarrow> goerr option \<times> 'b \<times> (arith goval \<times> arith RPCClient) option)
     \<Rightarrow> ('k \<Rightarrow> 'k) \<Rightarrow> rpc \<Rightarrow> ctx \<Rightarrow> string \<Rightarrow> arith goval \<Rightarrow> arith goval \<Rightarrow> ('b, 'k) guards \<times> (arith, 'c, 'l) Client
     \<Rightarrow> ((goerr option \<times> arith goval) \<times> ('b, 'k) guards \<times> (arith, 'c, 'l) Client) option" where
  "guarded_through execute wait rpc c m args reply gc = (case gc of (g, cl) \<Rightarrow>
     (case (Client_Call cl m, defaultRPCClient cl) of
        (Some (Some (DefaultTarget, m), cl), Some r) \<Rightarrow>
          (case guarded_Call execute wait g m (\<lambda>s. case s of
               None \<Rightarrow> (None, None)
             | Some (reply, r) \<Rightarrow> (case rpc c m args reply [] r of
                   None \<Rightarrow> (None, None)
                 | Some ((err, reply), r) \<Rightarrow> (err, Some (reply, r)))) (Some (reply, r)) of
             (err, g, None) \<Rightarrow> None
           | (err, g, Some (reply, r)) \<Rightarrow> Some ((err, reply), g, cl\<lparr>defaultRPCClient := Some r\<rparr>))
      | _ \<Rightarrow> None))"

text \<open>\<^verbatim>\<open>main\<close> of \<^verbatim>\<open>ratelimit/client.go\<close>; \<open>NewBucket\<close> and \<open>wait\<close> are the library's token bucket.\<close>

definition ratelimit_client ::
  "net_lib \<Rightarrow> (goerr \<Rightarrow> string) \<Rightarrow> (LimiterConfig \<Rightarrow> 'k) \<Rightarrow> ('k \<Rightarrow> 'k) \<Rightarrow> (nat \<Rightarrow> rpc) \<Rightarrow> logged list option" where
  "ratelimit_client N txt NewBucket wait rpcs =
    (case (NewClient N txt ''tcp'' '':8972'' ''Arith''
        [LimiterOption (Some \<lparr>FillInterval = 1, Capacity = 5, Quantum = 1\<rparr>)] :: (goerr + (arith, unit, LimiterConfig) Client) option) of
       Some (Inr cl) \<Rightarrow>
         (let args = \<lparr>argA = 10, argB = 20\<rparr>; reply = \<lparr>repC = 0\<rparr>;
              g = SetRateLimiter NewBucket (limiterConfig cl) \<lparr>breaker = (None :: unit option), bucket = None\<rparr> in
          map_option fst (call_loop (\<lambda>err reply. case err of None \<Rightarrow> [log_product args reply] | Some err \<Rightarrow> [Failed err])
            (\<lambda>i reply. guarded_through (\<lambda>b f s. (fst (f s), b, snd (f s))) wait (rpcs i) Background ''Mul'' (GoObj (ArgsObj args)) reply)
            0 20 (GoObj (ReplyObj reply)) (g, cl)))
     | _ \<Rightarrow> None)"

text \<open>\<^verbatim>\<open>main\<close> of \<^verbatim>\<open>discovery/client.go\<close>: the values found, the events of the first ten seconds, the loop.\<close>

definition discovery_client ::
  "json_lib \<Rightarrow> net_lib \<Rightarrow> (goerr \<Rightarrow> string) \<Rightarrow> goerr option \<Rightarrow> goerr + bytes list \<Rightarrow> node_event list \<Rightarrow> (nat \<Rightarrow> rpc)
     \<Rightarrow> logged list option" where
  "discovery_client J N txt newErr found evs rpcs =
    (case (NewDiscoveryClient J N txt newErr found ''Arith'' [] :: arith_Client option) of
       None \<Rightarrow> None
     | Some cl \<Rightarrow>
        (case WatchNodes J N txt evs cl of
           None \<Rightarrow> None
         | Some cl \<Rightarrow>
            (let args = \<lparr>argA = 25, argB = 15\<rparr> in
             map_option fst (call_loop (\<lambda>err reply. [log_product args reply])
               (\<lambda>i reply. call_through (rpcs i) Background ''Mul'' (GoObj (ArgsObj args)) (GoObj (ReplyObj \<lparr>repC = 0\<rparr>)) [])
               0 100 (GoObj (ReplyObj \<lparr>repC = 0\<rparr>)) cl))))"

section \<open>Calls that multiply\<close>

text \<open>
  The contract the loops rely on: on a client that can make a call, a call of \<open>m\<close> returns the value of \<open>f\<close> and leaves the
  client so.
\<close>

definition computes :: "string \<Rightarrow> (Args \<Rightarrow> 64 word) \<Rightarrow> rpc \<Rightarrow> bool" where
  "computes m f rpc \<longleftrightarrow> (\<forall>a rep r. ready r \<longrightarrow> (\<exists>r'. rpc Background m (GoObj (ArgsObj a)) (GoObj (ReplyObj rep)) [] r =
     Some ((None, GoObj (ReplyObj \<lparr>repC = f a\<rparr>)), r') \<and> ready r'))"

abbreviation multiplies :: "rpc \<Rightarrow> bool" where
  "multiplies \<equiv> computes ''mul'' (\<lambda>a. argA a * argB a)"

lemma computesD:
  "computes m f rpc \<Longrightarrow> ready r \<Longrightarrow> \<exists>r'. rpc Background m (GoObj (ArgsObj a)) (GoObj (ReplyObj rep)) [] r =
     Some ((None, GoObj (ReplyObj \<lparr>repC = f a\<rparr>)), r') \<and> ready r'"
  by (simp add: computes_def)

lemma ready_chans: "ready (r\<lparr>chans := cs\<rparr>) = ready r"
  by (simp add: ready_def)

text \<open>What the client, the server and the network of a call have to be.\<close>

record exchange =
  x_pooled :: message
  x_ch1 :: "nat option"
  x_ch2 :: choices
  x_up :: "bytes \<Rightarrow> conn"
  x_down :: "bytes \<Rightarrow> conn"
  x_pools :: "arith pools"
  x_now :: int

definition exchange_ok :: "exchange \<Rightarrow> bool" where
  "exchange_ok x \<longleftrightarrow> clean (x_pooled x) \<and> delivers (x_up x) \<and> delivers (x_down x) \<and> pool_ok (msgPool (x_pools x))"

definition arith_setting :: "arith client_env \<Rightarrow> arith server_env \<Rightarrow> bool" where
  "arith_setting cenv senv \<longleftrightarrow> arith_process senv \<and> ce_libs cenv = env_libs senv \<and> ce_codecs cenv = Codecs \<and>
     compressors_ok (ce_comps cenv) \<and> ce_maxlen cenv = 0"

definition call_over :: "arith client_env \<Rightarrow> arith server_env \<Rightarrow> arith server \<Rightarrow> exchange \<Rightarrow> rpc" where
  "call_over cenv senv server x =
     remote_Call cenv senv server (ce_comps cenv) 0 (x_pooled x) (x_ch1 x) (x_ch2 x) (x_up x) (x_down x) (x_pools x) (x_now x)"

text \<open>The methods of these servers: they return the value of \<open>f\<close>, and what metadata they send is small.\<close>

definition computing :: "(Args \<Rightarrow> 64 word) \<Rightarrow> arith handler \<Rightarrow> bool" where
  "computing f h \<longleftrightarrow> (\<forall>cx a. let r = h cx (GoObj (ArgsObj a)) (GoObj (ReplyObj \<lparr>repC = 0\<rparr>)) in
     hOutcome r = Returns None \<and> hReply r = GoObj (ReplyObj \<lparr>repC = f a\<rparr>) \<and>
     md_wf (sent_back r) \<and> length (encodeMetadata (sent_back r)) < 1000)"

lemma arith_computes:
  "computing (\<lambda>a. argA a * argB a) Mul" "computing (\<lambda>a. argA a + argB a) Add"
  by (simp_all add: computing_def Mul_def Add_def sent_back_def md_wf_def encodeMetadata_def)

lemma no_metadata:
  "sent_md (fresh_call Background m args reply []) = None" "smap_wf (extractMdFromClientCtx Background)"
  "length (encodeMetadata None) < 1000"
  by (simp_all add: sent_md_def fresh_call_def extractMdFromClientCtx_def Background_def smap_wf_def encodeMetadata_def)

lemma call_over_computes:
  assumes "arith_setting cenv senv" "has_method nm h server" "computing f h" "exchange_ok x" "m = ToLower nm" "length m < 1000"
  shows "computes m f (call_over cenv senv server x)"
  unfolding computes_def
proof (intro allI impI)
  fix a rep r assume r: "ready r"
  have s: "arith_process senv" "ce_libs cenv = env_libs senv" "ce_codecs cenv = Codecs" "compressors_ok (ce_comps cenv)"
    "ce_maxlen cenv = 0" "clean (x_pooled x)" "delivers (x_up x)" "delivers (x_down x)" "pool_ok (msgPool (x_pools x))"
    using assms(1,4) by (simp_all add: arith_setting_def exchange_ok_def)
  obtain cx where cx: "extractClientMdContexFromMd Background [] = Inr cx" using demo_extract by blast
  let ?h = "h cx (GoObj (ArgsObj a)) (GoObj (ReplyObj \<lparr>repC = 0\<rparr>))"
  have h: "hOutcome ?h = Returns None" "hReply ?h = GoObj (ReplyObj \<lparr>repC = f a\<rparr>)" "md_wf (sent_back ?h)"
    "length (encodeMetadata (sent_back ?h)) < 1000"
    using assms(3) by (simp_all add: computing_def Let_def)
  show "\<exists>r'. call_over cenv senv server x Background m (GoObj (ArgsObj a)) (GoObj (ReplyObj rep)) [] r =
      Some ((None, GoObj (ReplyObj \<lparr>repC = f a\<rparr>)), r') \<and> ready r'"
    using arith_call [OF s(1) assms(2) s(9) assms(5,6) refl h s(2-5) no_metadata(2) _ _ refl refl s(6-8) r,
        where ns = "[]" and ?rep0.0 = rep] no_metadata cx
    by (fastforce simp: call_over_def)
qed

lemmas call_over_multiplies = call_over_computes [OF _ _ _ _ mul_name]

section \<open>Loops of calls\<close>

text \<open>A loop whose calls succeed under an invariant logs the same lines in every round.\<close>

lemma call_loop_succeeds:
  assumes step: "\<And>i rep s. I s \<Longrightarrow> \<exists>s'. call i (GoObj (ReplyObj rep)) s = Some ((None, GoObj (ReplyObj res)), s') \<and> I s'"
  shows "I s \<Longrightarrow> \<exists>rep' s'. call_loop lg call i n (GoObj (ReplyObj rep)) s =
    Some (concat (replicate n (lg None (GoObj (ReplyObj res)))), GoObj (ReplyObj rep'), s') \<and> I s'"
proof (induction n arbitrary: i rep s)
  case (Suc n)
  obtain s1 where "call i (GoObj (ReplyObj rep)) s = Some ((None, GoObj (ReplyObj res)), s1)" "I s1" using step Suc.prems by blast
  then show ?case using Suc.IH [of s1 "Suc i" res] by auto
qed simp

lemma concat_singles: "concat (map (\<lambda>i. [g i]) xs) = map g xs"
  by (induction xs) simp_all

lemma singles: "concat (replicate n [x]) = replicate n x"
  by (induction n) simp_all

text \<open>A client with one connection that is between two calls.\<close>

definition one_ready :: "(arith, 'c, 'l) Client \<Rightarrow> bool" where
  "one_ready cl \<longleftrightarrow> \<not> subscriber cl \<and> (\<exists>r. defaultRPCClient cl = Some r \<and> ready r)"

lemma one_ready_call:
  assumes "multiplies rpc" "one_ready cl"
  shows "\<exists>cl'. call_through rpc Background ''Mul'' (GoObj (ArgsObj a)) (GoObj (ReplyObj rep)) [] cl =
    Some ((None, GoObj (ReplyObj \<lparr>repC = argA a * argB a\<rparr>)), cl') \<and> one_ready cl'"
proof -
  obtain r where r: "\<not> subscriber cl" "defaultRPCClient cl = Some r" "ready r" using assms(2) by (auto simp: one_ready_def)
  obtain r' where "rpc Background ''mul'' (GoObj (ArgsObj a)) (GoObj (ReplyObj rep)) [] r =
      Some ((None, GoObj (ReplyObj \<lparr>repC = argA a * argB a\<rparr>)), r')" "ready r'"
    using computesD [OF assms(1) r(3)] by blast
  then show ?thesis
    using call_through_default [OF r(1,2), of rpc Background "''Mul''"] r(1) by (fastforce simp: lower_names one_ready_def)
qed

lemma arith_NewClient_ready:
  assumes "net_Dial N ''tcp'' '':8972'' = Inr d"
  obtains cl :: arith_Client where "NewClient N txt ''tcp'' '':8972'' ''Arith'' [] = Some (Inr cl)" "one_ready cl"
    "defaultRPCClient cl = Some (arith_client d (\<lambda>_. None))"
  using arith_NewClient [OF assms, of "txt"] that by (fastforce simp: one_ready_def)

lemma multiplying_loop:
  assumes "\<And>i. multiplies (rpcs i)" "one_ready cl"
  shows "\<exists>rep' cl'. call_loop lg (\<lambda>i reply. call_through (rpcs i) Background ''Mul'' (GoObj (ArgsObj a)) reply []) i n
      (GoObj (ReplyObj rep)) cl =
    Some (concat (replicate n (lg None (GoObj (ReplyObj \<lparr>repC = argA a * argB a\<rparr>)))), GoObj (ReplyObj rep'), cl') \<and> one_ready cl'"
  by (rule call_loop_succeeds) (use one_ready_call [OF assms(1)] assms(2) in blast)+

section \<open>The keepalive example\<close>

definition keepalive_server :: "goerr option \<Rightarrow> (string + arith server_pub) option" where
  "keepalive_server = serve_arith [] [arith_method ''Mul'' metadata_Mul]"

lemma metadata_Mul_multiplies: "computing (\<lambda>a. argA a * argB a) metadata_Mul"
proof -
  have "length (encodeMetadata (Some [(''server'', ''hi this is server md'')])) < 1000" by code_simp
  then show ?thesis
    by (simp add: computing_def metadata_Mul_def sent_back_def md_wf_def smap_wf_def Let_def)
qed

lemma keepalive_example:
  assumes srv: "arith_setting cenv senv" "keepalive_server None = Some (Inr (server, pub))"
    and net: "\<forall>i. exchange_ok (xs i)" "net_Dial N ''tcp'' '':8972'' = Inr d"
  shows "keepalive_client N txt (\<lambda>i. call_over cenv senv server (xs i)) = Some (replicate 5 (Product 10 20 200))"
proof -
  let ?a = "\<lparr>argA = 10, argB = 20\<rparr>"
  have "has_method ''Mul'' metadata_Mul server"
    using servers_have_methods(3) [of server pub] srv(2) by (simp add: keepalive_server_def metadata_server_def)
  then have m: "multiplies (call_over cenv senv server (xs i))" for i
    using call_over_multiplies [OF srv(1) _ metadata_Mul_multiplies] net(1) by blast
  obtain cl :: arith_Client where cl: "NewClient N txt ''tcp'' '':8972'' ''Arith'' [] = Some (Inr cl)" "one_ready cl"
    using arith_NewClient_ready [OF net(2)] by blast
  obtain rep' cl' where "call_loop (\<lambda>err reply. log_error err @ [log_product ?a reply])
      (\<lambda>i reply. call_through (call_over cenv senv server (xs i)) Background ''Mul'' (GoObj (ArgsObj ?a)) reply []) 0 5
      (GoObj (ReplyObj \<lparr>repC = 0\<rparr>)) cl = Some (replicate 5 (Product 10 20 200), GoObj (ReplyObj rep'), cl')"
    using multiplying_loop [of "\<lambda>i. call_over cenv senv server (xs i)", OF m cl(2), of "\<lambda>err reply. log_error err @ [log_product ?a reply]" ?a 0 5 "\<lparr>repC = 0\<rparr>"]
    by (auto simp: log_error_def log_product_def singles)
  then show ?thesis using cl(1) by (simp add: keepalive_client_def)
qed

section \<open>The rate limit example\<close>

lemma guarded_call:
  assumes "multiplies rpc" "breaker g = None" "one_ready cl"
  shows "\<exists>g' cl'. guarded_through execute wait rpc Background ''Mul'' (GoObj (ArgsObj a)) (GoObj (ReplyObj rep)) (g, cl) =
    Some ((None, GoObj (ReplyObj \<lparr>repC = argA a * argB a\<rparr>)), g', cl') \<and> breaker g' = None \<and> one_ready cl'"
proof -
  obtain r where r: "\<not> subscriber cl" "defaultRPCClient cl = Some r" "ready r" using assms(3) by (auto simp: one_ready_def)
  obtain r' where "rpc Background ''mul'' (GoObj (ArgsObj a)) (GoObj (ReplyObj rep)) [] r =
      Some ((None, GoObj (ReplyObj \<lparr>repC = argA a * argB a\<rparr>)), r')" "ready r'"
    using computesD [OF assms(1) r(3)] by blast
  then show ?thesis using r assms(2)
    by (simp add: guarded_through_def guarded_Call_def Client_Call_def selectRPCClient_def lower_names one_ready_def Let_def)
qed

text \<open>The limiter only makes the calls wait: whatever bucket the library makes, all twenty return the product.\<close>

lemma ratelimit_example:
  assumes srv: "arith_setting cenv senv" "ratelimit_server None = Some (Inr (server, pub))"
    and net: "\<forall>i. exchange_ok (xs i)" "net_Dial N ''tcp'' '':8972'' = Inr d"
  shows "ratelimit_client N txt NewBucket wait (\<lambda>i. call_over cenv senv server (xs i)) = Some (replicate 20 (Product 10 20 200))"
proof -
  let ?a = "\<lparr>argA = 10, argB = 20\<rparr>" and ?conf = "\<lparr>FillInterval = 1, Capacity = 5, Quantum = 1\<rparr>"
  let ?call = "\<lambda>i reply. guarded_through (\<lambda>b f s. (fst (f s), b, snd (f s))) wait (call_over cenv senv server (xs i)) Background
    ''Mul'' (GoObj (ArgsObj ?a)) reply"
  let ?lg = "\<lambda>err reply. case err of None \<Rightarrow> [log_product ?a reply] | Some err \<Rightarrow> [Failed err]"
  have m: "multiplies (call_over cenv senv server (xs i))" for i
    using call_over_multiplies [OF srv(1) _ arith_computes(1)] servers_have_methods(2) [OF srv(2)] net(1) by blast
  obtain cl :: "(arith, unit, LimiterConfig) Client" where
    cl: "NewClient N txt ''tcp'' '':8972'' ''Arith'' [LimiterOption (Some ?conf)] = Some (Inr cl)" "one_ready cl" "limiterConfig cl = Some ?conf"
    using net(2) arith_client_ready(1) [of d "\<lambda>_. None"]
    by (simp add: NewClient_def apply_client_option_def NewRPCClient_def Dial_def one_ready_def arith_client_def arith_conf_def make_client_def)
  let ?g = "\<lparr>breaker = None :: unit option, bucket = Some (NewBucket ?conf)\<rparr>"
  have step: "\<exists>s'. ?call i (GoObj (ReplyObj rep)) s = Some ((None, GoObj (ReplyObj \<lparr>repC = 200\<rparr>)), s') \<and>
      (breaker (fst s') = (None :: unit option) \<and> one_ready (snd s'))"
    if "breaker (fst s) = None \<and> one_ready (snd s)" for i rep s
    using guarded_call [OF m, of "fst s" "snd s" _ wait i ?a rep] that by fastforce
  obtain last s' where "call_loop ?lg ?call 0 20 (GoObj (ReplyObj \<lparr>repC = 0\<rparr>)) (?g, cl) =
      Some (replicate 20 (Product 10 20 200), GoObj (ReplyObj last), s')"
    using call_loop_succeeds [of "\<lambda>s. breaker (fst s) = None \<and> one_ready (snd s)" ?call "\<lparr>repC = 200\<rparr>" "(?g, cl)" ?lg 0 20
        "\<lparr>repC = 0\<rparr>", OF step] cl(2) by (auto simp: log_product_def singles)
  then show ?thesis using cl(1,3) by (simp add: ratelimit_client_def SetRateLimiter_def)
qed

section \<open>The timeout example\<close>

text \<open>The method of its server with the seconds it sleeps before it returns.\<close>

definition timeout_Mul :: "int \<times> arith handler" where
  "timeout_Mul = (6, Mul)"

definition timeout_server :: "goerr option \<Rightarrow> (string + arith server_pub) option" where
  "timeout_server = serve_arith [] [arith_method ''Mul'' (snd timeout_Mul)]"

text \<open>
  A call with a deadline, in seconds, of a method that sleeps: the context expires first when the method sleeps longer. The
  time the messages travel is left out, and so are the heartbeats that share the stream with a call that waits this long.
\<close>

definition call_within :: "arith client_env \<Rightarrow> arith server_env \<Rightarrow> arith server \<Rightarrow> int \<Rightarrow> int \<Rightarrow> exchange \<Rightarrow> rpc" where
  "call_within cenv senv server deadline slept x =
    (if deadline < slept then expired_Call cenv (x_pooled x) (x_now x) else call_over cenv senv server x)"

text \<open>The late response to the first call of a client with one connection, and the caller's reply object after it.\<close>

definition response_comes ::
  "arith client_env \<Rightarrow> arith server_env \<Rightarrow> arith server \<Rightarrow> exchange \<Rightarrow> arith goval \<Rightarrow> arith_Client \<Rightarrow> (arith goval \<times> arith_Client) option" where
  "response_comes cenv senv server x reply cl = (case defaultRPCClient cl of
      None \<Rightarrow> None
    | Some r \<Rightarrow> map_option (\<lambda>r. (cReply (calls r ! 0), cl\<lparr>defaultRPCClient := Some r\<rparr>))
        (served_response cenv senv server (ce_comps cenv) 0 (x_ch1 x) (x_ch2 x) (x_up x) (x_down x) (x_pools x) 0 r))"

lemma late_multiplied:
  assumes "multiplies (call_over cenv senv server x)"
  shows "\<exists>r1 r2. expired_Call cenv (x_pooled x) (x_now x) Background ''mul'' (GoObj (ArgsObj a)) (GoObj (ReplyObj rep)) []
      (arith_client d vs) = Some ((Some ErrTimeOut, GoObj (ReplyObj rep)), r1) \<and>
    served_response cenv senv server (ce_comps cenv) 0 (x_ch1 x) (x_ch2 x) (x_up x) (x_down x) (x_pools x) 0 r1 = Some r2 \<and>
    cReply (calls r2 ! 0) = GoObj (ReplyObj \<lparr>repC = argA a * argB a\<rparr>) \<and> ready r2"
proof -
  obtain r' where r': "call_over cenv senv server x Background ''mul'' (GoObj (ArgsObj a)) (GoObj (ReplyObj rep)) [] (arith_client d vs) =
      Some ((None, GoObj (ReplyObj \<lparr>repC = argA a * argB a\<rparr>)), r')" "ready r'"
    using computesD [OF assms arith_client_ready(1) [of d vs]] by blast
  have c: "status (arith_client d vs) = ConnAvailable" "outbox (arith_client d vs) = []" "calls (arith_client d vs) = []"
    by (simp_all add: arith_client_def make_client_def)
  obtain r1 r2 where "expired_Call cenv (x_pooled x) (x_now x) Background ''mul'' (GoObj (ArgsObj a)) (GoObj (ReplyObj rep)) []
      (arith_client d vs) = Some ((Some ErrTimeOut, GoObj (ReplyObj rep)), r1)"
    "served_response cenv senv server (ce_comps cenv) 0 (x_ch1 x) (x_ch2 x) (x_up x) (x_down x) (x_pools x) 0 r1 = Some r2"
    "cReply (calls r2 ! 0) = GoObj (ReplyObj \<lparr>repC = argA a * argB a\<rparr>)" "r' = r2\<lparr>chans := chans r'\<rparr>"
    using expired_then_served [OF r'(1) [unfolded call_over_def] c(1)] c by auto
  moreover from this(4) have "ready r2" using r'(2) ready_chans by metis
  ultimately show ?thesis by blast
qed

text \<open>The timeout example: the server's method sleeps longer than the five seconds of the first call's context, so the call
  returns the timeout and the client logs it and the reply object as it was, 10 * 20 = 0. The response that comes in the pause
  leaves the client ready: the fifty calls after it return the product, each over a network of its own that delivers in any
  pieces. That the late response goes to the caller's reply object is \<open>late_multiplied\<close>.\<close>

theorem timeout_example:
  assumes srv: "arith_setting cenv senv" "timeout_server None = Some (Inr (server, pub))"
    and net: "exchange_ok x" "\<forall>i. exchange_ok (xs i)" "net_Dial N ''tcp'' '':8972'' = Inr d"
  shows "timeout_client N txt (call_within cenv senv server 5 (fst timeout_Mul) x) (response_comes cenv senv server x)
      (\<lambda>i. call_over cenv senv server (xs i)) =
    Some ([Failed ErrTimeOut, Product 10 20 0] @ replicate 50 (Product 25 15 375))"
proof -
  let ?a = "\<lparr>argA = 10, argB = 20\<rparr>" and ?b = "\<lparr>argA = 25, argB = 15\<rparr>" and ?r0 = "\<lparr>repC = 0\<rparr>"
  let ?exp = "expired_Call cenv (x_pooled x) (x_now x)"
  have "has_method ''Mul'' Mul server"
    using servers_have_methods(1) [of server pub] srv(2) by (simp add: timeout_server_def timeout_Mul_def basic_server_def)
  then have m: "multiplies (call_over cenv senv server y)" if "exchange_ok y" for y
    using call_over_multiplies [OF srv(1) _ arith_computes(1) that] by blast
  obtain cl :: arith_Client where cl: "NewClient N txt ''tcp'' '':8972'' ''Arith'' [] = Some (Inr cl)" "one_ready cl"
    "defaultRPCClient cl = Some (arith_client d (\<lambda>_. None))"
    using arith_NewClient_ready [OF net(3)] by blast
  obtain r1 r2 where late: "?exp Background ''mul'' (GoObj (ArgsObj ?a)) (GoObj (ReplyObj ?r0)) [] (arith_client d (\<lambda>_. None)) =
      Some ((Some ErrTimeOut, GoObj (ReplyObj ?r0)), r1)"
    "served_response cenv senv server (ce_comps cenv) 0 (x_ch1 x) (x_ch2 x) (x_up x) (x_down x) (x_pools x) 0 r1 = Some r2"
    "cReply (calls r2 ! 0) = GoObj (ReplyObj \<lparr>repC = 200\<rparr>)" "ready r2"
    using late_multiplied [OF m [OF net(1)], of ?a ?r0 d "\<lambda>_. None"] by auto
  let ?cl1 = "cl\<lparr>defaultRPCClient := Some r1\<rparr>" and ?cl2 = "cl\<lparr>defaultRPCClient := Some r2\<rparr>"
  have first: "call_through ?exp Background ''Mul'' (GoObj (ArgsObj ?a)) (GoObj (ReplyObj ?r0)) [] cl =
      Some ((Some ErrTimeOut, GoObj (ReplyObj ?r0)), ?cl1)"
    using call_through_default [of cl _ ?exp Background "''Mul''"] late(1) cl(2,3) by (simp add: lower_names one_ready_def)
  have second: "response_comes cenv senv server x (GoObj (ReplyObj ?r0)) ?cl1 = Some (GoObj (ReplyObj \<lparr>repC = 200\<rparr>), ?cl2)"
    using late(2,3) by (simp add: response_comes_def)
  have "one_ready ?cl2" using cl(2) late(4) by (simp add: one_ready_def)
  then obtain last cl3 where "call_loop (\<lambda>err reply. [log_product ?b reply])
      (\<lambda>i reply. call_through (call_over cenv senv server (xs i)) Background ''Mul'' (GoObj (ArgsObj ?b)) reply []) 1 50
      (GoObj (ReplyObj \<lparr>repC = 200\<rparr>)) ?cl2 = Some (replicate 50 (Product 25 15 375), GoObj (ReplyObj last), cl3)"
    using multiplying_loop [of "\<lambda>i. call_over cenv senv server (xs i)" ?cl2 "\<lambda>err reply. [log_product ?b reply]" ?b 1 50 "\<lparr>repC = 200\<rparr>"]
      m net(2) by (auto simp: log_product_def singles)
  then show ?thesis using cl(1) first second by (simp add: timeout_client_def call_within_def timeout_Mul_def log_error_def log_product_def)
qed

text \<open>A network, and a client and a server that run on it.\<close>

definition demo_exchange :: exchange where
  "demo_exchange = \<lparr>x_pooled = NewMessage, x_ch1 = None, x_ch2 = demo_choices, x_up = halves, x_down = halves,
     x_pools = arith_pools, x_now = 3\<rparr>"

lemma demo_setting: "arith_setting arith_client_env arith_env" "exchange_ok demo_exchange"
  using arith_libs_documented
  by (simp_all add: arith_setting_def arith_process_def arith_client_env_def arith_env_def compressors_ok_def exchange_ok_def
      demo_exchange_def delivers_def halves_def arith_pools_def pool_ok_def)

section \<open>The discovery example\<close>

text \<open>Its other two servers, at addresses of their own.\<close>

definition discovery_server2 :: "goerr option \<Rightarrow> goerr option \<Rightarrow> (string + arith server_pub) option" where
  "discovery_server2 newErr = serve_arith [SetEtcdPublisher newErr ''127.0.0.1:8973''] [arith_method ''Mul'' Mul]"

definition discovery_server3 :: "goerr option \<Rightarrow> goerr option \<Rightarrow> (string + arith server_pub) option" where
  "discovery_server3 newErr = serve_arith [SetEtcdPublisher newErr ''127.0.0.1:8974''] [arith_method ''Mul'' Mul]"

text \<open>Nodes of the service become connections between two calls; other nodes and deletions leave them so.\<close>

lemma table_run_ready:
  fixes c :: "(arith, 'c, 'l) Client"
  assumes "table_run (\<lambda>info c. snd (addNode N txt info c)) delNode evs c = Some c'" "distinct (client_nodes c)"
    "list_all ready (cachedClient c)" "\<forall>i. Inl i \<in> set evs \<longrightarrow> si_Name i = ''arith''"
  shows "list_all ready (cachedClient c') \<and> distinct (client_nodes c') \<and> subscriber c' = subscriber c \<and> selector c' = selector c"
  using assms
proof (induction evs arbitrary: c)
  case (Cons ev evs)
  obtain c1 where c1: "table_run (\<lambda>info c. snd (addNode N txt info c)) delNode evs c1 = Some c'" "distinct (client_nodes c1)"
    "list_all ready (cachedClient c1)" "subscriber c1 = subscriber c" "selector c1 = selector c"
  proof (cases ev)
    case (Inl i)
    then have i: "si_Name i = ''arith''" using Cons.prems(4) by simp
    then have "lower_name i" by (simp add: lower_name_def ToLower_def lower_char_def)
    then have d: "distinct (client_nodes (snd (addNode N txt i c)))"
      using registry_step_distinct [OF Cons.prems(2)] by (simp only: addNode_registry)
    have "list_all ready (cachedClient (snd (addNode N txt i c))) \<and> subscriber (snd (addNode N txt i c)) = subscriber c \<and>
        selector (snd (addNode N txt i c)) = selector c"
    proof (cases rule: addNode_cases [of N "txt" i c])
      case (new r)
      have "ready r" using new(2) i
        by (auto simp: NewRPCClient_def node_conf_def make_client_def ready_def ToLower_def lower_char_def split: if_splits sum.splits)
      then show ?thesis using new(1) Cons.prems(3) by simp
    qed (use Cons.prems(3) in simp)
    then show ?thesis using that [of "snd (addNode N txt i c)"] Cons.prems(1) Inl d by simp
  next
    case (Inr i)
    have dl: "delNode i c = Some (c\<lparr>cachedClient := filter (\<lambda>r. \<not> same_node i r) (cachedClient c)\<rparr>)"
      using delNode_distinct [of c i] Cons.prems(2) by (simp add: client_nodes_def)
    then show ?thesis using that Cons.prems(1-3) Inr
      by (simp add: client_nodes_def distinct_map_filter list_all_iff)
  qed
  show ?case using Cons.IH [OF c1(1-3)] Cons.prems(4) c1(4,5) by simp
qed simp

definition arith_values :: "json_lib \<Rightarrow> node_event list \<Rightarrow> bool" where
  "arith_values J evs \<longleftrightarrow> (\<forall>info. Inl info \<in> set (concat (map (parsed J) evs)) \<longrightarrow> si_Name info = ''arith'')"

lemma discovery_client_ready:
  assumes new: "NewDiscoveryClient J N txt newErr (Inr vs) sn [] = Some c"
    and watch: "WatchNodes J N txt evs c = Some c'"
    and vals: "arith_values J (map EventTypePut vs)" "arith_values J evs"
  shows "list_all ready (cachedClient (c' :: (arith, 'c, 'l) Client)) \<and> subscriber c' \<and> selector c' = Some NewRoundRobinSelector"
proof -
  define c0 :: "(arith, 'c, 'l) Client" where "c0 = \<lparr>cl_network = '''', cl_address = '''', cl_servicePath = ToLower sn, selectMode = RoundRobin,
    selector = Some NewRoundRobinSelector, cachedClient = [], subscriber = False, defaultRPCClient = None,
    cl_DialTimeout = 0, breakerConfig = None, limiterConfig = None\<rparr>"
  obtain e c1 where f: "fetch_loop J N txt vs c0 = (e, c1)" by fastforce
  have c1: "e = None" "c = c1\<lparr>subscriber := True\<rparr>"
    using new f by (auto simp: c0_def NewDiscoveryClient_def NewEtcdSubscriber_def FetchAllNodesInfo_def Let_def
        split: option.splits if_splits)
  have 1: "list_all ready (cachedClient c1)" "distinct (client_nodes c1)" "selector c1 = Some NewRoundRobinSelector"
    using table_run_ready [OF fetch_loop_run [of J N "txt" vs c0 c1]] vals(1) f c1(1)
    by (simp_all add: arith_values_def c0_def client_nodes_def)
  have 2: "list_all ready (cachedClient c)" "distinct (client_nodes c)" "selector c = Some NewRoundRobinSelector" "subscriber c"
    using 1 c1(2) by (simp_all add: client_nodes_def)
  show ?thesis
    using table_run_ready [OF watch [unfolded WatchNodes_run] 2(2,1)] vals(2) 2(3,4)
    by (simp add: arith_values_def)
qed

lemma arith_lower:
  assumes "arith_values J (map EventTypePut vs)" "arith_values J evs"
  shows "\<forall>ev \<in> set (map EventTypePut vs @ evs). lower_event J ev"
proof -
  have "lower_name info" if "si_Name info = ''arith''" for info
    using that by (simp add: lower_name_def ToLower_def lower_char_def)
  then show ?thesis using assms by (fastforce simp: arith_values_def lower_event_def)
qed

lemma discovery_client_timeout:
  assumes "NewDiscoveryClient J N txt newErr (Inr vs) sn [] = Some (c :: ('x, 'c, 'l) Client)"
  shows "cl_DialTimeout c = 0"
proof -
  have "cl_DialTimeout (snd (fetch_loop J N txt vs c)) = cl_DialTimeout c" for c :: "('x, 'c, 'l) Client"
    by (induction vs arbitrary: c)
      (auto simp: addNode_def Let_def split: sum.splits prod.splits option.splits)
  then have keeps: "fetch_loop J N txt vs c0 = (e, c1) \<Longrightarrow> cl_DialTimeout c1 = cl_DialTimeout c0" for e and c0 c1 :: "('x, 'c, 'l) Client"
    by (metis snd_conv)
  show ?thesis using assms
    by (auto simp: NewDiscoveryClient_def NewEtcdSubscriber_def FetchAllNodesInfo_def Let_def
        split: option.splits if_splits prod.splits dest!: keeps)
qed

text \<open>A call stays with its connection.\<close>

lemma handle_response_address:
  assumes "handle_response cenv m client = Some client'"
  shows "address client' = address client"
proof -
  have d: "address (call_done i c) = address c" for i and c :: "'a RPCClient"
    by (simp add: call_done_def Let_def split: prod.splits)
  have f: "address (fail_call e i c) = address c" for e i and c :: "'a RPCClient"
    by (simp add: fail_call_def d)
  have "address c' = address c" if "deliver cenv m i c = Some c'" for i c c'
    using that by (auto simp: deliver_def Let_def d f split: option.splits prod.splits)
  with assms show ?thesis by (auto simp: handle_response_def Let_def d split: if_splits option.splits)
qed

lemma remote_Call_address:
  assumes "remote_Call cenv senv server comps maxlen pooled ch1 ch2 up down w now c m args reply opts client = Some (res, client')"
    "status client = ConnAvailable"
  shows "address client' = address client"
proof -
  obtain i client1 client2 err where 1: "call_start now c m args reply opts client = Some (i, client1)"
    "remote_call cenv senv server comps maxlen pooled ch1 ch2 up down w i (cseq client1) client1 = Some client2"
    "call_await False (length (chans client)) client2 = Some (err, client')"
    using assms(1) by (auto simp: remote_Call_def bind_eq_Some_conv)
  have "address client1 = address client" using 1(1) assms(2)
    by (auto simp: call_start_def Go_def new_call_def send_register_def Let_def simp del: protocol_consts split: if_splits prod.splits)
  moreover have "address client2 = address client1"
  proof -
    obtain client3 where 3: "send_transmit cenv pooled None i (cseq client1) client1 = Some client3"
      "served_response cenv senv server comps maxlen ch1 ch2 up down w (length (outbox client1)) client3 = Some client2"
      using 1(2) by (auto simp: remote_call_def split: option.splits)
    have "address (fail_call e j c) = address c" for e j and c :: "'a RPCClient"
      by (simp add: fail_call_def call_done_def Let_def split: prod.splits)
    then have "address client3 = address client1" using 3(1)
      by (auto simp: send_transmit_def drop_pending_def Let_def split: option.splits prod.splits sum.splits)
    then show ?thesis using 3(2)
      by (auto simp: served_response_def split: option.splits prod.splits list.splits if_splits dest: handle_response_address)
  qed
  moreover have "address client' = address client2"
    using 1(3) by (auto simp: call_await_def split: prod.splits list.splits if_splits)
  ultimately show ?thesis by simp
qed

text \<open>The calls over a table of servers: each goes to the server at the address of its connection.\<close>

definition call_at :: "arith client_env \<Rightarrow> arith server_env \<Rightarrow> (string \<Rightarrow> arith server) \<Rightarrow> exchange \<Rightarrow> rpc" where
  "call_at cenv senv servers x = (\<lambda>c m args reply opts r. call_over cenv senv (servers (address r)) x c m args reply opts r)"

text \<open>The server at an address has a \<open>Mul\<close> that returns the value of \<open>f\<close>.\<close>

definition serves :: "arith server \<Rightarrow> (Args \<Rightarrow> 64 word) \<Rightarrow> bool" where
  "serves server f \<longleftrightarrow> (\<exists>h. has_method ''Mul'' h server \<and> computing f h)"

lemma call_at_result:
  assumes "arith_setting cenv senv" "serves (servers (address r)) f" "exchange_ok x" "ready r"
  shows "\<exists>r'. call_at cenv senv servers x Background ''mul'' (GoObj (ArgsObj a)) (GoObj (ReplyObj rep)) [] r =
    Some ((None, GoObj (ReplyObj \<lparr>repC = f a\<rparr>)), r') \<and> ready r' \<and> address r' = address r"
proof -
  have "computes ''mul'' f (call_over cenv senv (servers (address r)) x)"
    using assms(1-3) call_over_computes [OF _ _ _ _ mul_name] by (auto simp: serves_def)
  from computesD [OF this assms(4), of a rep] obtain r' where
    r': "call_over cenv senv (servers (address r)) x Background ''mul'' (GoObj (ArgsObj a)) (GoObj (ReplyObj rep)) [] r =
      Some ((None, GoObj (ReplyObj \<lparr>repC = f a\<rparr>)), r')" "ready r'" by blast
  moreover have "address r' = address r"
    using remote_Call_address [OF r'(1) [unfolded call_over_def]] assms(4) by (simp add: ready_def)
  ultimately show ?thesis by (simp add: call_at_def)
qed

text \<open>
  A client over the addresses \<open>as\<close>, all between two calls, of which \<open>i\<close> calls were made: the selector is at the
  \<open>i\<close>-th connection, counted round.
\<close>

definition rotating :: "string list \<Rightarrow> nat \<Rightarrow> (arith, 'c, 'l) Client \<Rightarrow> bool" where
  "rotating as i cl \<longleftrightarrow> subscriber cl \<and> as \<noteq> [] \<and> map address (cachedClient cl) = as \<and> list_all ready (cachedClient cl) \<and>
     (\<exists>lst. selector cl = Some lst \<and> lst mod length as = i mod length as)"

lemma rotating_call:
  assumes set: "arith_setting cenv senv" "exchange_ok x" "\<forall>a \<in> set as. serves (servers a) (f a)" and cl: "rotating as i cl"
  shows "\<exists>cl'. call_through (call_at cenv senv servers x) Background ''Mul'' (GoObj (ArgsObj a)) (GoObj (ReplyObj rep)) [] cl =
    Some ((None, GoObj (ReplyObj \<lparr>repC = f (as ! (Suc i mod length as)) a\<rparr>)), cl') \<and> rotating as (Suc i) cl'"
proof -
  let ?rs = "cachedClient cl" and ?k = "Suc i mod length as"
  obtain lst where c: "subscriber cl" "as \<noteq> []" "map address ?rs = as" "list_all ready ?rs"
    "selector cl = Some lst" "lst mod length as = i mod length as"
    using cl by (auto simp: rotating_def)
  have len: "length as = length ?rs" using c(3) by (metis length_map)
  have k: "?k = (lst + 1) mod length ?rs" "?k < length ?rs"
    using c(2,6) len mod_Suc_eq [of lst "length as"] mod_Suc_eq [of i "length as"] by (simp_all flip: length_greater_0_conv)
  have ready: "ready (?rs ! ?k)" using c(4) k(2) by (simp add: list_all_length)
  have addr: "address (?rs ! ?k) = as ! ?k" using c(3) k(2) nth_map [of ?k ?rs address] by simp
  have "first_from ?rs ?k 0 ?k" using ready k(2) by (simp add: first_from_def ready_def)
  then have pick: "Pick ?rs lst = Some (Some ?k, ?k)" using k by (intro Pick_found [of ?rs lst 0]) auto
  have "serves (servers (address (?rs ! ?k))) (f (as ! ?k))" using set(3) addr k(2) len by simp
  then obtain r' where r': "call_at cenv senv servers x Background ''mul'' (GoObj (ArgsObj a)) (GoObj (ReplyObj rep)) [] (?rs ! ?k) =
      Some ((None, GoObj (ReplyObj \<lparr>repC = f (as ! ?k) a\<rparr>)), r')" "ready r'" "address r' = as ! ?k"
    using call_at_result [OF set(1) _ set(2) ready] addr by metis
  have "map address (?rs[?k := r']) = as" using c(3) r'(3) by (simp add: map_update)
  moreover have "list_all ready (?rs[?k := r'])" using c(4) r'(2) k(2) by (auto simp: list_all_length nth_list_update)
  ultimately show ?thesis using c pick r'(1)
    by (simp add: call_through_def Client_Call_def selectRPCClient_def lower_names rotating_def)
qed

text \<open>A loop whose calls succeed with a result of their own.\<close>

lemma call_loop_indexed:
  assumes step: "\<And>i rep s. I i s \<Longrightarrow> \<exists>s'. call i (GoObj (ReplyObj rep)) s = Some ((None, GoObj (ReplyObj (res i))), s') \<and> I (Suc i) s'"
  shows "I i s \<Longrightarrow> \<exists>rep' s'. call_loop lg call i n (GoObj (ReplyObj rep)) s =
    Some (concat (map (\<lambda>j. lg None (GoObj (ReplyObj (res j)))) [i..<i + n]), GoObj (ReplyObj rep'), s')"
proof (induction n arbitrary: i rep s)
  case (Suc n)
  obtain s1 where "call i (GoObj (ReplyObj rep)) s = Some ((None, GoObj (ReplyObj (res i))), s1)" "I (Suc i) s1" using step Suc.prems by blast
  then show ?case using Suc.IH [of "Suc i" s1 "res i"] by (auto simp: upt_conv_Cons simp del: upt_Suc)
qed simp

text \<open>C37. The discovery example: a client made from the nodes in etcd makes its hundred calls round robin. Let \<open>ns\<close> be the
  nodes of the service that its construction and the events of the first ten seconds leave in the registry, at least one.
  Then the \<open>i\<close>-th call goes to the node after the one before it, in cyclic order and beginning with the second, and the
  client logs what that node's own server computes, if the server at each of these addresses has the method \<open>Mul\<close> (the
  servers of the example all multiply).\<close>

theorem discovery_example:
  assumes net: "arith_setting cenv senv" "\<forall>i. exchange_ok (xs i)"
    and new: "NewDiscoveryClient J N txt newErr (Inr vs) ''Arith'' [] = Some (c :: arith_Client)"
    and vals: "arith_values J (map EventTypePut vs)" "arith_values J evs"
    and nodes: "ns = registered J N txt 0 vs evs" "ns \<noteq> []" and srv: "\<forall>n \<in> set ns. serves (servers (snd n)) (f (snd n))"
  shows "discovery_client J N txt newErr (Inr vs) evs (\<lambda>i. call_at cenv senv servers (xs i)) =
    Some (map (\<lambda>i. Product 25 15 (f (snd (ns ! ((i + 1) mod length ns))) \<lparr>argA = 25, argB = 15\<rparr>)) [0..<100])"
proof -
  let ?a = "\<lparr>argA = 25, argB = 15\<rparr>" and ?as = "map snd ns"
  let ?call = "\<lambda>i reply. call_through (call_at cenv senv servers (xs i)) Background ''Mul'' (GoObj (ArgsObj ?a)) (GoObj (ReplyObj \<lparr>repC = 0\<rparr>)) []"
  let ?res = "\<lambda>i. \<lparr>repC = f (?as ! (Suc i mod length ?as)) ?a\<rparr>"
  obtain c' where c': "WatchNodes J N txt evs c = Some c'" "client_nodes c' = ns"
    using follows_registry [OF new arith_lower [OF vals]] discovery_client_timeout [OF new] nodes(1) by auto
  have start: "rotating ?as 0 c'"
    using discovery_client_ready [OF new c'(1) vals] c'(2) nodes(2)
    by (auto simp: rotating_def client_nodes_def NewRoundRobinSelector_def)
  have "\<forall>a \<in> set ?as. serves (servers a) (f a)" using srv by simp
  then have step: "\<exists>cl'. ?call i (GoObj (ReplyObj rep)) cl = Some ((None, GoObj (ReplyObj (?res i))), cl') \<and> rotating ?as (Suc i) cl'"
    if "rotating ?as i cl" for i rep and cl :: arith_Client
    using rotating_call [OF net(1) _ _ that, of "xs i" servers f ?a "\<lparr>repC = 0\<rparr>"] net(2) by blast
  obtain rep' cl' where "call_loop (\<lambda>err reply. [log_product ?a reply]) ?call 0 100 (GoObj (ReplyObj \<lparr>repC = 0\<rparr>)) c' =
      Some (concat (map (\<lambda>i. [log_product ?a (GoObj (ReplyObj (?res i)))]) [0..<0 + 100]), GoObj (ReplyObj rep'), cl')"
    using call_loop_indexed [of "rotating ?as" ?call ?res 0 c' "\<lambda>err reply. [log_product ?a reply]" 100 "\<lparr>repC = 0\<rparr>", OF step] start
    by blast
  moreover have "map (\<lambda>i. log_product ?a (GoObj (ReplyObj (?res i)))) [0..<100] =
      map (\<lambda>i. Product 25 15 (f (snd (ns ! ((i + 1) mod length ns))) ?a)) [0..<100]"
    using nodes(2) by (auto simp: log_product_def nth_map simp del: upt_Suc)
  ultimately show ?thesis using new c'(1) by (simp add: discovery_client_def concat_singles Let_def del: upt_Suc)
qed

lemma discovery_server_starts: "\<exists>s pub. discovery_server None None = Some (Inr (s, pub))"
  by (simp add: discovery_server_def serve_arith_def NewServer_def SetEtcdPublisher_def apply_server_option_def NewEtcdPublisher_def
      Serve_def Arith_registered arith_methods lower_names Let_def)

text \<open>The node that the example's server publishes, found by the example's client.\<close>

definition arith_node :: ServiceInfo where
  "arith_node = \<lparr>si_Name = ''arith'', si_Addr = ''127.0.0.1:8972'', si_Network = ''tcp''\<rparr>"

text \<open>A second server whose \<open>Mul\<close> adds, to tell the two apart.\<close>

definition adding_server :: "(string + arith server_pub) option" where
  "adding_server = serve_arith [SetEtcdPublisher None ''127.0.0.1:8973''] [arith_method ''Mul'' Add] None"

lemma adding_server: "\<exists>s pub. adding_server = Some (Inr (s, pub)) \<and> serves s (\<lambda>a. argA a + argB a)"
proof -
  have "\<exists>s pub. adding_server = Some (Inr (s, pub)) \<and> has_method ''Mul'' Add s"
    by (simp add: adding_server_def serve_arith_def NewServer_def SetEtcdPublisher_def apply_server_option_def NewEtcdPublisher_def
        Serve_def Arith_registered arith_methods lower_names has_method_def Let_def)
  then show ?thesis using arith_computes(2) by (auto simp: serves_def)
qed

theorem discovery_example_witness:
  "\<exists>s1 pub1 s2 pub2. discovery_server None None = Some (Inr (s1, pub1)) \<and> adding_server = Some (Inr (s2, pub2)) \<and>
    discovery_client demo_json plain_net (\<lambda>_. ''error'') None (Inr [info_Marshal demo_json arith_node])
      [EventTypePut (info_Marshal demo_json (arith_node\<lparr>si_Addr := ''127.0.0.1:8973''\<rparr>)), EventTypeDelete []]
      (\<lambda>i. call_at arith_client_env arith_env (\<lambda>a. if a = ''127.0.0.1:8972'' then s1 else s2) demo_exchange) =
    Some (map (\<lambda>i. if even i then Product 25 15 40 else Product 25 15 375) [0..<100])"
proof -
  let ?n2 = "arith_node\<lparr>si_Addr := ''127.0.0.1:8973''\<rparr>" and ?J = demo_json and ?a1 = "''127.0.0.1:8972''" and ?a2 = "''127.0.0.1:8973''"
  let ?v1 = "info_Marshal ?J arith_node" and ?v2 = "info_Marshal ?J ?n2"
  obtain s1 pub1 where s1: "discovery_server None None = Some (Inr (s1, pub1))" using discovery_server_starts by blast
  then have m1: "serves s1 (\<lambda>a. argA a * argB a)"
    using servers_have_methods(5) arith_computes(1) by (auto simp: serves_def)
  obtain s2 pub2 where s2: "adding_server = Some (Inr (s2, pub2))" "serves s2 (\<lambda>a. argA a + argB a)" using adding_server by blast
  have j: "info_Unmarshal ?J ?v1 = Inr arith_node" "info_Unmarshal ?J ?v2 = Inr ?n2" "\<exists>e. info_Unmarshal ?J [] = Inl e"
    using demo_json_documented by (auto simp: json_documented_def)
  then have p: "parsed ?J (EventTypePut ?v1) = [Inl arith_node]" "parsed ?J (EventTypePut ?v2) = [Inl ?n2]" "parsed ?J (EventTypeDelete []) = []"
    by (auto simp: parsed_def)
  have vals: "arith_values ?J (map EventTypePut [?v1])" "arith_values ?J [EventTypePut ?v2, EventTypeDelete []]"
    using p by (simp_all add: arith_values_def arith_node_def)
  have dials: "dials_node plain_net (\<lambda>_. ''error'') 0 arith_node" "dials_node plain_net (\<lambda>_. ''error'') 0 ?n2"
    by (simp_all add: dials_node_def arith_node_def Dial_def plain_net_def)
  have ns: "[(''arith'', ?a1), (''arith'', ?a2)] = registered ?J plain_net (\<lambda>_. ''error'') 0 [?v1] [EventTypePut ?v2, EventTypeDelete []]"
    using p dials by (simp add: registered_def node_of_def arith_node_def)
  obtain c :: arith_Client where c: "NewDiscoveryClient ?J plain_net (\<lambda>_. ''error'') None (Inr [?v1]) ''Arith'' [] = Some c"
    using j(1) by (simp add: NewDiscoveryClient_def NewEtcdSubscriber_def FetchAllNodesInfo_def ValueToServiceInfo_def addNode_def
        NewRPCClient_def Dial_def plain_net_def arith_node_def)
  have srv: "\<forall>n \<in> set [(''arith'', ?a1), (''arith'', ?a2)]. serves (if snd n = ?a1 then s1 else s2)
      (if snd n = ?a1 then \<lambda>a. argA a * argB a else (\<lambda>a. argA a + argB a))"
    using m1 s2(2) by simp
  have "(\<lambda>i. Product 25 15 ((if snd ([(''arith'', ?a1), (''arith'', ?a2)] ! ((i + 1) mod length [(''arith'', ?a1), (''arith'', ?a2)])) = ?a1
        then \<lambda>a. argA a * argB a else (\<lambda>a. argA a + argB a)) \<lparr>argA = 25, argB = 15\<rparr>)) =
      (\<lambda>i::nat. if even i then Product 25 15 40 else Product 25 15 375)"
  proof -
    have "(i + 1) mod length [(''arith'', ?a1), (''arith'', ?a2)] = (if even i then 1 else 0)" for i :: nat
    proof -
      have "(i + 1) mod 2 = (if even i then 1 else 0)" by presburger
      then show ?thesis by (simp only: list.size add_0 One_nat_def add_Suc numeral_2_eq_2)
    qed
    note idx = this
    show ?thesis by (rule ext) (simp only: idx, simp)
  qed
  then have "discovery_client ?J plain_net (\<lambda>_. ''error'') None (Inr [?v1]) [EventTypePut ?v2, EventTypeDelete []]
      (\<lambda>i. call_at arith_client_env arith_env (\<lambda>a. if a = ?a1 then s1 else s2) demo_exchange) =
    Some (map (\<lambda>i. if even i then Product 25 15 40 else Product 25 15 375) [0..<100])"
    using discovery_example [OF demo_setting(1) _ c vals ns _ srv, of "\<lambda>_. demo_exchange"] demo_setting(2)
    by (simp del: upt_Suc)
  with s1 s2(1) show ?thesis by blast
qed

end
