(* ===== verification/ExampleBreaker.thy ===== *)
theory ExampleBreaker
  imports ExampleLoops
begin

text \<open>
  \<^verbatim>\<open>examples/circuit_breaker\<close>: a client behind a circuit breaker calls a method that takes longer than its deadline and then
  one that returns at once. The breaker is that of the library \<^verbatim>\<open>gobreaker\<close>, a parameter here: it either runs a call and
  hands on its result, or refuses it with an error.
\<close>

section \<open>The programs\<close>

text \<open>The method \<open>Mul\<close> of its server with the seconds it sleeps before it returns.\<close>

definition circuit_breaker_Mul :: "int \<times> arith handler" where
  "circuit_breaker_Mul = (5, Mul)"

definition circuit_breaker_server :: "goerr option \<Rightarrow> (string + arith server_pub) option" where
  "circuit_breaker_server = serve_arith [] [arith_method ''Add'' Add, arith_method ''Mul'' (snd circuit_breaker_Mul)]"

text \<open>The fields of \<^verbatim>\<open>gobreaker.Settings\<close> that the client sets, without the callback that logs; the timeout in seconds.\<close>

record breaker_settings =
  st_Name :: string
  st_MaxRequests :: u32
  st_Timeout :: int

type_synonym 'b breaker_Execute = "'b \<Rightarrow> ((arith goval \<times> arith RPCClient) option \<Rightarrow> goerr option \<times> (arith goval \<times> arith RPCClient) option)
  \<Rightarrow> (arith goval \<times> arith RPCClient) option \<Rightarrow> goerr option \<times> 'b \<times> (arith goval \<times> arith RPCClient) option"

text \<open>
  \<^verbatim>\<open>main\<close> of \<^verbatim>\<open>circuit_breaker/client.go\<close>. The contexts of two seconds add nothing to the metadata; \<open>rpcs i\<close> is the \<open>i\<close>-th call
  and \<open>paused i\<close> what happens to the reply object and to the connection in the second before it. \<open>None\<close> is a panic or a call
  that never returns.
\<close>

type_synonym pause_effect = "arith goval \<times> arith RPCClient \<Rightarrow> (arith goval \<times> arith RPCClient) option"

definition paused_call :: "'b breaker_Execute \<Rightarrow> pause_effect \<Rightarrow> rpc \<Rightarrow> string \<Rightarrow> Args \<Rightarrow> arith goval
  \<Rightarrow> ('b, unit) guards \<times> (arith, 'c, 'l) Client \<Rightarrow> ((goerr option \<times> arith goval) \<times> ('b, unit) guards \<times> (arith, 'c, 'l) Client) option" where
  "paused_call execute paused rpc m args reply gc = (case gc of (g, cl) \<Rightarrow>
     (case map_option (\<lambda>r. paused (reply, r)) (defaultRPCClient cl) of
        Some (Some (reply, r)) \<Rightarrow>
          guarded_through execute id rpc Background m (GoObj (ArgsObj args)) reply (g, cl\<lparr>defaultRPCClient := Some r\<rparr>)
      | _ \<Rightarrow> None))"

definition log_sum :: "Args \<Rightarrow> arith goval \<Rightarrow> logged" where
  "log_sum a reply = Sum (argA a) (argB a) (case reply of GoObj (ReplyObj r) \<Rightarrow> repC r | _ \<Rightarrow> 0)"

definition circuit_breaker_client ::
  "net_lib \<Rightarrow> (goerr \<Rightarrow> string) \<Rightarrow> (breaker_settings \<Rightarrow> 'b) \<Rightarrow> 'b breaker_Execute
     \<Rightarrow> (nat \<Rightarrow> pause_effect) \<Rightarrow> (nat \<Rightarrow> rpc) \<Rightarrow> logged list option" where
  "circuit_breaker_client N txt NewBreaker execute paused rpcs =
    (case (NewClient N txt ''tcp'' '':8972'' ''Arith''
        [BreakerOption (Some \<lparr>st_Name = ''test_circuit'', st_MaxRequests = 5, st_Timeout = 5\<rparr>)]
        :: (goerr + (arith, breaker_settings, unit) Client) option) of
       Some (Inr cl) \<Rightarrow>
         (let args = \<lparr>argA = 10, argB = 20\<rparr>; reply = \<lparr>repC = 0\<rparr>;
              g = SetCircuitBreaker NewBreaker (breakerConfig cl) \<lparr>breaker = None, bucket = (None :: unit option)\<rparr> in
          case call_loop (\<lambda>err reply. case err of Some err \<Rightarrow> [Failed err] | None \<Rightarrow> [log_product args reply])
              (\<lambda>i. paused_call execute (paused i) (rpcs i) ''Mul'' args)
              0 20 (GoObj (ReplyObj reply)) (g, cl) of
            None \<Rightarrow> None
          | Some (entries, reply, s) \<Rightarrow>
              map_option (\<lambda>r. entries @ fst r)
                (call_loop (\<lambda>err reply. case err of Some err \<Rightarrow> [Failed err] | None \<Rightarrow> [log_sum args reply])
                  (\<lambda>i. paused_call execute (paused i) (rpcs i) ''Add'' args) 20 50 reply s))
     | _ \<Rightarrow> None)"

section \<open>Calls that time out\<close>

definition breaker_documented :: "'b breaker_Execute \<Rightarrow> bool" where
  "breaker_documented execute \<longleftrightarrow> (\<forall>b f s. (\<exists>b'. execute b f s = (fst (f s), b', snd (f s))) \<or> (\<exists>e b'. execute b f s = (Some e, b', s)))"

lemma breaker_documentedD:
  "breaker_documented execute \<Longrightarrow>
    (\<exists>b'. execute b f s = (fst (f s), b', snd (f s))) \<or> (\<exists>e b'. execute b f s = (Some e, b', s))"
  by (simp add: breaker_documented_def)

text \<open>
  A late response, handled in a pause. Every call of the client has the one reply object; \<open>reply\<close> is its value, that the
  response may change.
\<close>

definition late_response :: "arith client_env \<Rightarrow> message \<Rightarrow> pause_effect" where
  "late_response cenv m = (\<lambda>(reply, r).
     map_option (\<lambda>r'. (case map_of (pending r) (Seq (mheader m)) of Some i \<Rightarrow> if i < length (calls r) then cReply (calls r' ! i) else reply | None \<Rightarrow> reply, r'))
       (handle_response cenv m (r\<lparr>calls := map (\<lambda>c. c\<lparr>cReply := reply\<rparr>) (calls r)\<rparr>)))"

fun late_responses :: "arith client_env \<Rightarrow> message list \<Rightarrow> pause_effect" where
  "late_responses cenv [] s = Some s"
| "late_responses cenv (m # ms) s = Option.bind (late_response cenv m s) (late_responses cenv ms)"

text \<open>What the decoder does with a reply: it may fail, and the object is a reply still.\<close>

definition keeps_replies :: "arith codec_libs \<Rightarrow> bool" where
  "keeps_replies libs \<longleftrightarrow> (\<forall>data rep. \<exists>err rep'. msgpack_Decode libs data (GoObj (ReplyObj rep)) = (err, GoObj (ReplyObj rep')))"

definition late_ok :: "message \<Rightarrow> bool" where
  "late_ok m \<longleftrightarrow> receiver m \<and> \<not> IsHeartbeat (mheader m) \<and> SerializeType (mheader m) = MsgPack"

lemma deliver_late:
  assumes "ce_codecs cenv = Codecs" "keeps_replies (ce_libs cenv)" "late_ok m"
    and "i < length (calls r) \<Longrightarrow> cReply (calls r ! i) = GoObj (ReplyObj rep)"
  shows "\<exists>r'. deliver cenv m i r = Some r' \<and> (i < length (calls r) \<longrightarrow> (\<exists>rep'. cReply (calls r' ! i) = GoObj (ReplyObj rep')))"
proof -
  have cd: "calls (call_done i c) = calls c" for c :: "arith RPCClient"
    by (simp add: call_done_def Let_def split: prod.splits)
  have failed: "calls (fail_call e i c) = (calls c)[i := (calls c ! i)\<lparr>cError := Some e\<rparr>]" for e and c :: "arith RPCClient"
    by (simp add: fail_call_def cd)
  obtain err rep1 where d: "codec_Decode (ce_libs cenv) MsgpackCodec (Payload m) (cReply (calls r ! i)) = Some (err, rep1)"
    by (simp add: codec_Decode_def MsgpackCodec_Decode_def prod_eq_iff)
  have k: "\<exists>rep'. rep1 = GoObj (ReplyObj rep')" if "i < length (calls r)"
    using d assms(2) assms(4) [OF that] unfolding keeps_replies_def
    by (metis MsgpackCodec_Decode_def codec_Decode_def codec.simps option.inject prod.inject)
  have o: "cReply call' = cReply call" if "fold apply_option opts (call, vs) = (call', vs')" for opts vs vs' and call call' :: "arith Call"
    using fold_option_same [of opts "(call, vs)"] that by simp
  show ?thesis
    using assms(1,3,4) d k by (auto simp: deliver_def late_ok_def Let_def cd failed simp del: protocol_consts dest!: o
      split: option.splits prod.splits)
qed

lemma late_response_ready:
  assumes "ce_codecs cenv = Codecs" "keeps_replies (ce_libs cenv)" "late_ok m" "ready r"
  shows "\<exists>rep' r'. late_response cenv m (GoObj (ReplyObj rep), r) = Some (GoObj (ReplyObj rep'), r') \<and> ready r'"
proof -
  let ?r = "r\<lparr>calls := map (\<lambda>c. c\<lparr>cReply := GoObj (ReplyObj rep)\<rparr>) (calls r)\<rparr>"
  let ?i = "map_of (pending r) (Seq (mheader m))"
  obtain r' where r': "handle_response cenv m ?r = Some r'"
    "\<And>i. ?i = Some i \<Longrightarrow> i < length (calls r) \<Longrightarrow> \<exists>rep'. cReply (calls r' ! i) = GoObj (ReplyObj rep')"
  proof (cases ?i)
    case None
    then show ?thesis using that assms(3) by (simp add: handle_response_def late_ok_def Let_def)
  next
    case (Some i)
    let ?r1 = "?r\<lparr>pending := AList.delete (Seq (mheader m)) (pending ?r), resp := m\<rparr>"
    have "i < length (calls ?r1) \<Longrightarrow> cReply (calls ?r1 ! i) = GoObj (ReplyObj rep)" by simp
    from deliver_late [OF assms(1-3) this] obtain r' where
      "deliver cenv m i ?r1 = Some r'" "i < length (calls r) \<longrightarrow> (\<exists>rep'. cReply (calls r' ! i) = GoObj (ReplyObj rep'))"
      by auto
    then show ?thesis using that Some assms(3) by (auto simp: handle_response_def late_ok_def Let_def)
  qed
  have "ready r'" using handle_response_keeps [OF r'(1)] assms(3,4) by (simp add: ready_def late_ok_def)
  then show ?thesis using r' by (auto simp: late_response_def split: option.split)
qed

lemma late_responses_ready:
  assumes "ce_codecs cenv = Codecs" "keeps_replies (ce_libs cenv)"
  shows "list_all late_ok ms \<Longrightarrow> ready r \<Longrightarrow>
    \<exists>rep' r'. late_responses cenv ms (GoObj (ReplyObj rep), r) = Some (GoObj (ReplyObj rep'), r') \<and> ready r'"
proof (induction ms arbitrary: rep r)
  case (Cons m ms)
  obtain rep1 r1 where 1: "late_response cenv m (GoObj (ReplyObj rep), r) = Some (GoObj (ReplyObj rep1), r1)" "ready r1"
    using late_response_ready [OF assms, of m r rep] Cons.prems by auto
  then show ?case using Cons.IH [of r1 rep1] Cons.prems(1) by simp
qed simp

definition times_out :: "rpc \<Rightarrow> bool" where
  "times_out rpc \<longleftrightarrow> (\<forall>a rep r. ready r \<longrightarrow> (\<exists>r'. rpc Background ''mul'' (GoObj (ArgsObj a)) (GoObj (ReplyObj rep)) [] r =
     Some ((Some ErrTimeOut, GoObj (ReplyObj rep)), r') \<and> ready r'))"

lemma expired_times_out:
  assumes "ce_codecs cenv = Codecs" "msgpack_documented (ce_libs cenv)" "clean pooled"
  shows "times_out (expired_Call cenv pooled now)"
  unfolding times_out_def
proof (intro allI impI)
  fix a rep r assume r: "ready r"
  let ?call = "fresh_call Background ''mul'' (GoObj (ArgsObj a)) (GoObj (ReplyObj rep)) []"
  define r1 where "r1 = started now ?call r"
  have start: "call_start now Background ''mul'' (GoObj (ArgsObj a)) (GoObj (ReplyObj rep)) [] r = Some (length (calls r), r1)"
    using arith_start [OF r, of now Background "''mul''" "GoObj (ArgsObj a)" "GoObj (ReplyObj rep)" "[]"] by (simp add: r1_def)
  have f: "length (calls r) < length (calls r1)" "cSerializeType (calls r1 ! length (calls r)) = MsgPack"
    "cArgs (calls r1 ! length (calls r)) = GoObj (ArgsObj a)" "cReply (calls r1 ! length (calls r)) = GoObj (ReplyObj rep)"
    "status r1 = status r" "servicePath r1 = servicePath r" "resp r1 = resp r"
    by (simp_all add: r1_def started_def fresh_call_def del: protocol_consts)
  have h: "hdr_wf (mheader pooled)" using assms(3) by (simp add: clean_def new_header_fields)
  have c: "ce_codecs cenv (cSerializeType (calls r1 ! length (calls r))) = Some MsgpackCodec"
    "codec_Encode (ce_libs cenv) MsgpackCodec (cArgs (calls r1 ! length (calls r))) = Some (msgpacked (ce_libs cenv) (ArgsObj a), None)"
    "cSerializeType (calls r1 ! length (calls r)) AND mask 4 = cSerializeType (calls r1 ! length (calls r))"
    "cSerializeType (calls r1 ! length (calls r)) \<noteq> SerializeNone"
    using f assms(1) msgpack_codec(1) [OF assms(2)] MsgPack_facts by (simp_all del: protocol_consts)
  show "\<exists>r'. expired_Call cenv pooled now Background ''mul'' (GoObj (ArgsObj a)) (GoObj (ReplyObj rep)) [] r =
      Some ((Some ErrTimeOut, GoObj (ReplyObj rep)), r') \<and> ready r'"
    using client_sends [OF f(1) h c(3,4,1,2), of "cseq r1"] start f r
    by (auto simp: expired_Call_def call_await_def ready_def simp del: protocol_consts)
qed

section \<open>Behind the breaker\<close>

text \<open>A loop whose calls return under an invariant, each with an outcome that satisfies \<open>Q\<close>.\<close>

lemma call_loop_each:
  assumes step: "\<And>i rep s. I s \<Longrightarrow> a \<le> i \<Longrightarrow> i < b \<Longrightarrow>
    \<exists>err rep' s'. call i (GoObj (ReplyObj rep)) s = Some ((err, GoObj (ReplyObj rep')), s') \<and> I s' \<and> Q err rep'"
  shows "I s \<Longrightarrow> a \<le> i \<Longrightarrow> i + n \<le> b \<Longrightarrow> \<exists>outs rep' s'. call_loop lg call i n (GoObj (ReplyObj rep)) s =
    Some (concat (map (\<lambda>(err, rep). lg err (GoObj (ReplyObj rep))) outs), GoObj (ReplyObj rep'), s') \<and> I s' \<and> length outs = n \<and>
    (\<forall>(err, rep) \<in> set outs. Q err rep)"
proof (induction n arbitrary: i rep s)
  case (Suc n)
  obtain err rep1 s1 where 1: "call i (GoObj (ReplyObj rep)) s = Some ((err, GoObj (ReplyObj rep1)), s1)" "I s1" "Q err rep1"
    using step [of s i rep] Suc.prems by auto
  have "a \<le> Suc i" "Suc i + n \<le> b" using Suc.prems by simp_all
  from Suc.IH [OF 1(2) this, of rep1] obtain outs rep' s' where
    "call_loop lg call (Suc i) n (GoObj (ReplyObj rep1)) s1 =
      Some (concat (map (\<lambda>(err, rep). lg err (GoObj (ReplyObj rep))) outs), GoObj (ReplyObj rep'), s')" "I s'" "length outs = n"
    "\<forall>(err, rep) \<in> set outs. Q err rep" by blast
  with 1 show ?case by (intro exI [of _ "(err, rep1) # outs"]) simp
qed simp

lemma all_failed:
  "\<forall>(err, rep) \<in> set outs. err \<noteq> None \<Longrightarrow>
    concat (map (\<lambda>(err, rep). case err of Some err \<Rightarrow> [Failed err] | None \<Rightarrow> f rep) outs) = map Failed (map (\<lambda>(err, rep). the err) outs)"
  by (induction outs) auto

lemma one_entry_each:
  "concat (map (\<lambda>(err, rep). case err of Some err \<Rightarrow> [Failed err] | None \<Rightarrow> [f rep]) outs) =
    map (\<lambda>(err, rep). case err of Some err \<Rightarrow> Failed err | None \<Rightarrow> f rep) outs"
  by (induction outs) (auto split: option.split)

lemma sum_entries:
  assumes "\<forall>(err, rep) \<in> set outs. err = None \<longrightarrow> repC rep = c"
  shows "\<forall>out \<in> set (map (\<lambda>(err, rep). case err of Some err \<Rightarrow> Failed err | None \<Rightarrow> log_sum a (GoObj (ReplyObj rep))) outs).
    out = Sum (argA a) (argB a) c \<or> (\<exists>err. out = Failed err)"
proof
  fix out assume "out \<in> set (map (\<lambda>(err, rep). case err of Some err \<Rightarrow> Failed err | None \<Rightarrow> log_sum a (GoObj (ReplyObj rep))) outs)"
  then obtain err rep where "(err, rep) \<in> set outs"
    "out = (case err of Some err \<Rightarrow> Failed err | None \<Rightarrow> log_sum a (GoObj (ReplyObj rep)))" by auto
  then show "out = Sum (argA a) (argB a) c \<or> (\<exists>err. out = Failed err)"
    using assms by (cases err) (auto simp: log_sum_def)
qed

lemma breaker_call:
  assumes "breaker_documented execute" "breaker g \<noteq> None" "bucket g = None" "one_ready cl" "ToLower m = ml" "ml \<noteq> []"
    and pause: "\<And>rep r. ready r \<Longrightarrow> \<exists>rep' r'. paused (GoObj (ReplyObj rep), r) = Some (GoObj (ReplyObj rep'), r') \<and> ready r'"
    and rpc: "\<And>rep r. ready r \<Longrightarrow> \<exists>err rep' r'. rpc Background ml (GoObj (ArgsObj a)) (GoObj (ReplyObj rep)) [] r =
      Some ((err, GoObj (ReplyObj rep')), r') \<and> ready r' \<and> Q err rep'"
    and refused: "\<And>e rep. Q (Some e) rep"
  shows "\<exists>err rep' g' cl'. paused_call execute paused rpc m a (GoObj (ReplyObj rep0)) (g, cl) =
    Some ((err, GoObj (ReplyObj rep')), g', cl') \<and> breaker g' \<noteq> None \<and> bucket g' = None \<and> one_ready cl' \<and> Q err rep'"
proof -
  obtain r0 where r0: "\<not> subscriber cl" "defaultRPCClient cl = Some r0" "ready r0" using assms(4) by (auto simp: one_ready_def)
  obtain rep r where p: "paused (GoObj (ReplyObj rep0), r0) = Some (GoObj (ReplyObj rep), r)" "ready r" using pause [OF r0(3)] by blast
  obtain err rep' r' where c: "rpc Background ml (GoObj (ArgsObj a)) (GoObj (ReplyObj rep)) [] r = Some ((err, GoObj (ReplyObj rep')), r')"
    "ready r'" "Q err rep'"
    using rpc [OF p(2)] by blast
  obtain b where b: "breaker g = Some b" using assms(2) by blast
  let ?f = "\<lambda>s. case s of None \<Rightarrow> (None, None) | Some (reply, r) \<Rightarrow> (case rpc Background ml (GoObj (ArgsObj a)) reply [] r of
      None \<Rightarrow> (None, None) | Some ((err, reply), r) \<Rightarrow> (err, Some (reply, r)))"
  let ?s = "Some (GoObj (ReplyObj rep), r)"
  have fs: "?f ?s = (err, Some (GoObj (ReplyObj rep'), r'))" using c(1) by simp
  have "(\<exists>b'. execute b ?f ?s = (fst (?f ?s), b', snd (?f ?s))) \<or> (\<exists>e b'. execute b ?f ?s = (Some e, b', ?s))"
    using assms(1) by (rule breaker_documentedD)
  then consider b' where "execute b ?f ?s = (err, b', Some (GoObj (ReplyObj rep'), r'))" | e b' where "execute b ?f ?s = (Some e, b', ?s)"
    unfolding fs fst_conv snd_conv by (elim disjE exE) blast+
  then show ?thesis
  proof cases
    case 1
    then show ?thesis using r0 p assms(3,5,6) b c
      by (simp add: paused_call_def guarded_through_def guarded_Call_def Client_Call_def selectRPCClient_def one_ready_def Let_def)
  next
    case 2
    then show ?thesis using r0 p assms(3,5,6) b refused
      by (simp add: paused_call_def guarded_through_def guarded_Call_def Client_Call_def selectRPCClient_def one_ready_def Let_def)
  qed
qed


text \<open>
  The circuit breaker example: while the server's method sleeps longer than the deadline, all twenty calls fail, by the timeout
  or refused by the breaker; the fifty calls after them log the sum or an error, and nothing panics or hangs, whatever
  late responses come in the pauses.
\<close>

theorem circuit_breaker_example:
  assumes srv: "arith_setting cenv senv" "circuit_breaker_server None = Some (Inr (server, pub))"
    and libs: "keeps_replies (ce_libs cenv)" "breaker_documented execute"
    and net: "\<forall>i. exchange_ok (xs i)" "net_Dial N ''tcp'' '':8972'' = Inr d" "\<forall>i. list_all late_ok (ms i)"
    and rpcs: "rpcs = (\<lambda>i. call_within cenv senv server 2 (if i < 20 then fst circuit_breaker_Mul else 0) (xs i))"
  shows "\<exists>errs outs. circuit_breaker_client N txt NewBreaker execute (\<lambda>i. late_responses cenv (ms i)) rpcs = Some (map Failed errs @ outs) \<and>
    length errs = 20 \<and> length outs = 50 \<and> (\<forall>out \<in> set outs. out = Sum 10 20 30 \<or> (\<exists>err. out = Failed err))"
proof -
  let ?a = "\<lparr>argA = 10, argB = 20\<rparr>" and ?conf = "\<lparr>st_Name = ''test_circuit'', st_MaxRequests = 5, st_Timeout = 5\<rparr>"
  let ?I = "\<lambda>s. breaker (fst s) \<noteq> None \<and> bucket (fst s) = None \<and> one_ready (snd s)"
  let ?call = "\<lambda>m i. paused_call execute (late_responses cenv (ms i)) (rpcs i) m ?a"
  let ?lg1 = "\<lambda>err reply. case err of Some err \<Rightarrow> [Failed err] | None \<Rightarrow> [log_product ?a reply]"
  let ?lg2 = "\<lambda>err reply. case err of Some err \<Rightarrow> [Failed err] | None \<Rightarrow> [log_sum ?a reply]"
  have slow: "\<forall>i < 20. rpcs i = expired_Call cenv (x_pooled (xs i)) (x_now (xs i))"
    and fast: "\<forall>i \<ge> 20. rpcs i = call_over cenv senv server (xs i)"
    by (simp_all add: rpcs call_within_def circuit_breaker_Mul_def)
  have codecs: "ce_codecs cenv = Codecs" "msgpack_documented (ce_libs cenv)"
    using srv(1) by (simp_all add: arith_setting_def arith_process_def)
  have late: "\<exists>rep' r'. late_responses cenv (ms i) (GoObj (ReplyObj rep), r) = Some (GoObj (ReplyObj rep'), r') \<and> ready r'"
    if "ready r" for i rep r
    using late_responses_ready [OF codecs(1) libs(1)] net(3) that by blast
  have expires: "times_out (rpcs i)" if "i < 20" for i
    using expired_times_out [OF codecs] net(1) slow that by (simp add: exchange_ok_def)
  have "has_method ''Add'' Add server"
    using servers_have_methods(2) [of server pub] srv(2) by (simp add: circuit_breaker_server_def circuit_breaker_Mul_def ratelimit_server_def)
  then have adds: "computes ''add'' (\<lambda>a. argA a + argB a) (rpcs i)" if "i \<ge> 20" for i
    using call_over_computes [OF srv(1) _ arith_computes(2), of "''Add''" server "xs i" "''add''"] net(1) fast that
    by (simp add: lower_names)
  have step1: "\<exists>err rep' s'. ?call ''Mul'' i (GoObj (ReplyObj rep)) s = Some ((err, GoObj (ReplyObj rep')), s') \<and> ?I s' \<and> err \<noteq> None"
    if "?I s" "0 \<le> i" "i < 20" for i rep s
    using breaker_call [OF libs(2), of "fst s" "snd s" "''Mul''" "''mul''" "late_responses cenv (ms i)" "rpcs i" ?a
      "\<lambda>err rep. err \<noteq> None" rep] late expires [OF that(3)] that(1) by (fastforce simp: lower_names times_out_def)
  have step2: "\<exists>err rep' s'. ?call ''Add'' i (GoObj (ReplyObj rep)) s = Some ((err, GoObj (ReplyObj rep')), s') \<and> ?I s' \<and>
      (err = None \<longrightarrow> repC rep' = 30)"
    if "?I s" "20 \<le> i" "i < 70" for i rep s
    using breaker_call [OF libs(2), of "fst s" "snd s" "''Add''" "''add''" "late_responses cenv (ms i)" "rpcs i" ?a
      "\<lambda>err rep. err = None \<longrightarrow> repC rep = 30" rep] late adds [OF that(2)] that(1) by (fastforce simp: lower_names computes_def)
  let ?g = "\<lparr>breaker = Some (NewBreaker ?conf), bucket = (None :: unit option)\<rparr>"
  obtain cl :: "(arith, breaker_settings, unit) Client" where
    cl: "NewClient N txt ''tcp'' '':8972'' ''Arith'' [BreakerOption (Some ?conf)] = Some (Inr cl)" "one_ready cl" "breakerConfig cl = Some ?conf"
    using net(2) arith_client_ready(1) [of d "\<lambda>_. None"]
    by (simp add: NewClient_def apply_client_option_def NewRPCClient_def Dial_def one_ready_def arith_client_def arith_conf_def make_client_def)
  have "?I (?g, cl)" using cl(2) by simp
  from call_loop_each [of ?I 0 20 "?call ''Mul''" "\<lambda>err rep. err \<noteq> None" _ 0 20 ?lg1 "\<lparr>repC = 0\<rparr>", OF step1 this]
  obtain outs1 rep1 s1 where 1: "call_loop ?lg1 (?call ''Mul'') 0 20 (GoObj (ReplyObj \<lparr>repC = 0\<rparr>)) (?g, cl) =
      Some (concat (map (\<lambda>(err, rep). ?lg1 err (GoObj (ReplyObj rep))) outs1), GoObj (ReplyObj rep1), s1)" "?I s1" "length outs1 = 20"
    "\<forall>(err, rep) \<in> set outs1. err \<noteq> None"
    by auto
  from call_loop_each [of ?I 20 70 "?call ''Add''" "\<lambda>err rep. err = None \<longrightarrow> repC rep = 30" s1 20 50 ?lg2 rep1, OF step2 1(2)]
  obtain outs2 rep2 s2 where 2: "call_loop ?lg2 (?call ''Add'') 20 50 (GoObj (ReplyObj rep1)) s1 =
      Some (concat (map (\<lambda>(err, rep). ?lg2 err (GoObj (ReplyObj rep))) outs2), GoObj (ReplyObj rep2), s2)" "length outs2 = 50"
    "\<forall>(err, rep) \<in> set outs2. err = None \<longrightarrow> repC rep = 30"
    by auto
  have entries1: "concat (map (\<lambda>(err, rep). ?lg1 err (GoObj (ReplyObj rep))) outs1) = map Failed (map (\<lambda>(err, rep). the err) outs1)"
    using 1(4) by (rule all_failed)
  let ?outs = "map (\<lambda>(err, rep). case err of Some err \<Rightarrow> Failed err | None \<Rightarrow> log_sum ?a (GoObj (ReplyObj rep))) outs2"
  have entries2: "concat (map (\<lambda>(err, rep). ?lg2 err (GoObj (ReplyObj rep))) outs2) = ?outs"
    by (rule one_entry_each)
  have client: "circuit_breaker_client N txt NewBreaker execute (\<lambda>i. late_responses cenv (ms i)) rpcs =
      Some (map Failed (map (\<lambda>(err, rep). the err) outs1) @ ?outs)"
    using 1(1) 2(1) cl(1,3) unfolding entries1 entries2 by (simp add: circuit_breaker_client_def SetCircuitBreaker_def)
  have "\<forall>out \<in> set ?outs. out = Sum 10 20 30 \<or> (\<exists>err. out = Failed err)"
    using sum_entries [OF 2(3), of ?a] by simp
  then show ?thesis using client 1(3) 2(2) by (intro exI [of _ "map (\<lambda>(err, rep). the err) outs1"] exI [of _ ?outs]) simp
qed


text \<open>Both hypotheses about the libraries can hold: the library of the other examples, and a breaker that runs every call.\<close>

lemma breaker_libs_exist: "keeps_replies arith_libs" "breaker_documented (\<lambda>b f s. (fst (f s), b, snd (f s)))"
  by (auto simp: keeps_replies_def arith_libs_def plain_msgpack_Decode_def breaker_documented_def split: if_splits)

end
