(* ===== verification/ExampleMetrics.thy ===== *)
theory ExampleMetrics
  imports ExampleLoops Metrics
begin

text \<open>
  \<^verbatim>\<open>examples/metrics/server.go\<close>: a method that counts its calls and observes how long they take. The registry and the vectors
  of prometheus are those of \<open>Metrics\<close>, the \<^verbatim>\<open>/metrics\<close> page is left to \<^verbatim>\<open>net/http\<close>.
\<close>

section \<open>The program\<close>

record metric_opts =
  Namespace :: string
  Subsystem :: string
  mo_Name :: string
  Help :: string

datatype 'f opts = CounterOpts metric_opts | HistogramOpts metric_opts "'f list"

type_synonym ('v, 'f, 'p) arith_prom = "('f opts, 'v, 'f, 'p) prom"
type_synonym 'v arith_metrics = "'v PrometheusCounter \<times> 'v PrometheusHistogram"

definition fieldKeys :: "string list" where
  "fieldKeys = [''method'']"

text \<open>The package's variables are made before \<^verbatim>\<open>main\<close>. \<open>None\<close> is a panic of \<^verbatim>\<open>MustRegister\<close>.\<close>

definition arith_metrics :: "('v, 'f :: numeral, 'p) arith_prom \<Rightarrow> 'p \<Rightarrow> ('v arith_metrics \<times> 'p) option" where
  "arith_metrics P p =
    (case NewCounterFrom P (CounterOpts \<lparr>Namespace = ''easy_micro'', Subsystem = ''arith'', mo_Name = ''request_count'',
        Help = ''Number of requests received.''\<rparr>) fieldKeys p of
       None \<Rightarrow> None
     | Some (requestCount, p) \<Rightarrow>
         map_option (\<lambda>(requestLatency, p). ((requestCount, requestLatency), p))
           (NewHistogramFrom P (HistogramOpts \<lparr>Namespace = ''easy_micro'', Subsystem = ''arith'', mo_Name = ''request_latency_microseconds'',
              Help = ''Total duration of requests in microseconds.''\<rparr> [1, 2, 3, 5, 10]) fieldKeys p))"

text \<open>
  The deferred function of \<open>Mul\<close> over the arrays of label values and the registry; \<open>took\<close> is the time since the method
  began. \<open>False\<close> is a panic.
\<close>

definition deferred_metrics ::
  "('v, 'f :: numeral, 'p) arith_prom \<Rightarrow> (nat \<Rightarrow> nat \<Rightarrow> nat) \<Rightarrow> 'v arith_metrics \<Rightarrow> 'f \<Rightarrow> arrays \<times> 'p \<Rightarrow> bool \<times> arrays \<times> 'p" where
  "deferred_metrics P grow mv took s = (case (mv, s) of ((requestCount, requestLatency), (h, p)) \<Rightarrow>
     (case variadic [''method'', ''mul''] h of
        (lvs, h) \<Rightarrow>
          (case Counter_With grow requestCount lvs h of
             (c, h) \<Rightarrow>
               (case Counter_Add P h c 1 p of
                  None \<Rightarrow> (False, h, p)
                | Some p \<Rightarrow>
                    (case Histogram_With grow requestLatency lvs h of
                       (x, h) \<Rightarrow>
                         (case Histogram_Observe P h x took p of
                            None \<Rightarrow> (False, h, p)
                          | Some p \<Rightarrow> (True, h, p)))))))"

text \<open>The method sleeps before it multiplies, which is part of \<open>took\<close>; \<open>why\<close> is the text of a panic in prometheus.\<close>

definition metrics_Mul ::
  "('v, 'f :: numeral, 'p) arith_prom \<Rightarrow> (nat \<Rightarrow> nat \<Rightarrow> nat) \<Rightarrow> string \<Rightarrow> 'v arith_metrics \<Rightarrow> 'f \<Rightarrow> arrays \<times> 'p
     \<Rightarrow> ctx \<Rightarrow> arith goval \<Rightarrow> arith goval \<Rightarrow> arith handler_result \<times> arrays \<times> 'p" where
  "metrics_Mul P grow why mv took s c args reply = (case (args, reply) of
      (GoObj (ArgsObj a), GoObj (ReplyObj r)) \<Rightarrow>
        (case deferred_metrics P grow mv took s of
           (ok, s) \<Rightarrow>
             (\<lparr>hOutcome = (if ok then Returns None else Panics why), hArg = args,
               hReply = GoObj (ReplyObj (r\<lparr>repC := argA a * argB a\<rparr>)), hSent = []\<rparr>, s))
    | _ \<Rightarrow> (wrong_types args reply, s))"

text \<open>\<^verbatim>\<open>main\<close>, whose method runs in the state that a call finds.\<close>

definition metrics_server ::
  "('v, 'f :: numeral, 'p) arith_prom \<Rightarrow> (nat \<Rightarrow> nat \<Rightarrow> nat) \<Rightarrow> string \<Rightarrow> 'v arith_metrics \<Rightarrow> 'f \<Rightarrow> arrays \<times> 'p
     \<Rightarrow> goerr option \<Rightarrow> (string + arith server_pub) option" where
  "metrics_server P grow why mv took s =
     serve_arith [] [arith_method ''Mul'' (\<lambda>c args reply. fst (metrics_Mul P grow why mv took s c args reply))]"

section \<open>What is counted\<close>

text \<open>The vectors take the labels that they were declared with.\<close>

definition takes_method_label :: "('v, 'f :: numeral, 'p) arith_prom \<Rightarrow> (smap \<Rightarrow> 'p \<Rightarrow> 'p) \<Rightarrow> (smap \<Rightarrow> 'f \<Rightarrow> 'p \<Rightarrow> 'p) \<Rightarrow> bool" where
  "takes_method_label P tally observe \<longleftrightarrow> (\<forall>o' o'' m x p.
     vec_Add P (NewVec P o' fieldKeys) [(''method'', m)] 1 p = Some (tally [(''method'', m)] p) \<and>
     vec_Observe P (NewVec P o'' fieldKeys) [(''method'', m)] x p = Some (observe [(''method'', m)] x p))"

definition mul_label :: smap where
  "mul_label = [(''method'', ''mul'')]"

lemma makeLabels_mul: "makeLabels [''method'', ''mul''] = Some mul_label"
  by (simp add: makeLabels_def mul_label_def)

lemma arith_metrics_fields:
  assumes "arith_metrics P p0 = Some ((c, x), p)"
  shows "c_lvs c = nil_slice" "h_lvs x = nil_slice" "\<exists>oc. cv c = NewVec P oc fieldKeys" "\<exists>ox. hv x = NewVec P ox fieldKeys"
  using assms by (auto simp: arith_metrics_def NewCounterFrom_def NewHistogramFrom_def NewCounter_def NewHistogram_def Let_def
      split: option.splits)

text \<open>Labels with no values yet get the values of the call, in an array of their own; the call's slice is as before.\<close>

lemma With_nil:
  assumes "grows grow" "slice_ok h a" "contents h a = [k, v]" "slen a = 2" "LabelValues_With grow nil_slice a h = (lvs, h')"
  shows "contents h' lvs = [k, v]" "contents h' a = [k, v]" "slice_ok h' a"
proof -
  have app: "str_append grow nil_slice [k, v] h = (lvs, h')" using assms(3-5) by (simp add: LabelValues_With_def)
  have n: "slice_ok h nil_slice" "contents h nil_slice = []" by (simp_all add: nil_slice_def slice_ok_def contents_def)
  show "contents h' lvs = [k, v]" using str_append_ok(2) [OF n(1) assms(1) app] n(2) by simp
  have "h' = h @ [contents h nil_slice @ [k, v] @ replicate (grow 0 2 - 2) '''']"
    using app by (auto simp: str_append_def nil_slice_def Let_def numeral_2_eq_2)
  then show "contents h' a = [k, v]" "slice_ok h' a"
    using assms(2-4) by (auto simp: contents_def slice_ok_def nth_append)
qed

text \<open>A call counts itself and observes its time, under the label of its method.\<close>

lemma deferred_metrics_counts:
  assumes "arith_metrics P p0 = Some (mv, p1)" "grows grow" "takes_method_label P tally observe"
  shows "\<exists>h'. deferred_metrics P grow mv took (h, p) = (True, h', observe mul_label took (tally mul_label p))"
proof -
  obtain c x where mv: "mv = (c, x)" by (cases mv)
  note m = arith_metrics_fields [OF assms(1) [unfolded mv]]
  obtain a h1 where a: "variadic [''method'', ''mul''] h = (a, h1)" by fastforce
  have a1: "slice_ok h1 a" "contents h1 a = [''method'', ''mul'']" "slen a = 2"
    using variadic_ok(1-3) [OF _ a, of nil_slice] by (simp_all add: nil_slice_def slice_ok_def)
  obtain lvs h2 where w: "LabelValues_With grow nil_slice a h1 = (lvs, h2)" by fastforce
  note w1 = With_nil [OF assms(2) a1 w]
  obtain lvs' h3 where w': "LabelValues_With grow nil_slice a h2 = (lvs', h3)" by fastforce
  note w2 = With_nil [OF assms(2) w1(3,2) a1(3) w']
  have add: "Counter_Add P h2 \<lparr>cv = cv c, c_lvs = lvs\<rparr> 1 p = Some (tally mul_label p)"
    using m(3) assms(3) w1(1) by (auto simp: Counter_Add_def makeLabels_mul takes_method_label_def mul_label_def)
  have obs: "Histogram_Observe P h3 \<lparr>hv = hv x, h_lvs = lvs'\<rparr> took q = Some (observe mul_label took q)" for q
    using m(4) assms(3) w2(1) by (auto simp: Histogram_Observe_def makeLabels_mul takes_method_label_def mul_label_def)
  show ?thesis using add obs w w' m(1,2)
    by (simp add: deferred_metrics_def mv a Counter_With_def Histogram_With_def)
qed

text \<open>Calls one after the other, with the state that each leaves.\<close>

fun metrics_calls ::
  "('v, 'f :: numeral, 'p) arith_prom \<Rightarrow> (nat \<Rightarrow> nat \<Rightarrow> nat) \<Rightarrow> string \<Rightarrow> 'v arith_metrics \<Rightarrow> (Args \<times> 'f) list \<Rightarrow> arrays \<times> 'p
     \<Rightarrow> arith handler_result list \<times> arrays \<times> 'p" where
  "metrics_calls P grow why mv [] s = ([], s)"
| "metrics_calls P grow why mv ((a, took) # cs) s =
    (case metrics_Mul P grow why mv took s Background (GoObj (ArgsObj a)) (GoObj (ReplyObj \<lparr>repC = 0\<rparr>)) of
       (r, s) \<Rightarrow> (case metrics_calls P grow why mv cs s of (rs, s) \<Rightarrow> (r # rs, s)))"

text \<open>Whatever capacity the runtime gives the slices: every call returns what \<open>Mul\<close> of the basic example returns, and the
  registry has seen each call counted once and observed once, in order, all under the label of the method.\<close>

theorem metrics_count_calls:
  assumes "arith_metrics P p0 = Some (mv, p1)" "grows grow" "takes_method_label P tally observe"
  shows "\<exists>h'. metrics_calls P grow why mv cs (h, p) =
    (map (\<lambda>(a, took). Mul Background (GoObj (ArgsObj a)) (GoObj (ReplyObj \<lparr>repC = 0\<rparr>))) cs,
     h', fold (\<lambda>(a, took) p. observe mul_label took (tally mul_label p)) cs p)"
proof (induction cs arbitrary: h p)
  case (Cons call cs)
  obtain a took where call: "call = (a, took)" by (cases call)
  obtain h1 where "deferred_metrics P grow mv took (h, p) = (True, h1, observe mul_label took (tally mul_label p))"
    using deferred_metrics_counts [OF assms] by blast
  then show ?case using Cons.IH [of h1 "observe mul_label took (tally mul_label p)"] by (auto simp: call metrics_Mul_def Mul_def)
qed simp

text \<open>A client's call of the method returns the product.\<close>

theorem metrics_multiplies:
  assumes srv: "arith_setting cenv senv" "metrics_server P grow why mv took (h, p) None = Some (Inr (server, pub))"
    and prom: "arith_metrics P p0 = Some (mv, p1)" "grows grow" "takes_method_label P tally observe"
    and net: "exchange_ok x"
  shows "multiplies (call_over cenv senv server x)"
proof -
  let ?Mul = "\<lambda>c args reply. fst (metrics_Mul P grow why mv took (h, p) c args reply)"
  have "computing (\<lambda>a. argA a * argB a) ?Mul"
    using deferred_metrics_counts [OF prom, of took h p]
    by (auto simp: computing_def metrics_Mul_def sent_back_def md_wf_def encodeMetadata_def)
  moreover have "has_method ''Mul'' ?Mul server"
    using srv(2) by (auto simp: metrics_server_def serve_arith_def NewServer_def Arith_registered arith_methods Serve_def
        has_method_def lower_names Let_def)
  ultimately show ?thesis using call_over_multiplies [OF srv(1)] net by blast
qed


text \<open>A registry that keeps what it is given: three calls, in the order they were made.\<close>

definition list_prom :: "(unit, nat, (smap \<times> nat option) list) arith_prom" where
  "list_prom = \<lparr>NewVec = \<lambda>_ _. (), MustRegister = \<lambda>_ p. Some p, vec_Add = \<lambda>_ ls _ p. Some (p @ [(ls, None)]),
     vec_Set = \<lambda>_ _ _ p. Some p, vec_Observe = \<lambda>_ ls x p. Some (p @ [(ls, Some x)])\<rparr>"

lemma three_calls_counted:
  "\<exists>mv. arith_metrics list_prom [] = Some (mv, []) \<and>
    snd (snd (metrics_calls list_prom doubling why mv [(a, 1), (b, 7), (c, 2)] ([], []))) =
      [(mul_label, None), (mul_label, Some 1), (mul_label, None), (mul_label, Some 7), (mul_label, None), (mul_label, Some 2)]"
proof -
  obtain mv where mv: "arith_metrics list_prom [] = Some (mv, [])"
    by (simp add: arith_metrics_def NewCounterFrom_def NewHistogramFrom_def list_prom_def Let_def)
  have "takes_method_label list_prom (\<lambda>ls p. p @ [(ls, None)]) (\<lambda>ls x p. p @ [(ls, Some x)])"
    by (simp add: takes_method_label_def list_prom_def)
  from metrics_count_calls [OF mv grows_doubling this, of why "[(a, 1), (b, 7), (c, 2)]" "[]" "[]"] mv show ?thesis by auto
qed

end
