(* ===== verification/NetUtil.thy ===== *)
theory NetUtil
  imports Strconv
begin

text \<open>
  \<^verbatim>\<open>util/net.go\<close>: \<open>GetFreePort\<close> listens on port 0 of the loopback address and reads the port from the address that the
  operating system gave the listener. \<open>SplitHostPort\<close> is \<^verbatim>\<open>net.SplitHostPort\<close>.
\<close>

section \<open>Addresses\<close>

definition addr_error :: "string \<Rightarrow> string \<Rightarrow> goerr" where
  "addr_error addr why = ErrText (if addr = '''' then why else ''address '' @ addr @ '': '' @ why)"

text \<open>The position of the first and of the last occurrence of a character.\<close>

fun index_char :: "char \<Rightarrow> string \<Rightarrow> nat option" where
  "index_char c [] = None"
| "index_char c (x # xs) = (if x = c then Some 0 else map_option Suc (index_char c xs))"

fun last_char :: "char \<Rightarrow> string \<Rightarrow> nat option" where
  "last_char c [] = None"
| "last_char c (x # xs) = (case last_char c xs of
      Some i \<Rightarrow> Some (Suc i)
    | None \<Rightarrow> (if x = c then Some 0 else None))"

text \<open>After the last colon is found at \<open>i\<close> and the host's part, which ends before \<open>k\<close>, is fine.\<close>

definition split_rest :: "string \<Rightarrow> nat \<Rightarrow> string \<Rightarrow> nat \<Rightarrow> nat \<Rightarrow> goerr + string \<times> string" where
  "split_rest hostport i host j k =
    (if index_char (CHR ''['') (drop j hostport) \<noteq> None then Inl (addr_error hostport ''unexpected '[' in address'')
     else if index_char (CHR '']'') (drop k hostport) \<noteq> None then Inl (addr_error hostport ''unexpected ']' in address'')
     else Inr (host, drop (Suc i) hostport))"

definition SplitHostPort :: "string \<Rightarrow> goerr + string \<times> string" where
  "SplitHostPort hostport = (case last_char (CHR '':'') hostport of
      None \<Rightarrow> Inl (addr_error hostport ''missing port in address'')
    | Some i \<Rightarrow>
       (if hostport ! 0 = CHR ''['' then
          (case index_char (CHR '']'') hostport of
             None \<Rightarrow> Inl (addr_error hostport ''missing ']' in address'')
           | Some e \<Rightarrow>
              (if e + 1 = length hostport then Inl (addr_error hostport ''missing port in address'')
               else if e + 1 = i then split_rest hostport i (take (e - 1) (drop 1 hostport)) 1 (e + 1)
               else if hostport ! (e + 1) = CHR '':'' then Inl (addr_error hostport ''too many colons in address'')
               else Inl (addr_error hostport ''missing port in address'')))
        else if index_char (CHR '':'') (take i hostport) \<noteq> None
        then Inl (addr_error hostport ''too many colons in address'')
        else split_rest hostport i (take i hostport) 0 0))"

section \<open>\<open>GetFreePort\<close>\<close>

text \<open>\<open>listen\<close> is the result of \<^verbatim>\<open>net.Listen\<close>: an error, or the address of the listener. The deferred \<^verbatim>\<open>Close\<close> frees the port again.\<close>

definition GetFreePort :: "goerr + string \<Rightarrow> goerr + int" where
  "GetFreePort listen = (case listen of
      Inl err \<Rightarrow> Inl err
    | Inr addr \<Rightarrow> (case SplitHostPort addr of
          Inl err \<Rightarrow> Inl err
        | Inr (host, portString) \<Rightarrow> Atoi portString))"

lemma index_char_None: "index_char c xs = None \<longleftrightarrow> c \<notin> set xs"
  by (induction xs) auto

lemma last_char_append: "c \<notin> set ys \<Longrightarrow> last_char c (xs @ c # ys) = Some (length xs)"
proof -
  assume "c \<notin> set ys"
  then have "last_char c ys = None" by (induction ys) auto
  then show ?thesis by (induction xs) auto
qed

lemma SplitHostPort_join:
  assumes "set host \<inter> {CHR ''['', CHR '']'', CHR '':''} = {}" "set port \<inter> {CHR ''['', CHR '']'', CHR '':''} = {}"
  shows "SplitHostPort (host @ CHR '':'' # port) = Inr (host, port)"
proof -
  have "(host @ CHR '':'' # port) ! 0 \<noteq> CHR ''[''" using assms(1) by (cases host) auto
  then show ?thesis using assms last_char_append [of "CHR '':''" port host]
    by (auto simp: SplitHostPort_def split_rest_def index_char_None)
qed

lemma format_nat_10_digits: "c \<in> set (format_nat 10 n) \<Longrightarrow> (of_char c :: nat) \<in> {48..57}"
proof (induction "10 :: nat" n rule: format_nat.induct)
  case (1 n)
  have "(of_char (digit_char d) :: nat) \<in> {48..57}" if "d < 10" for d
    using that by (simp add: digit_char_def)
  with 1 show ?case by (subst (asm) (2) format_nat.simps) (auto split: if_splits)
qed

lemma Atoi_format: "n < 2 ^ 63 \<Longrightarrow> Atoi (format_nat 10 n) = Inr (int n)"
proof -
  assume n: "n < 2 ^ 63"
  obtain c cs where c: "format_nat 10 n = c # cs" by (cases "format_nat 10 n") auto
  then have "(of_char c :: nat) \<in> {48..57}" using format_nat_10_digits [of c n] by simp
  then have "c \<noteq> CHR ''-''" "c \<noteq> CHR ''+''" by auto
  moreover have "parse_digits 10 (2 ^ 64 - 1) 0 (c # cs) = Inr n"
    using parse_digits_format [of 10 n "2 ^ 64 - 1"] n c by simp
  ultimately show ?thesis using n c by (simp add: Atoi_def del: parse_digits.simps)
qed

text \<open>The listener's address is \<^verbatim>\<open>127.0.0.1\<close> and a port; that port is the result.\<close>

theorem GetFreePort_port:
  assumes "p < 65536"
  shows "GetFreePort (Inr (''127.0.0.1:'' @ format_nat 10 p)) = Inr (int p)"
proof -
  have "set (format_nat 10 p) \<inter> {CHR ''['', CHR '']'', CHR '':''} = {}"
    using format_nat_10_digits [of _ p] by fastforce
  then have "SplitHostPort (''127.0.0.1'' @ CHR '':'' # format_nat 10 p) = Inr (''127.0.0.1'', format_nat 10 p)"
    by (intro SplitHostPort_join) auto
  then show ?thesis using assms Atoi_format [of p] by (simp add: GetFreePort_def)
qed

end
