(* ===== verification/Spec2Isabelle.thy ===== *)
theory Spec2Isabelle
  imports ServerLife GwCall Metrics Logging Pipeline FailedCall HeartbeatCall RawReply ExampleBreaker ExampleMetrics NetUtil
begin

text \<open>
  A verification development for easymicro, an RPC framework in Go: a client sends a message with a 12-byte header, a
  service path, a method name, metadata and a payload over one connection; a server looks the method up, decodes the
  payload, calls the method and answers; servers are found through etcd, a client balances over them, and two
  gateways let HTTP requests in.

  \<^bold>\<open>The parts and where they are.\<close> File names are those under \<^verbatim>\<open>src/\<close>; definitions keep the names of the functions they
  model.

  \<^item> Foundations. \<open>Prelude\<close>: machine words, errors, big-endian numbers, Go maps as association lists. \<open>GoRuntime\<close>:
    slices with capacity, readers and writers (locales \<open>byte_reader\<close>, \<open>byte_writer\<close>). \<open>Util\<close> and \<open>NetUtil\<close>: \<^verbatim>\<open>util/\<close>. \<open>Strconv\<close> and
    \<open>UrlForm\<close>: what the code uses of \<^verbatim>\<open>strconv\<close>, \<^verbatim>\<open>strings\<close>, \<^verbatim>\<open>net/url\<close> (as of Go 1.12) and the header keys of HTTP.
  \<^item> The protocol. \<open>Header\<close>: the header bytes, with the locale \<open>header_field\<close> for a field that reads back and leaves the
    others alone. \<open>Message\<close>: \<^verbatim>\<open>protocol/message.go\<close> and \<^verbatim>\<open>protocol/compressor.go\<close>. \<open>Wire\<close>: the abstract format \<open>frame\<close>,
    the lemmas that both encoders produce it and that \<open>Decode\<close> inverts it over any reader. \<open>MsgPool\<close>:
    the two pools of \<^verbatim>\<open>protocol/pool.go\<close> (locale \<open>message_pool\<close>).
  \<^item> Metadata and payloads. \<open>MetadataCtx\<close>: contexts, spans and their way through metadata (\<^verbatim>\<open>metadata/\<close>,
    \<^verbatim>\<open>server/context.go\<close>, \<^verbatim>\<open>share/share.go\<close>). \<open>Codec\<close>: \<^verbatim>\<open>codec/codec.go\<close> (locale \<open>codec_contract\<close>).
  \<^item> The server. \<open>Service\<close>: registration, method tables, the pools of arguments (\<^verbatim>\<open>server/server.go\<close>,
    \<^verbatim>\<open>server/service.go\<close>, \<^verbatim>\<open>server/pool.go\<close>; locale \<open>keyed_table\<close>). \<open>Dispatch\<close>: \<open>handleRequest\<close> with its abstract
    specification \<open>rpc_spec\<close>, which needs no pools and no message objects. \<open>EasyConn\<close>: a connection as a step relation
    that interleaves the reading loop with the handlers (\<^verbatim>\<open>server/easyconn.go\<close>). \<open>ServerLife\<close>: options, start, accept loop,
    closing (\<^verbatim>\<open>server/options.go\<close>).
  \<^item> The client. \<open>RPCClient\<close> and \<open>ClientLife\<close>: the operations of \<^verbatim>\<open>client/rpcclient.go\<close> and \<^verbatim>\<open>client/call_options.go\<close>, one
    definition per critical section. \<open>ClientSteps\<close>: its goroutines as a step relation with the invariant that links
    the table of pending calls, the calls being sent and the signals. \<open>ClientProps\<close>: what follows for calls,
    closing, reconnecting and heartbeats. \<open>KeepaliveLoop\<close>: the goroutine that sends heartbeats, and the client a
    failed one leaves behind. \<open>RawReply\<close>: replies without serialization as slices of the arrays they share.
    \<open>Balancer\<close>: \<^verbatim>\<open>client/client.go\<close>, \<^verbatim>\<open>client/selector.go\<close> (locale \<open>selection\<close>).
  \<^item> The whole call. \<open>EndToEnd\<close> puts client, wire and server together for one call, from \<open>Call\<close> to its return, \<open>Pipeline\<close>
    for any number of calls on one connection, \<open>FailedCall\<close> for a call that fails on the server, \<open>HeartbeatCall\<close> for
    heartbeats. \<open>Examples\<close>: programs of \<^verbatim>\<open>examples/\<close>, client against server; \<open>ExampleLoops\<close>:
    those that call in a loop, over one connection or over the nodes that were discovered; \<open>ExampleBreaker\<close>: calls that time
    out behind a circuit breaker; \<open>ExampleMetrics\<close>: a server that counts its calls.
  \<^item> Discovery. \<open>Discovery\<close>: publisher and subscriber (\<^verbatim>\<open>discovery/\<close>) with the requests made to etcd, and the
    client built on it; \<open>etcd_store\<close> is what these requests leave in etcd. \<open>Registry\<close>: the abstract registry that the
    client's nodes follow (locale \<open>node_table\<close>, the contract of the functions a subscriber is given).
  \<^item> Gateways. \<open>HttpGateway\<close>: the one inside a server (\<^verbatim>\<open>server/gateway.go\<close>). \<open>GwClient\<close> and \<open>GwProxy\<close>: the standalone one
    (\<^verbatim>\<open>gateway/\<close>). \<open>GwCall\<close> puts it together with a node.
  \<^item> \<open>Metrics\<close>: \<^verbatim>\<open>metrics/prometheus.go\<close>, with slices over a store of arrays. \<open>Logging\<close>: \<^verbatim>\<open>log/\<close> and
    \<^verbatim>\<open>client/circuit_breaker.go\<close>.

  \<^bold>\<open>Conventions.\<close> A panic is \<open>None\<close>; an \<^verbatim>\<open>error\<close> is a value of \<open>goerr option\<close> or of a sum. Objects that the code shares
  through pointers (calls, channels, variables of a caller) are entries of a list with their index. What the network, the
  clock, the scheduler, map iteration and \<^verbatim>\<open>sync.Pool\<close> decide is an argument, so that the theorems hold for every
  choice. A critical section is one step; only the end of \<open>input\<close>, which locks a mutex that it holds, has the mutex as state. \<^verbatim>\<open>uint32\<close> and \<^verbatim>\<open>uint64\<close> are words that wrap around; Go's \<^verbatim>\<open>int\<close> is \<open>int\<close> or \<open>nat\<close>, as no computation on it
  comes near its bounds. Strings are byte strings, and lower case is that of ASCII.

  \<^bold>\<open>What the theorems show.\<close>

  \<^item> The wire: encoding and decoding are inverse over connections that deliver bytes in any pieces, truncated streams
    are errors, both encoders agree, spans and metadata survive the way.
  \<^item> The server: \<open>handleRequest\<close> refines its specification, methods in the table have the signature that
    registration checks and are found under the names they were registered with, panics of a method become errors, every answer belongs to a request, and the
    loop of a connection ends after a number of rounds bounded by the bytes of the stream.
  \<^item> The whole call: \<open>Call\<close> returns nil with what the method computed, over connections that deliver in any pieces; on a shared
    connection every one of many calls gets its own reply, under every order of sending, reading, handling and answering,
    as long as no piece on the way back spans two responses. A request that fails on the server ends for the caller with the
    context. A heartbeat is answered and an idle connection kept. The example programs log what they should, also where a
    deadline passes first, and those that discover their servers call them in turn.
  \<^item> The client: under every interleaving a call completes at most once while the client is not closed; a response reaches
    exactly its call; closing fails what is pending; reconnecting backs off as meant. Where this breaks there are theorems
    too: the deadlock after a failed reconnect, the bytes lost in a throw-away reader, failed heartbeats that strand calls,
    raw replies that a later response overwrites.
  \<^item> Balancing is round robin, fair, and never picks an unavailable client. A published node has exactly one key, is
    found by a client under any case of the name, and its published name is the one its service is found under. The
    nodes of a client refine the abstract registry, whatever the events; as etcd reports deletions without the value that the
    code wants to read, none is ever taken away.
  \<^item> The gateways: a request means over HTTP what it means over RPC, metadata and bodies arrive unchanged, and malformed
    requests are refused. One to the standalone gateway is answered by the node its selector picks, over a connection in use or a new
    one. The variant of the client used there completes calls on a lost connection, but does not stay
    closed.
  \<^item> Metrics: labels derived from one parent may be overwritten.

  Theorems about code that does not do what it means to are stated like the others, for all inputs that trigger the
  behaviour.

  \<^bold>\<open>Termination and bounds.\<close> All functions are total. Loops over data recurse on it or on a measure: the metadata loop on
  the bytes left, \<open>reconnect_loop\<close> on the attempts left. Loops that run for as long as a connection or a process lives are
  step relations (\<open>conn_step\<close>, \<open>client_step\<close>, \<open>pub_step\<close>) or recurse on the events that arrive (\<open>serve_loop\<close>,
  \<open>WatchNodes\<close>, \<open>handleSignal\<close>, \<open>keepalive_loop\<close>). No fuel is used, except that \<open>serve_rounds\<close> counts the rounds of the reading
  loop, for which a sufficient number is proved, and \<open>input_rounds\<close> those of a client, one for each response.

  \<^bold>\<open>Outside code.\<close> Parameters with their documented behaviour as named hypotheses: gzip (\<open>gzip_documented\<close>), the serialization
  libraries, JSON of a node (\<open>json_documented\<close>), the growth of a slice (\<open>grows\<close>); in the examples also the
  circuit breaker (\<open>breaker_documented\<close>) and the vectors of prometheus (\<open>takes_method_label\<close>). Elsewhere without hypotheses: the network, HTTP,
  the router, etcd's answers, the breaker, the rate limiter, prometheus, formatting. Reflection is data of the receiver.
  Panics of \<^verbatim>\<open>log.Panic\<close> and exits of \<^verbatim>\<open>log.Fatal\<close> are those of the default logger. A nil context panics in
  \<^verbatim>\<open>context.WithValue\<close>, as it does since Go 1.15.

  \<^bold>\<open>Not modelled.\<close> \<^verbatim>\<open>benchmark/\<close> measures times, its protobuf code and that of \<^verbatim>\<open>examples/\<close> is generated; the examples
  that are not modelled no longer compile, or rest on generated code (\<^verbatim>\<open>serialize/\<close>); \<^verbatim>\<open>tracing/\<close> is empty; \<open>HandleHTTP\<close> and \<open>StartGateway\<close> register handlers with
  the HTTP library; \<open>LocalAddr\<close> and \<open>RemoteAddr\<close> ask the connection. Data races on fields read without the mutex are outside
  the model: a step sees what the steps before it wrote. Leases that run out, which only remove keys, are no steps of \<open>pub_step\<close>. The response
  that the standalone gateway frees is the message its reader decodes into: that it is reset is modelled (\<open>reset_reply\<close>), that
  the pool may hand it to another request is not. The heartbeats that share a connection with the calls of the example loops are left
  out there, and the time that messages travel; a method's sleep is compared with the deadline (\<open>call_within\<close>). The standalone gateway refers to a discovery interface
  and a selector over nodes that the repository does not have; they are parameters of \<open>gc_selectRPCClient\<close>. Log output is
  modelled in \<open>Logging\<close> only.
\<close>

end
